theory Spec2Isabelle
  imports Main
begin

section \<open>Strings as Python uses them\<close>

text \<open>
  Python \<open>str\<close> and \<open>bytes\<close> values are modelled as \<open>string\<close> (a list of 8-bit
  characters).  The operations below are the ones \<open>update_vcp.py\<close> applies to command
  output: \<open>' '.join\<close>, \<open>in\<close>, \<open>startswith\<close>, \<open>lower\<close>, \<open>strip\<close> and \<open>split\<close>.
\<close>

fun join_sp :: "string list \<Rightarrow> string" where
  "join_sp [] = []"
| "join_sp [x] = x"
| "join_sp (x # y # ys) = x @ CHR '' '' # join_sp (y # ys)"

fun startswith :: "string \<Rightarrow> string \<Rightarrow> bool" where
  "startswith s [] = True"
| "startswith [] (p # ps) = False"
| "startswith (c # cs) (p # ps) = (c = p \<and> startswith cs ps)"

text \<open>\<open>contains sub s\<close> is Python's \<open>sub in s\<close>.\<close>

fun contains :: "string \<Rightarrow> string \<Rightarrow> bool" where
  "contains sub [] = (sub = [])"
| "contains sub (c # cs) = (startswith (c # cs) sub \<or> contains sub cs)"

definition lower_char :: "char \<Rightarrow> char" where
  "lower_char c =
     (if (65::nat) \<le> of_char c \<and> of_char c \<le> (90::nat)
      then char_of (of_char c + (32::nat)) else c)"

definition py_lower :: "string \<Rightarrow> string" where
  "py_lower s = map lower_char s"

definition is_space :: "char \<Rightarrow> bool" where
  "is_space c = (of_char c \<in> {9, 10, 11, 12, 13, 28, 29, 30, 31, 32 :: nat})"

definition py_strip :: "string \<Rightarrow> string" where
  "py_strip s = rev (dropWhile is_space (rev (dropWhile is_space s)))"

text \<open>\<open>split_on c s\<close> is \<open>s.split(c)\<close> for a one-character separator.\<close>

fun split_on :: "char \<Rightarrow> string \<Rightarrow> string list" where
  "split_on c [] = [[]]"
| "split_on c (x # xs) =
     (if x = c then [] # split_on c xs
      else (case split_on c xs of [] \<Rightarrow> [[x]] | w # ws \<Rightarrow> (x # w) # ws))"

definition path_name :: "string \<Rightarrow> string" where
  "path_name p = last (split_on CHR ''/'' p)"

definition path_join :: "string \<Rightarrow> string \<Rightarrow> string" where
  "path_join p f = p @ CHR ''/'' # f"

section \<open>Data model\<close>

datatype UpdateStatus =
  SUCCESS | FAILED | PARTIAL | SKIPPED | NO_CHANGES | IN_PROGRESS | CANCELLED


datatype GitCheckpointType =
  BEFORE_UPDATE | AFTER_REMOTE_SETUP | AFTER_FETCH | AFTER_MERGE | AFTER_PUSH
  | MANUAL | AUTO_BACKUP

fun checkpoint_value :: "GitCheckpointType \<Rightarrow> string" where
  "checkpoint_value BEFORE_UPDATE = ''before_update''"
| "checkpoint_value AFTER_REMOTE_SETUP = ''after_remote_setup''"
| "checkpoint_value AFTER_FETCH = ''after_fetch''"
| "checkpoint_value AFTER_MERGE = ''after_merge''"
| "checkpoint_value AFTER_PUSH = ''after_push''"
| "checkpoint_value MANUAL = ''manual''"
| "checkpoint_value AUTO_BACKUP = ''auto_backup''"

record ProjectConfig =
  path :: string
  upstream_url :: string
  origin_url :: string
  has_docker :: bool
  docker_compose_file :: string
  is_git_repo :: bool
  docker_health_check_timeout :: int
  docker_health_check_interval :: int
  docker_port :: "nat option"
  branch :: string
  auto_stash :: bool
  custom_commands :: "string list"

record UpdateResult =
  project_name :: string
  status :: UpdateStatus
  git_status :: "UpdateStatus option"
  docker_status :: "UpdateStatus option"
  start_time :: "int option"
  end_time :: "int option"
  error_message :: "string option"
  changes_count :: nat
  files_changed :: "string list"
  backup_branch :: "string option"
  stash_ref :: "string option"

text \<open>The dataclass constructor \<open>UpdateResult(project_name=..., status=...)\<close> with its defaults.\<close>

definition new_result :: "string \<Rightarrow> UpdateStatus \<Rightarrow> UpdateResult" where
  "new_result name st =
     \<lparr>project_name = name, status = st, git_status = None, docker_status = None,
      start_time = None, end_time = None, error_message = None, changes_count = 0,
      files_changed = [], backup_branch = None, stash_ref = None\<rparr>"

text \<open>Python exceptions that the modelled code can raise, as values.\<close>

datatype py_exception =
  KeyError string | TypeError | AttributeError | ValueError | KeyboardInterrupt

section \<open>Exit code of an update run\<close>







section \<open>The environment and the updater's state\<close>

text \<open>
  Everything outside the program (git, docker, the file system, the clock, the user)
  is a \<open>world\<close>: a record of oracles.  Oracles whose answer can change while the program
  runs are indexed by a counter of external interactions, \<open>tick\<close>, which the state
  carries and every subprocess invocation advances.  Library functions whose result
  depends on their argument only (\<open>hashlib.md5\<close>, \<open>json.loads\<close>, the two regular
  expressions of the simple health check) are parameters of the world as well.
\<close>

datatype proc_result =
  Returned int string string   \<comment> \<open>return code, stdout, stderr\<close>
  | TimeoutExpired
  | Raised string              \<comment> \<open>any other exception, with \<open>str(e)\<close>\<close>

datatype file_state = Absent | Unreadable | Content string

datatype json =
  JNull | JBool bool | JNum int | JStr string | JList "json list" | JDict "(string \<times> json) list"

record world =
  subprocess :: "nat \<Rightarrow> string \<Rightarrow> string list \<Rightarrow> proc_result"
  shutdown_set :: "nat \<Rightarrow> bool"
  file_at :: "nat \<Rightarrow> string \<Rightarrow> file_state"
  cache_read_fails :: "nat \<Rightarrow> bool"
  cache_write_fails :: "nat \<Rightarrow> bool"
  md5 :: "string \<Rightarrow> string"
  json_loads :: "string \<Rightarrow> json option"
  re_running :: "string \<Rightarrow> bool"
  re_exit :: "string \<Rightarrow> bool"
  port_open :: "nat \<Rightarrow> nat \<Rightarrow> bool"
  clock :: "nat \<Rightarrow> int"
  now_stamp :: "nat \<Rightarrow> string"
  user_confirms :: "nat \<Rightarrow> bool"

text \<open>The options read through \<open>self.config\<close>, with the detected compose command.\<close>

record settings =
  interactive_mode :: bool
  skip_unchanged_docker :: bool
  backup_before_update :: bool
  create_restore_points :: bool
  push_checkpoints :: bool
  auto_merge_conflicts :: bool
  force_push :: bool
  safe_merge_only :: bool
  cfg_verify_docker_health :: bool
  rebuild_on_config_change :: bool
  remove_orphans :: bool
  auto_prune :: bool
  max_restart_attempts :: nat
  use_simple_health_check :: bool
  prune_scope :: string
  network_retry_count :: nat
  ssl_verify :: bool
  enable_parallel_git :: bool
  enable_parallel_docker :: bool
  docker_compose_cmd :: "string list"

datatype py_value = PNone | PBool bool | PStr string | PInt int

fun truthy :: "py_value option \<Rightarrow> bool" where
  "truthy None = False"
| "truthy (Some PNone) = False"
| "truthy (Some (PBool b)) = b"
| "truthy (Some (PStr s)) = (s \<noteq> [])"
| "truthy (Some (PInt i)) = (i \<noteq> 0)"

record checkpoint =
  commit_hash :: string
  ck_branch :: string
  has_uncommitted_changes :: bool
  uncommitted_changes :: string
  ck_timestamp :: string
  checkpoint_type :: string
  description :: string

text \<open>
  The state of a \<open>VCPAutoUpdater\<close>: \<open>rollback_info\<close>, \<open>git_checkpoints\<close> and the hash
  cache directory.  Four fields are ghost state, written and never read by the model:
  \<open>invoked\<close> lists the subprocess invocations with their success, \<open>attempted\<close> the
  calls of \<open>create_git_checkpoint\<close> (project name and kind), \<open>created\<close> the checkpoints
  it stored, and \<open>stage_log\<close> what each stage of \<open>_perform_git_update\<close> returned, all
  in order.  They mirror the log lines of the source and let a theorem speak about one
  run.
\<close>

datatype stage_event = StageOk string | StageFailed string | MergeNoChanges

record ustate =
  tick :: nat
  should_cancel :: bool
  rollback_info :: "string \<rightharpoonup> (string \<rightharpoonup> py_value)"
  git_checkpoints :: "string \<rightharpoonup> (string \<rightharpoonup> checkpoint)"
  cache_files :: "string \<rightharpoonup> string"
  invoked :: "(string list \<times> bool) list"
  created :: "(string \<times> GitCheckpointType) list"
  attempted :: "(string \<times> GitCheckpointType) list"
  stage_log :: "stage_event list"

text \<open>The three messages of \<open>run_command\<close>, as the UTF-8 bytes of the source's literals.\<close>

definition msg_cancelled :: string where
  "msg_cancelled = [CHR 0xE6, CHR 0x93, CHR 0x8D, CHR 0xE4, CHR 0xBD, CHR 0x9C, CHR 0xE5,
     CHR 0xB7, CHR 0xB2, CHR 0xE5, CHR 0x8F, CHR 0x96, CHR 0xE6, CHR 0xB6, CHR 0x88]"

definition msg_timeout :: string where
  "msg_timeout = [CHR 0xE5, CHR 0x91, CHR 0xBD, CHR 0xE4, CHR 0xBB, CHR 0xA4, CHR 0xE6,
     CHR 0x89, CHR 0xA7, CHR 0xE8, CHR 0xA1, CHR 0x8C, CHR 0xE8, CHR 0xB6, CHR 0x85, CHR 0xE6,
     CHR 0x97, CHR 0xB6]"

definition msg_all_retries_failed :: string where
  "msg_all_retries_failed = [CHR 0xE6, CHR 0x89, CHR 0x80, CHR 0xE6, CHR 0x9C, CHR 0x89,
     CHR 0xE9, CHR 0x87, CHR 0x8D, CHR 0xE8, CHR 0xAF, CHR 0x95, CHR 0xE9, CHR 0x83, CHR 0xBD,
     CHR 0xE5, CHR 0xA4, CHR 0xB1, CHR 0xE8, CHR 0xB4, CHR 0xA5]"

text \<open>
  One call of \<open>subprocess.run\<close>: the world answers, the counter advances and the
  invocation is logged.
\<close>

definition subprocess_run ::
  "world \<Rightarrow> string \<Rightarrow> string list \<Rightarrow> ustate \<Rightarrow> proc_result \<times> ustate" where
  "subprocess_run w cwd cmd s =
     (let r = subprocess w (tick s) cwd cmd;
          ok = (case r of Returned rc out err \<Rightarrow> rc = 0 | _ \<Rightarrow> False)
      in (r, s\<lparr>tick := Suc (tick s), invoked := invoked s @ [(cmd, ok)]\<rparr>))"

text \<open>
  The retry loop of \<open>run_command\<close>, \<open>for attempt in range(max_retries)\<close>.  The
  recursion is on the number of attempts left, so \<open>attempt == max_retries - 1\<close> is
  \<open>k = 0\<close> below.  \<open>capture\<close> is \<open>capture_output\<close>; without it stdout and stderr are
  returned empty.
\<close>

fun run_attempts ::
  "world \<Rightarrow> string \<Rightarrow> string list \<Rightarrow> bool \<Rightarrow> bool \<Rightarrow> nat \<Rightarrow> ustate
   \<Rightarrow> (bool \<times> string \<times> string) \<times> ustate" where
  "run_attempts w cwd cmd capture retry 0 s = ((False, [], msg_all_retries_failed), s)"
| "run_attempts w cwd cmd capture retry (Suc k) s =
     (if shutdown_set w (tick s) then ((False, [], msg_cancelled), s)
      else
        (case subprocess_run w cwd cmd s of
           (Returned rc out err, s') \<Rightarrow>
             (let stdout = (if capture then py_strip out else []);
                  stderr = (if capture then py_strip err else [])
              in if rc = 0 then ((True, stdout, stderr), s')
                 else if \<not> retry \<or> k = 0 then ((False, stdout, stderr), s')
                 else run_attempts w cwd cmd capture retry k s')
         | (TimeoutExpired, s') \<Rightarrow>
             (if k = 0 then ((False, [], msg_timeout), s')
              else run_attempts w cwd cmd capture retry k s')
         | (Raised m, s') \<Rightarrow>
             (if k = 0 then ((False, [], m), s')
              else run_attempts w cwd cmd capture retry k s')))"

text \<open>
  \<open>run_command\<close>.  With \<open>retry_on_failure=None\<close> the retry is switched on when the
  joined command contains one of \<open>fetch\<close>, \<open>push\<close>, \<open>pull\<close>, \<open>clone\<close>.  The timeout of
  the subprocess is part of the world's answer (\<open>TimeoutExpired\<close>).
\<close>

definition run_command ::
  "world \<Rightarrow> settings \<Rightarrow> string list \<Rightarrow> string \<Rightarrow> bool \<Rightarrow> bool option \<Rightarrow> ustate
   \<Rightarrow> (bool \<times> string \<times> string) \<times> ustate" where
  "run_command w cfg cmd cwd capture retry_on_failure s =
     (let retry = (case retry_on_failure of
                     None \<Rightarrow> list_ex (\<lambda>c. contains c (join_sp cmd))
                               [''fetch'', ''push'', ''pull'', ''clone'']
                   | Some b \<Rightarrow> b);
          max_retries = (if retry then network_retry_count cfg else 1)
      in run_attempts w cwd cmd capture retry max_retries s)"

text \<open>The common call \<open>self.run_command(cmd, project_path)\<close>.\<close>

definition run_cmd ::
  "world \<Rightarrow> settings \<Rightarrow> string list \<Rightarrow> string \<Rightarrow> ustate
   \<Rightarrow> (bool \<times> string \<times> string) \<times> ustate" where
  "run_cmd w cfg cmd cwd s = run_command w cfg cmd cwd True None s"

section \<open>The configuration fingerprint\<close>

text \<open>\<open>hexdigest\<close>: two lower-case hexadecimal digits per byte of the digest.\<close>

definition hex_digit :: "nat \<Rightarrow> char" where
  "hex_digit n = ''0123456789abcdef'' ! (n mod 16)"

definition hexdigest :: "string \<Rightarrow> string" where
  "hexdigest d = concat (map (\<lambda>c. [hex_digit (of_char c div 16), hex_digit (of_char c)]) d)"

text \<open>
  The lookup loop at the head of \<open>_check_docker_config_changed\<close>: the first project
  whose path is the given path or has the same last component.
\<close>

definition find_project_config ::
  "(string \<times> ProjectConfig) list \<Rightarrow> string \<Rightarrow> ProjectConfig option" where
  "find_project_config projects project_path =
     map_option snd
       (find (\<lambda>(name, config). path config = project_path
                 \<or> path_name (path config) = path_name project_path) projects)"

definition file_exists :: "world \<Rightarrow> nat \<Rightarrow> string \<Rightarrow> bool" where
  "file_exists w t p = (file_at w t p \<noteq> Absent)"

text \<open>
  The list \<open>config_files\<close>: the compose file, then each of the four auxiliary files that
  exists.
\<close>

definition config_files :: "world \<Rightarrow> nat \<Rightarrow> string \<Rightarrow> string \<Rightarrow> string list" where
  "config_files w t project_path compose_file =
     compose_file #
     filter (\<lambda>f. file_exists w t (path_join project_path f))
       [''Dockerfile'', ''.env'', ''docker-compose.override.yml'', ''requirements.txt'']"

text \<open>
  \<open>combined_content\<close>: the contents of the listed files, concatenated in order; a file
  that does not exist or cannot be read contributes nothing.
\<close>

definition combined_content :: "world \<Rightarrow> nat \<Rightarrow> string \<Rightarrow> string \<Rightarrow> string" where
  "combined_content w t project_path compose_file =
     concat (map (\<lambda>f. case file_at w t (path_join project_path f) of
                         Content b \<Rightarrow> b | _ \<Rightarrow> [])
                 (config_files w t project_path compose_file))"

definition cache_file_name :: "string \<Rightarrow> string" where
  "cache_file_name project_path = path_name project_path @ ''_docker_config.hash''"

text \<open>
  \<open>_check_docker_config_changed\<close>.  Every exception inside is caught and answered with
  \<open>False\<close>; the two that the model can produce are a failing read and a failing write of
  the cache file.
\<close>

definition check_docker_config_changed ::
  "world \<Rightarrow> (string \<times> ProjectConfig) list \<Rightarrow> string \<Rightarrow> ustate \<Rightarrow> bool \<times> ustate" where
  "check_docker_config_changed w projects project_path s =
     (case find_project_config projects project_path of
        None \<Rightarrow> (False, s)
      | Some project_config \<Rightarrow>
          (let compose_file = docker_compose_file project_config in
           if \<not> file_exists w (tick s) (path_join project_path compose_file) then (False, s)
           else
             (let content = combined_content w (tick s) project_path compose_file in
              if content = [] then (False, s)
              else
                (let current_hash = hexdigest (md5 w content);
                     cache_file = cache_file_name project_path
                 in case cache_files s cache_file of
                      Some cached \<Rightarrow>
                        (if cache_read_fails w (tick s) then (False, s)
                         else if current_hash \<noteq> py_strip cached then
                           (if cache_write_fails w (tick s) then (False, s)
                            else (True, s\<lparr>cache_files := (cache_files s)(cache_file \<mapsto> current_hash)\<rparr>))
                         else (False, s))
                    | None \<Rightarrow>
                        (if cache_write_fails w (tick s) then (False, s)
                         else (False, s\<lparr>cache_files := (cache_files s)(cache_file \<mapsto> current_hash)\<rparr>))))))"

section \<open>Git synchronisation\<close>

subsection \<open>Checkpoints\<close>

definition get_current_commit ::
  "world \<Rightarrow> settings \<Rightarrow> string \<Rightarrow> ustate \<Rightarrow> string option \<times> ustate" where
  "get_current_commit w cfg project_path s =
     (case run_cmd w cfg [''git'', ''rev-parse'', ''HEAD''] project_path s of
        ((success, commit, err), s') \<Rightarrow>
          (if success then Some (py_strip commit) else None, s'))"

text \<open>The tag of a restore point: a subprocess call, and a second one when tags are pushed.\<close>

definition tag_checkpoint ::
  "world \<Rightarrow> settings \<Rightarrow> string \<Rightarrow> string \<Rightarrow> string \<Rightarrow> ustate \<Rightarrow> ustate" where
  "tag_checkpoint w cfg project_path checkpoint_name descr s =
     (if create_restore_points cfg then
        (let tag_name = ''vcp-checkpoint-'' @ checkpoint_name @ ''-'' @ now_stamp w (tick s);
             tag_message = (if descr \<noteq> [] then descr
                            else ''VCP checkpoint: '' @ checkpoint_name);
             s1 = snd (run_cmd w cfg [''git'', ''tag'', ''-a'', tag_name, ''-m'', tag_message]
                         project_path s)
         in if push_checkpoints cfg
            then snd (run_cmd w cfg [''git'', ''push'', ''origin'', tag_name] project_path s1)
            else s1)
      else s)"

text \<open>
  \<open>create_git_checkpoint\<close>: nothing is stored, and \<open>None\<close> is returned, when the current
  commit cannot be read (\<open>if not commit_hash\<close>: the command failed or printed nothing).
  \<open>save_rollback_info\<close> writes the state to disk inside its own \<open>try\<close> and changes
  nothing of the state, so it has no counterpart here.
\<close>

definition create_git_checkpoint ::
  "world \<Rightarrow> settings \<Rightarrow> string \<Rightarrow> GitCheckpointType \<Rightarrow> string \<Rightarrow> ustate
   \<Rightarrow> string option \<times> ustate" where
  "create_git_checkpoint w cfg project_path ctype descr s =
     (let checkpoint_name = checkpoint_value ctype;
          pname = path_name project_path;
          s0 = s\<lparr>attempted := attempted s @ [(pname, ctype)]\<rparr>
      in case get_current_commit w cfg project_path s0 of
           (None, s1) \<Rightarrow> (None, s1)
         | (Some commit, s1) \<Rightarrow>
             (if commit = [] then (None, s1)
              else
                (case run_cmd w cfg [''git'', ''branch'', ''--show-current''] project_path s1 of
                   ((ok_b, branch_out, e1), s2) \<Rightarrow>
                (case run_cmd w cfg [''git'', ''status'', ''--porcelain''] project_path s2 of
                   ((ok_s, status_output, e2), s3) \<Rightarrow>
                  (let branch_name = (if ok_b then branch_out else ''main'');
                       has_uncommitted = (ok_s \<and> py_strip status_output \<noteq> []);
                       s4 = tag_checkpoint w cfg project_path checkpoint_name descr s3;
                       info = \<lparr>commit_hash = py_strip commit,
                               ck_branch = py_strip branch_name,
                               has_uncommitted_changes = has_uncommitted,
                               uncommitted_changes =
                                 (if has_uncommitted then status_output else []),
                               ck_timestamp = now_stamp w (tick s4),
                               checkpoint_type = checkpoint_name,
                               description = descr\<rparr>;
                       old = (case git_checkpoints s4 pname of
                                None \<Rightarrow> Map.empty | Some m \<Rightarrow> m)
                   in (Some commit,
                       s4\<lparr>git_checkpoints :=
                            (git_checkpoints s4)(pname \<mapsto> old(checkpoint_name \<mapsto> info)),
                          created := created s4 @ [(pname, ctype)]\<rparr>))))))"

text \<open>A sequence of commands whose results are ignored.\<close>

fun run_all :: "world \<Rightarrow> settings \<Rightarrow> string \<Rightarrow> string list list \<Rightarrow> ustate \<Rightarrow> ustate" where
  "run_all w cfg cwd [] s = s"
| "run_all w cfg cwd (c # cs) s = run_all w cfg cwd cs (snd (run_cmd w cfg c cwd s))"

text \<open>
  The stash of \<open>rollback_info\<close> that \<open>restore_git_checkpoint\<close> re-applies:
  \<open>rollback_data.get("has_stash") and rollback_data.get("stash_ref")\<close>.
\<close>

definition recorded_stash :: "ustate \<Rightarrow> string \<Rightarrow> string option" where
  "recorded_stash s pname =
     (case rollback_info s pname of
        None \<Rightarrow> None
      | Some rollback_data \<Rightarrow>
          (if truthy (rollback_data ''has_stash'') \<and> truthy (rollback_data ''stash_ref'')
           then (case rollback_data ''stash_ref'' of Some (PStr r) \<Rightarrow> Some r | _ \<Rightarrow> None)
           else None))"

definition restore_git_checkpoint ::
  "world \<Rightarrow> settings \<Rightarrow> string \<Rightarrow> string \<Rightarrow> ustate \<Rightarrow> bool \<times> ustate" where
  "restore_git_checkpoint w cfg project_path checkpoint_name s =
     (let pname = path_name project_path in
      case git_checkpoints s pname of
        None \<Rightarrow> (False, s)
      | Some cks \<Rightarrow>
          (case cks checkpoint_name of
             None \<Rightarrow> (False, s)
           | Some ck \<Rightarrow>
               (let s1 = snd (create_git_checkpoint w cfg project_path AUTO_BACKUP
                                ''Auto backup before restore'' s);
                    s2 = run_all w cfg project_path
                           [[''git'', ''clean'', ''-fd''], [''git'', ''reset'', ''--hard''],
                            [''git'', ''merge'', ''--abort''], [''git'', ''rebase'', ''--abort''],
                            [''git'', ''cherry-pick'', ''--abort'']] s1;
                    s3 = (if ck_branch ck \<noteq> []
                          then snd (run_cmd w cfg [''git'', ''checkout'', ck_branch ck]
                                      project_path s2)
                          else s2)
                in case run_cmd w cfg [''git'', ''reset'', ''--hard'', commit_hash ck]
                          project_path s3 of
                     ((success, out, err), s4) \<Rightarrow>
                       (if \<not> success then (False, s4)
                        else
                          (case recorded_stash s4 pname of
                             Some r \<Rightarrow>
                               (True, snd (run_cmd w cfg [''git'', ''stash'', ''apply'', r]
                                             project_path s4))
                           | None \<Rightarrow> (True, s4))))))"

text \<open>The \<open>for ... else\<close> loop of \<open>_handle_git_failure\<close>: stop at the first restore that succeeds.\<close>

fun restore_first :: "world \<Rightarrow> settings \<Rightarrow> string \<Rightarrow> string list \<Rightarrow> ustate \<Rightarrow> ustate" where
  "restore_first w cfg project_path [] s = s"
| "restore_first w cfg project_path (c # cs) s =
     (case restore_git_checkpoint w cfg project_path c s of
        (True, s') \<Rightarrow> s'
      | (False, s') \<Rightarrow> restore_first w cfg project_path cs s')"

definition handle_git_failure :: "world \<Rightarrow> settings \<Rightarrow> string \<Rightarrow> ustate \<Rightarrow> ustate" where
  "handle_git_failure w cfg project_path s =
     restore_first w cfg project_path
       (map checkpoint_value
          [AFTER_PUSH, AFTER_MERGE, AFTER_FETCH, AFTER_REMOTE_SETUP, BEFORE_UPDATE])
       (run_all w cfg project_path
          [[''git'', ''merge'', ''--abort''], [''git'', ''rebase'', ''--abort''],
           [''git'', ''cherry-pick'', ''--abort''], [''git'', ''reset'', ''--hard'']] s)"

subsection \<open>Backups and the working tree\<close>

definition create_backup_branch ::
  "world \<Rightarrow> settings \<Rightarrow> string \<Rightarrow> ustate \<Rightarrow> string option \<times> ustate" where
  "create_backup_branch w cfg project_path s =
     (let backup = ''backup-before-merge-'' @ now_stamp w (tick s) in
      case run_cmd w cfg [''git'', ''branch'', backup] project_path s of
        ((success, out, err), s') \<Rightarrow> (if success then Some backup else None, s'))"

text \<open>\<open>str.split()\<close> on whitespace, and \<open>int\<close> of a decimal numeral with an optional sign.\<close>

fun split_ws_acc :: "string \<Rightarrow> string \<Rightarrow> string list" where
  "split_ws_acc acc [] = (if acc = [] then [] else [rev acc])"
| "split_ws_acc acc (c # cs) =
     (if is_space c then (if acc = [] then [] else [rev acc]) @ split_ws_acc [] cs
      else split_ws_acc (c # acc) cs)"

definition py_split_ws :: "string \<Rightarrow> string list" where
  "py_split_ws s = split_ws_acc [] s"

definition is_digit :: "char \<Rightarrow> bool" where
  "is_digit c = ((48::nat) \<le> of_char c \<and> of_char c \<le> (57::nat))"

definition digits_value :: "string \<Rightarrow> nat" where
  "digits_value ds = foldl (\<lambda>n c. 10 * n + (of_char c - 48)) 0 ds"

definition parse_int :: "string \<Rightarrow> int option" where
  "parse_int t =
     (case t of
        [] \<Rightarrow> None
      | c # cs \<Rightarrow>
          (if c = CHR ''-'' \<and> cs \<noteq> [] \<and> list_all is_digit cs then Some (- int (digits_value cs))
           else if c = CHR ''+'' \<and> cs \<noteq> [] \<and> list_all is_digit cs then Some (int (digits_value cs))
           else if list_all is_digit (c # cs) then Some (int (digits_value (c # cs)))
           else None))"

text \<open>
  The size test of \<open>_create_backup\<close> over the lines of \<open>git count-objects -v\<close>: \<open>True\<close>
  when a \<open>size-pack\<close> line gives more than 500000.  A line that cannot be parsed raises
  inside \<open>try ... except: pass\<close>, which ends the loop without skipping the bundle.
\<close>

fun pack_too_large :: "string list \<Rightarrow> bool" where
  "pack_too_large [] = False"
| "pack_too_large (l # ls) =
     (if contains ''size-pack'' l then
        (case py_split_ws l of
           a # b # rest \<Rightarrow>
             (case parse_int b of
                None \<Rightarrow> False
              | Some size_kb \<Rightarrow> (if size_kb > 500000 then True else pack_too_large ls))
         | _ \<Rightarrow> False)
      else pack_too_large ls)"

text \<open>
  \<open>_create_backup\<close>.  The size check calls \<open>subprocess.run\<close> directly; the bundle goes
  through \<open>run_command\<close>.  Pruning old bundle files touches nothing the model holds.
\<close>

definition create_backup :: "world \<Rightarrow> settings \<Rightarrow> string \<Rightarrow> string \<Rightarrow> ustate \<Rightarrow> ustate" where
  "create_backup w cfg pname project_path s =
     (if \<not> create_restore_points cfg then s
      else
        (let backup_name = pname @ ''_'' @ now_stamp w (tick s) in
         case subprocess_run w project_path [''git'', ''count-objects'', ''-v''] s of
           (r, s1) \<Rightarrow>
             (if (case r of
                    Returned rc out err \<Rightarrow>
                      rc = 0 \<and> contains ''size-pack'' out
                      \<and> pack_too_large (split_on CHR 0x0A out)
                  | _ \<Rightarrow> False)
              then s1
              else snd (run_cmd w cfg
                          [''git'', ''bundle'', ''create'',
                           ''backups/'' @ backup_name @ ''.bundle'', ''--all'']
                          project_path s1))))"

definition stash_ref_of :: "string \<Rightarrow> string" where
  "stash_ref_of line = py_strip (hd (split_on CHR '':'' line))"

definition safe_stash_changes ::
  "world \<Rightarrow> settings \<Rightarrow> string \<Rightarrow> ustate \<Rightarrow> string option \<times> ustate" where
  "safe_stash_changes w cfg project_path s =
     (let stash_message = ''VCP auto-updater stash '' @ now_stamp w (tick s) in
      case run_cmd w cfg [''git'', ''stash'', ''push'', ''-m'', stash_message] project_path s of
        ((success, out, err), s1) \<Rightarrow>
          (if success then
             (case run_cmd w cfg [''git'', ''stash'', ''list'', ''--grep'', stash_message]
                     project_path s1 of
                ((stash_success, stash_list, e2), s2) \<Rightarrow>
                  (if stash_success \<and> stash_list \<noteq> []
                   then (Some (stash_ref_of stash_list), s2)
                   else (Some (''stash@'' @ ''{0}''), s2)))
           else (None, s1)))"

definition cleanup_old_stashes :: "world \<Rightarrow> settings \<Rightarrow> string \<Rightarrow> ustate \<Rightarrow> ustate" where
  "cleanup_old_stashes w cfg project_path s =
     (case run_cmd w cfg [''git'', ''stash'', ''list''] project_path s of
        ((success, stash_output, err), s1) \<Rightarrow>
          (if success \<and> stash_output \<noteq> [] then
             (let auto_stash_lines =
                    filter (contains ''VCP auto-updater stash'')
                      (split_on CHR 0x0A (py_strip stash_output))
              in if length auto_stash_lines > 5
                 then run_all w cfg project_path
                        (map (\<lambda>line. [''git'', ''stash'', ''drop'', stash_ref_of line])
                           (take (length auto_stash_lines - 5) auto_stash_lines)) s1
                 else s1)
           else s1))"

definition initialize_git_repo ::
  "world \<Rightarrow> settings \<Rightarrow> string \<Rightarrow> ustate \<Rightarrow> bool \<times> ustate" where
  "initialize_git_repo w cfg project_path s =
     (case run_cmd w cfg [''git'', ''init''] project_path s of
        ((ok_init, o1, e1), s1) \<Rightarrow>
          (if \<not> ok_init then (False, s1)
           else
             (case run_cmd w cfg [''git'', ''config'', ''user.name''] project_path s1 of
                ((success_name, existing_name, e2), s2) \<Rightarrow>
             (case run_cmd w cfg [''git'', ''config'', ''user.email''] project_path s2 of
                ((success_email, existing_email, e3), s3) \<Rightarrow>
               (let s4 = (if \<not> (success_name \<and> py_strip existing_name \<noteq> [])
                             \<or> \<not> (success_email \<and> py_strip existing_email \<noteq> [])
                          then run_all w cfg project_path
                                 [[''git'', ''config'', ''user.name'', ''VCP Auto Updater''],
                                  [''git'', ''config'', ''user.email'', ''vcp-updater@localhost'']]
                                 s3
                          else s3)
                in case run_cmd w cfg [''git'', ''add'', ''.''] project_path s4 of
                     ((ok_add, o5, e5), s5) \<Rightarrow>
                       (if \<not> ok_add then (False, s5)
                        else
                          (case run_cmd w cfg
                                  [''git'', ''commit'', ''-m'',
                                   ''Initial commit by VCP auto-updater v1.0'']
                                  project_path s5 of
                             ((ok_commit, o6, e6), s6) \<Rightarrow>
                               (if \<not> ok_commit then (False, s6)
                                else (True, snd (run_cmd w cfg
                                                   [''git'', ''branch'', ''-M'', ''main'']
                                                   project_path s6))))))))))"

text \<open>
  \<open>check_git_status\<close>.  It returns the updated \<open>result\<close> (its \<open>stash_ref\<close>) with the
  verdict.  \<open>rollback_info\<close> is keyed by \<open>project_path.name\<close> here, and the entry of that
  key is replaced.
\<close>

definition check_git_status ::
  "world \<Rightarrow> settings \<Rightarrow> string \<Rightarrow> ProjectConfig \<Rightarrow> UpdateResult \<Rightarrow> ustate
   \<Rightarrow> bool \<times> UpdateResult \<times> ustate" where
  "check_git_status w cfg project_path project_config result s =
     (if \<not> file_exists w (tick s) (path_join project_path ''.git'') then
        (if is_git_repo project_config
         then (case initialize_git_repo w cfg project_path s of (b, s') \<Rightarrow> (b, result, s'))
         else (True, result, s))
      else
        (case run_cmd w cfg [''git'', ''status'', ''--porcelain''] project_path s of
           ((success, out, err), s1) \<Rightarrow>
             (if \<not> success then (False, result, s1)
              else if py_strip out \<noteq> [] then
                (if auto_stash project_config then
                   (case safe_stash_changes w cfg project_path s1 of
                      (Some r, s2) \<Rightarrow>
                        (if r \<noteq> [] then
                           (let s3 = s2\<lparr>rollback_info := (rollback_info s2)
                                        (path_name project_path \<mapsto>
                                           [''has_stash'' \<mapsto> PBool True,
                                            ''stash_ref'' \<mapsto> PStr r,
                                            ''stash_time'' \<mapsto> PStr (now_stamp w (tick s2))])\<rparr>
                            in (True, result\<lparr>stash_ref := Some r\<rparr>,
                                cleanup_old_stashes w cfg project_path s3))
                         else (False, result, s2))
                    | (None, s2) \<Rightarrow> (False, result, s2))
                 else if safe_merge_only cfg then (False, result, s1)
                 else (True, result,
                       s1\<lparr>rollback_info := (rollback_info s1)
                            (path_name project_path \<mapsto>
                               [''uncommitted_changes'' \<mapsto> PStr out,
                                ''timestamp'' \<mapsto> PStr (now_stamp w (tick s1))])\<rparr>))
              else (True, result, s1))))"

subsection \<open>Remotes, fetch, merge and push\<close>

definition setup_git_remote ::
  "world \<Rightarrow> settings \<Rightarrow> string \<Rightarrow> string \<Rightarrow> string \<Rightarrow> ustate \<Rightarrow> bool \<times> ustate" where
  "setup_git_remote w cfg project_path remote_name remote_url s =
     (case run_cmd w cfg [''git'', ''remote'', ''get-url'', remote_name] project_path s of
        ((success, current_url, err), s1) \<Rightarrow>
          (if success then
             (if py_strip current_url \<noteq> remote_url then
                (case run_cmd w cfg [''git'', ''remote'', ''set-url'', remote_name, remote_url]
                        project_path s1 of
                   ((ok, o2, e2), s2) \<Rightarrow> (ok, s2))
              else (True, s1))
           else
             (case run_cmd w cfg [''git'', ''remote'', ''add'', remote_name, remote_url]
                     project_path s1 of
                ((ok, o2, e2), s2) \<Rightarrow> (ok, s2))))"

text \<open>\<open>setup_git_remotes\<close> reads \<open>self.projects[project_name]\<close>, a \<open>KeyError\<close> when absent.\<close>

definition setup_git_remotes ::
  "world \<Rightarrow> settings \<Rightarrow> (string \<times> ProjectConfig) list \<Rightarrow> string \<Rightarrow> ustate
   \<Rightarrow> (py_exception + bool) \<times> ustate" where
  "setup_git_remotes w cfg projects pname s =
     (case map_of projects pname of
        None \<Rightarrow> (Inl (KeyError pname), s)
      | Some project_config \<Rightarrow>
          (case setup_git_remote w cfg (path project_config) ''upstream''
                  (upstream_url project_config) s of
             (False, s1) \<Rightarrow> (Inr False, s1)
           | (True, s1) \<Rightarrow>
               (case setup_git_remote w cfg (path project_config) ''origin''
                       (origin_url project_config) s1 of
                  (ok, s2) \<Rightarrow> (Inr ok, s2))))"

definition configure_git_ssl :: "world \<Rightarrow> settings \<Rightarrow> string \<Rightarrow> ustate \<Rightarrow> ustate" where
  "configure_git_ssl w cfg project_path s =
     run_all w cfg project_path
       [[''git'', ''config'', ''--local'', ''http.sslBackend'', ''openssl''],
        [''git'', ''config'', ''--local'', ''http.postBuffer'', ''524288000''],
        [''git'', ''config'', ''--local'', ''http.version'', ''HTTP/1.1'']] s"

definition fetch_upstream_changes ::
  "world \<Rightarrow> settings \<Rightarrow> string \<Rightarrow> ustate \<Rightarrow> bool \<times> ustate" where
  "fetch_upstream_changes w cfg project_path s =
     (let fetch_cmd = [''git'', ''fetch'', ''upstream'', ''--tags'', ''--prune''];
          s0 = (if \<not> ssl_verify cfg
                then snd (run_cmd w cfg [''git'', ''config'', ''--local'', ''http.sslVerify'',
                                         ''false''] project_path s)
                else s)
      in case run_command w cfg fetch_cmd project_path True (Some True) s0 of
           ((success, out, err), s1) \<Rightarrow>
             (if \<not> success \<and> (contains ''ssl'' (py_lower err) \<or> contains ''tls'' (py_lower err))
              then
                (case run_cmd w cfg fetch_cmd project_path (configure_git_ssl w cfg project_path s1) of
                   ((success2, o2, e2), s3) \<Rightarrow> (success2, s3))
              else (success, s1)))"

text \<open>
  The loop over the two conflict strategies of \<open>merge_upstream_changes\<close>: the first
  command that succeeds ends it with \<open>"success"\<close>.
\<close>

fun try_strategies ::
  "world \<Rightarrow> settings \<Rightarrow> string \<Rightarrow> string list list \<Rightarrow> ustate \<Rightarrow> string \<times> ustate" where
  "try_strategies w cfg project_path [] s = (''failed'', s)"
| "try_strategies w cfg project_path (strategy # rest) s =
     (case run_cmd w cfg strategy project_path s of
        ((success, out, err), s1) \<Rightarrow>
          (if success then (''success'', s1)
           else try_strategies w cfg project_path rest s1))"

definition merge_cmd :: "string \<Rightarrow> string list" where
  "merge_cmd br = [''git'', ''merge'', ''upstream/'' @ br, ''--no-edit'']"

definition theirs_cmd :: "string \<Rightarrow> string list" where
  "theirs_cmd br = [''git'', ''merge'', ''upstream/'' @ br, ''--strategy=recursive'',
                    ''-X'', ''theirs'', ''--no-edit'']"

definition reset_cmd :: "string \<Rightarrow> string list" where
  "reset_cmd br = [''git'', ''reset'', ''--hard'', ''upstream/'' @ br]"

definition merge_upstream_changes ::
  "world \<Rightarrow> settings \<Rightarrow> string \<Rightarrow> string \<Rightarrow> ustate \<Rightarrow> string \<times> ustate" where
  "merge_upstream_changes w cfg project_path br s =
     (let auto_merge = auto_merge_conflicts cfg in
      case run_cmd w cfg (merge_cmd br) project_path s of
        ((success, out, err), s1) \<Rightarrow>
          (if success then
             (if contains ''Already up to date'' out \<or> contains ''Already up-to-date'' out
              then (''no_changes'', s1)
              else (''success'', s1))
           else if contains ''conflict'' (py_lower err)
                   \<or> contains ''unrelated histories'' (py_lower err) then
             (if \<not> auto_merge then (''failed'', s1)
              else
                try_strategies w cfg project_path [theirs_cmd br, reset_cmd br]
                  (snd (run_cmd w cfg [''git'', ''merge'', ''--abort''] project_path s1)))
           else (''failed'', s1)))"

definition push_to_origin ::
  "world \<Rightarrow> settings \<Rightarrow> string \<Rightarrow> string \<Rightarrow> bool \<Rightarrow> ustate \<Rightarrow> bool \<times> ustate" where
  "push_to_origin w cfg project_path br force s =
     (let push_cmd = [''git'', ''push''] @ (if force then [''--force-with-lease''] else [])
                     @ [''origin'', br] @ [''--tags'']
      in case run_command w cfg push_cmd project_path True (Some True) s of
           ((success, out, err), s1) \<Rightarrow>
             (if \<not> success then
                (contains ''Everything up-to-date'' err \<or> contains ''Everything up-to-date'' out,
                 s1)
              else (True, s1)))"

subsection \<open>The git stage of one project\<close>

definition log_stage :: "stage_event \<Rightarrow> ustate \<Rightarrow> ustate" where
  "log_stage e s = s\<lparr>stage_log := stage_log s @ [e]\<rparr>"

fun commit_value :: "string option \<Rightarrow> py_value" where
  "commit_value None = PNone"
| "commit_value (Some c) = PStr c"

text \<open>
  \<open>_perform_git_update\<close> is modelled in two parts that follow one another in the source:
  steps 1 to 6 (status check, backup, remotes, fetch, with their checkpoints), which
  either return early or reach the merge, and steps 7 to 11 (merge, push, final record).
  The first part returns \<open>Some\<close> of the early outcome, or \<open>None\<close> with the initial commit
  when the run goes on.  Both thread the \<open>result\<close> object, which the function mutates.
\<close>

text \<open>
  Step 2, under \<open>backup_before_update\<close>: the backup branch (kept in the result), the
  bundle, and the \<open>before_update\<close> checkpoint.
\<close>

definition backup_step ::
  "world \<Rightarrow> settings \<Rightarrow> string \<Rightarrow> string \<Rightarrow> UpdateResult \<Rightarrow> ustate \<Rightarrow> UpdateResult \<times> ustate" where
  "backup_step w cfg pname project_path result s =
     (if backup_before_update cfg then
        (case create_backup_branch w cfg project_path s of
           (bb, sa) \<Rightarrow>
             (result\<lparr>backup_branch := bb\<rparr>,
              snd (create_git_checkpoint w cfg project_path BEFORE_UPDATE []
                     (create_backup w cfg pname project_path sa))))
      else (result, s))"

definition git_update_until_merge ::
  "world \<Rightarrow> settings \<Rightarrow> (string \<times> ProjectConfig) list \<Rightarrow> string \<Rightarrow> ProjectConfig \<Rightarrow> string
   \<Rightarrow> UpdateResult \<Rightarrow> ustate
   \<Rightarrow> (py_exception + UpdateStatus) option \<times> string option \<times> UpdateResult \<times> ustate" where
  "git_update_until_merge w cfg projects pname project_config project_path result s =
     (case get_current_commit w cfg project_path s of
        (initial_commit, s0) \<Rightarrow>
     (case check_git_status w cfg project_path project_config result s0 of
        (False, result1, s1) \<Rightarrow>
          (Some (Inr FAILED), initial_commit, result1, log_stage (StageFailed ''check_status'') s1)
      | (True, result1, s1) \<Rightarrow>
          (case backup_step w cfg pname project_path result1
                  (log_stage (StageOk ''check_status'') s1) of
             (result2, s2) \<Rightarrow>
          (case setup_git_remotes w cfg projects pname s2 of
             (Inl e, s3) \<Rightarrow> (Some (Inl e), initial_commit, result2, s3)
           | (Inr False, s3) \<Rightarrow>
               (Some (Inr FAILED), initial_commit, result2,
                handle_git_failure w cfg project_path
                  (log_stage (StageFailed ''setup_remotes'') s3))
           | (Inr True, s3) \<Rightarrow>
               (case fetch_upstream_changes w cfg project_path
                       (snd (create_git_checkpoint w cfg project_path AFTER_REMOTE_SETUP []
                               (log_stage (StageOk ''setup_remotes'') s3))) of
                  (False, s5) \<Rightarrow>
                    (Some (Inr FAILED), initial_commit, result2,
                     handle_git_failure w cfg project_path
                       (log_stage (StageFailed ''fetch_upstream'') s5))
                | (True, s5) \<Rightarrow>
                    (None, initial_commit, result2,
                     snd (create_git_checkpoint w cfg project_path AFTER_FETCH []
                            (log_stage (StageOk ''fetch_upstream'') s5))))))))"

text \<open>
  \<open>self.rollback_info[project_name][...] = ...\<close> and \<open>.update(...)\<close>: a \<open>KeyError\<close> when the
  project has no entry.
\<close>

definition rollback_set ::
  "string \<Rightarrow> (string \<times> py_value) list \<Rightarrow> ustate \<Rightarrow> py_exception + ustate" where
  "rollback_set pname kvs s =
     (case rollback_info s pname of
        None \<Rightarrow> Inl (KeyError pname)
      | Some d \<Rightarrow> Inr (s\<lparr>rollback_info := (rollback_info s)(pname \<mapsto> d ++ map_of (rev kvs))\<rparr>))"

definition git_update_from_merge ::
  "world \<Rightarrow> settings \<Rightarrow> string \<Rightarrow> ProjectConfig \<Rightarrow> string \<Rightarrow> string option \<Rightarrow> ustate
   \<Rightarrow> (py_exception + UpdateStatus) \<times> ustate" where
  "git_update_from_merge w cfg pname project_config project_path initial_commit s =
     (case merge_upstream_changes w cfg project_path (branch project_config) s of
        (merge_result, s1) \<Rightarrow>
          (if merge_result = ''failed'' then
             (Inr FAILED,
              handle_git_failure w cfg project_path (log_stage (StageFailed ''merge_upstream'') s1))
           else if merge_result = ''no_changes'' then
             (case rollback_set pname [(''git_update_success'', PBool True),
                                       (''has_changes'', PBool False)]
                     (log_stage MergeNoChanges s1) of
                Inl e \<Rightarrow> (Inl e, log_stage MergeNoChanges s1)
              | Inr s2 \<Rightarrow> (Inr NO_CHANGES, s2))
           else
             (case push_to_origin w cfg project_path (branch project_config) (force_push cfg)
                     (snd (create_git_checkpoint w cfg project_path AFTER_MERGE []
                             (log_stage (StageOk ''merge_upstream'') s1))) of
                (False, s3) \<Rightarrow>
                  (Inr FAILED,
                   handle_git_failure w cfg project_path
                     (log_stage (StageFailed ''push_origin'') s3))
              | (True, s3) \<Rightarrow>
                  (case get_current_commit w cfg project_path
                          (snd (create_git_checkpoint w cfg project_path AFTER_PUSH []
                                  (log_stage (StageOk ''push_origin'') s3))) of
                     (final_commit, s5) \<Rightarrow>
                       (if final_commit \<noteq> None \<and> final_commit \<noteq> Some [] then
                          (case rollback_set pname
                                  [(''before_update_commit'', commit_value initial_commit),
                                   (''after_update_commit'', commit_value final_commit),
                                   (''git_update_success'', PBool True),
                                   (''has_changes'', PBool (initial_commit \<noteq> final_commit))]
                                  s5 of
                             Inl e \<Rightarrow> (Inl e, s5)
                           | Inr s6 \<Rightarrow> (Inr SUCCESS, s6))
                        else (Inr SUCCESS, s5))))))"

definition perform_git_update ::
  "world \<Rightarrow> settings \<Rightarrow> (string \<times> ProjectConfig) list \<Rightarrow> string \<Rightarrow> ProjectConfig \<Rightarrow> string
   \<Rightarrow> UpdateResult \<Rightarrow> ustate \<Rightarrow> (py_exception + UpdateStatus) \<times> UpdateResult \<times> ustate" where
  "perform_git_update w cfg projects pname project_config project_path result s =
     (case git_update_until_merge w cfg projects pname project_config project_path result s of
        (Some early, initial_commit, result1, s1) \<Rightarrow> (early, result1, s1)
      | (None, initial_commit, result1, s1) \<Rightarrow>
          (case git_update_from_merge w cfg pname project_config project_path initial_commit s1 of
             (outcome, s2) \<Rightarrow> (outcome, result1, s2)))"

section \<open>Notions used in the statements\<close>

text \<open>
  \<open>only_ran s s'\<close>: the step from \<open>s\<close> to \<open>s'\<close> ran subprocesses and did nothing else to
  the state: only the interaction counter and the log of invocations may differ
  (\<open>core\<close> resets both).
\<close>

definition core :: "ustate \<Rightarrow> ustate" where
  "core s = s\<lparr>tick := 0, invoked := []\<rparr>"

definition only_ran :: "ustate \<Rightarrow> ustate \<Rightarrow> bool" where
  "only_ran s s' = (core s' = core s)"

text \<open>
  The checkpoint kinds of a log, without the out-of-band kind \<open>auto_backup\<close> that the
  failure handler adds before each restore.
\<close>

definition chain :: "(string \<times> GitCheckpointType) list \<Rightarrow> GitCheckpointType list" where
  "chain xs = filter (\<lambda>k. k \<noteq> AUTO_BACKUP) (map snd xs)"

text \<open>
  The order in which \<open>_perform_git_update\<close> asks for checkpoints; the first one only
  with \<open>backup_before_update\<close>.
\<close>

definition expected_chain :: "settings \<Rightarrow> GitCheckpointType list" where
  "expected_chain cfg =
     (if backup_before_update cfg then [BEFORE_UPDATE] else [])
     @ [AFTER_REMOTE_SETUP, AFTER_FETCH, AFTER_MERGE, AFTER_PUSH]"

text \<open>
  \<open>backups_only s s'\<close>: from \<open>s\<close> to \<open>s'\<close> the checkpoint logs grew by \<open>auto_backup\<close>
  entries at most, each stored entry having been asked for, and the stage log and the
  keys of \<open>rollback_info\<close> are the same.
\<close>

definition backups_only :: "ustate \<Rightarrow> ustate \<Rightarrow> bool" where
  "backups_only s s' =
     (\<exists>as cs. attempted s' = attempted s @ as \<and> created s' = created s @ cs
        \<and> set cs \<subseteq> set as \<and> snd ` set as \<subseteq> {AUTO_BACKUP}
        \<and> stage_log s' = stage_log s \<and> rollback_info s' = rollback_info s)"

text \<open>
  \<open>grew s ks es x\<close>: from \<open>s\<close> to \<open>x\<close> the checkpoints asked for (without \<open>auto_backup\<close>)
  grew by the kinds \<open>ks\<close> and the stage log by \<open>es\<close>; every checkpoint stored since \<open>s\<close>
  was asked for; and no entry of \<open>rollback_info\<close> went away.
\<close>

definition grew :: "ustate \<Rightarrow> GitCheckpointType list \<Rightarrow> stage_event list \<Rightarrow> ustate \<Rightarrow> bool" where
  "grew s ks es x =
     (chain (attempted x) = chain (attempted s) @ ks
      \<and> stage_log x = stage_log s @ es
      \<and> set (created x) \<subseteq> set (created s) \<union> set (attempted x)
      \<and> set (attempted s) \<subseteq> set (attempted x)
      \<and> dom (rollback_info s) \<subseteq> dom (rollback_info x))"

definition pre_chain :: "settings \<Rightarrow> GitCheckpointType list" where
  "pre_chain cfg = (if backup_before_update cfg then [BEFORE_UPDATE] else [])"

section \<open>The branch head under merge and reset\<close>

text \<open>
  The updater never reads the branch head during the merge; what its git commands do to
  it is git's doing.  To speak about the head, the commands logged in \<open>invoked\<close> are
  replayed on a small model of history: a commit is known by its hash, or is the merge
  commit of two commits.  A command that failed leaves the head where it was.  A merge
  that succeeded leaves it alone when the other commit is already in its history, moves
  it to the other commit when that one continues the head (fast-forward), and makes a
  merge commit of the two otherwise.  \<open>git reset --hard\<close> that succeeded moves the head to
  the commit named.  \<open>up\<close> is the commit \<open>upstream/<branch>\<close> points to.
\<close>

datatype commit = Commit string | MergeCommit commit commit

fun reaches :: "commit \<Rightarrow> commit \<Rightarrow> bool" where
  "reaches (Commit x) c = (Commit x = c)"
| "reaches (MergeCommit a b) c = (MergeCommit a b = c \<or> reaches a c \<or> reaches b c)"

definition merged :: "commit \<Rightarrow> commit \<Rightarrow> commit" where
  "merged h up = (if reaches h up then h else if reaches up h then up else MergeCommit h up)"

definition head_step :: "string \<Rightarrow> commit \<Rightarrow> commit \<Rightarrow> string list \<times> bool \<Rightarrow> commit" where
  "head_step br up h entry =
     (if \<not> snd entry then h
      else if fst entry = reset_cmd br then up
      else if fst entry = merge_cmd br \<or> fst entry = theirs_cmd br then merged h up
      else h)"

definition head_after ::
  "string \<Rightarrow> commit \<Rightarrow> commit \<Rightarrow> (string list \<times> bool) list \<Rightarrow> commit" where
  "head_after br up h invs = foldl (head_step br up) h invs"

section \<open>Health checks of a deployment\<close>

text \<open>
  Reading the clock, sleeping and probing a port are external interactions: each
  advances the counter, and the world says what the clock reads afterwards.  The clock
  is read in whole seconds.
\<close>

definition time_now :: "world \<Rightarrow> ustate \<Rightarrow> int \<times> ustate" where
  "time_now w s = (clock w (tick s), s\<lparr>tick := Suc (tick s)\<rparr>)"

definition sleep :: "ustate \<Rightarrow> ustate" where
  "sleep s = s\<lparr>tick := Suc (tick s)\<rparr>"

definition check_port :: "world \<Rightarrow> nat \<Rightarrow> ustate \<Rightarrow> bool \<times> ustate" where
  "check_port w port s = (port_open w (tick s) port, s\<lparr>tick := Suc (tick s)\<rparr>)"

definition ps_cmd :: "settings \<Rightarrow> string list" where
  "ps_cmd cfg = docker_compose_cmd cfg @ [''ps'']"

definition ps_json_cmd :: "settings \<Rightarrow> string list" where
  "ps_json_cmd cfg = docker_compose_cmd cfg @ [''ps'', ''--format'', ''json'']"

text \<open>
  \<open>_simple_health_check\<close>.  The two regular expressions are \<open>re_running\<close> and \<open>re_exit\<close>
  of the world.  With a port configured the port is probed, and probed again after a
  pause, but the answer is \<open>True\<close> whatever the probes say.
\<close>

definition simple_health_check ::
  "world \<Rightarrow> settings \<Rightarrow> string \<Rightarrow> ProjectConfig \<Rightarrow> ustate \<Rightarrow> bool \<times> ustate" where
  "simple_health_check w cfg project_path project_config s =
     (case run_cmd w cfg (ps_cmd cfg) project_path s of
        ((success, out, err), s1) \<Rightarrow>
          (if success \<and> out \<noteq> [] \<and> re_running w out \<and> \<not> re_exit w out then
             (case docker_port project_config of
                None \<Rightarrow> (True, s1)
              | Some port \<Rightarrow>
                  (if port = 0 then (True, s1)
                   else
                     (case check_port w port s1 of
                        (True, s2) \<Rightarrow> (True, s2)
                      | (False, s2) \<Rightarrow> (True, snd (check_port w port (sleep s2))))))
           else (False, s1)))"

text \<open>
  \<open>container.get(key, '').lower()\<close> on a parsed value: an \<open>AttributeError\<close> when the
  container is not a dict (no \<open>get\<close>) or the value is not a string (no \<open>lower\<close>).  A dict
  is the list of its items.
\<close>

definition lowered_field :: "json \<Rightarrow> string \<Rightarrow> py_exception + string" where
  "lowered_field container k =
     (case container of
        JDict items \<Rightarrow>
          (case map_of items k of
             None \<Rightarrow> Inr (py_lower [])
           | Some (JStr v) \<Rightarrow> Inr (py_lower v)
           | Some _ \<Rightarrow> Inl AttributeError)
      | _ \<Rightarrow> Inl AttributeError)"

text \<open>
  The \<open>for container in containers\<close> loop of \<open>_detailed_health_check\<close>: it ends with
  \<open>return False\<close> at the first container whose state is \<open>exited\<close>, or runs through and
  leaves \<open>all_healthy\<close>.
\<close>

datatype scan_outcome = ReturnFalse | AllHealthy bool

fun scan_containers :: "json list \<Rightarrow> bool \<Rightarrow> py_exception + scan_outcome" where
  "scan_containers [] all_healthy = Inr (AllHealthy all_healthy)"
| "scan_containers (container # rest) all_healthy =
     (case lowered_field container ''State'' of
        Inl e \<Rightarrow> Inl e
      | Inr state \<Rightarrow>
          (case lowered_field container ''Health'' of
             Inl e \<Rightarrow> Inl e
           | Inr health \<Rightarrow>
               (if state = ''running'' \<and> (health = [] \<or> health = ''healthy'')
                then scan_containers rest all_healthy
                else if state = ''restarting'' then scan_containers rest False
                else if state = ''exited'' then Inr ReturnFalse
                else scan_containers rest False)))"

text \<open>
  \<open>time.sleep(interval)\<close> at the end of a pass: a \<open>ValueError\<close> for a negative interval.
\<close>

definition pause :: "ProjectConfig \<Rightarrow> ustate \<Rightarrow> (py_exception + bool) option \<times> ustate" where
  "pause project_config s =
     (if docker_health_check_interval project_config < 0 then (Some (Inl ValueError), s)
      else (None, sleep s))"

text \<open>
  One pass through the body of the \<open>while\<close> loop of \<open>_detailed_health_check\<close>.  The
  result is \<open>Some\<close> of what the function returns (or raises) in this pass, or \<open>None\<close> when
  the pass ends with the sleep and the loop goes on.
\<close>

definition health_poll ::
  "world \<Rightarrow> settings \<Rightarrow> string \<Rightarrow> ProjectConfig \<Rightarrow> ustate
   \<Rightarrow> (py_exception + bool) option \<times> ustate" where
  "health_poll w cfg project_path project_config s =
     (if shutdown_set w (tick s) then (Some (Inr False), s)
      else
        (case run_cmd w cfg (ps_json_cmd cfg) project_path s of
           ((success, out, err), s1) \<Rightarrow>
             (if \<not> success then
                (case run_cmd w cfg (ps_cmd cfg) project_path s1 of
                   ((success2, out2, err2), s2) \<Rightarrow>
                     (if success2 then
                        (case simple_health_check w cfg project_path project_config s2 of
                           (b, s3) \<Rightarrow> (Some (Inr b), s3))
                      else pause project_config s2))
              else if out \<noteq> [] then
                (case json_loads w out of
                   None \<Rightarrow>
                     (case simple_health_check w cfg project_path project_config s1 of
                        (b, s3) \<Rightarrow> (Some (Inr b), s3))
                 | Some (JList containers) \<Rightarrow>
                     (case scan_containers containers True of
                        Inl e \<Rightarrow> (Some (Inl e), s1)
                      | Inr ReturnFalse \<Rightarrow> (Some (Inr False), s1)
                      | Inr (AllHealthy True) \<Rightarrow> (Some (Inr True), s1)
                      | Inr (AllHealthy False) \<Rightarrow> pause project_config s1)
                 | Some _ \<Rightarrow> pause project_config s1)
              else pause project_config s1)))"

text \<open>
  The \<open>while time.time() - start_time < timeout\<close> loop.  Nothing forces the clock of the
  world to advance, so the loop need not end: not returning is the value \<open>None\<close>.
\<close>

partial_function (option) health_poll_loop ::
  "world \<Rightarrow> settings \<Rightarrow> string \<Rightarrow> ProjectConfig \<Rightarrow> int \<Rightarrow> ustate
   \<Rightarrow> ((py_exception + bool) \<times> ustate) option" where
  "health_poll_loop w cfg project_path project_config start s =
     (case time_now w s of
        (now, s0) \<Rightarrow>
          (if now - start < docker_health_check_timeout project_config then
             (case health_poll w cfg project_path project_config s0 of
                (Some r, s1) \<Rightarrow> Some (r, s1)
              | (None, s1) \<Rightarrow> health_poll_loop w cfg project_path project_config start s1)
           else Some (Inr False, s0)))"

definition detailed_health_check ::
  "world \<Rightarrow> settings \<Rightarrow> string \<Rightarrow> ProjectConfig \<Rightarrow> ustate
   \<Rightarrow> ((py_exception + bool) \<times> ustate) option" where
  "detailed_health_check w cfg project_path project_config s =
     (case time_now w s of
        (start, s0) \<Rightarrow> health_poll_loop w cfg project_path project_config start s0)"

text \<open>
  \<open>polled w cfg p pc s sk\<close>: in the call of \<open>_detailed_health_check\<close> made in state \<open>s\<close>,
  \<open>sk\<close> is a state in which the condition of the \<open>while\<close> loop is evaluated: the state
  after \<open>start_time\<close> was read, or the state after a pass of the loop that, begun in time
  in such a state, ended with the sleep.
\<close>

inductive polled ::
  "world \<Rightarrow> settings \<Rightarrow> string \<Rightarrow> ProjectConfig \<Rightarrow> ustate \<Rightarrow> ustate \<Rightarrow> bool"
  for w cfg project_path project_config s where
    entered: "polled w cfg project_path project_config s (snd (time_now w s))"
  | again:
      "polled w cfg project_path project_config s sk \<Longrightarrow>
       clock w (tick sk) - clock w (tick s) < docker_health_check_timeout project_config \<Longrightarrow>
       health_poll w cfg project_path project_config (snd (time_now w sk)) = (None, s2) \<Longrightarrow>
       polled w cfg project_path project_config s s2"

section \<open>Concrete inputs\<close>

text \<open>
  Concrete worlds, projects and states at which the theorems below are instantiated.
  \<open>quiet_world\<close> answers every command with return code 0 and empty output, has no
  files, never raises the shutdown flag and reads the clock as the interaction counter.
  Its \<open>md5\<close> is the identity, a stand-in without collisions (the results that use it do
  not depend on the digest function beyond that).
\<close>

definition quiet_world :: world where
  "quiet_world =
     \<lparr>subprocess = (\<lambda>t cwd cmd. Returned 0 [] []),
      shutdown_set = (\<lambda>t. False),
      file_at = (\<lambda>t p. Absent),
      cache_read_fails = (\<lambda>t. False),
      cache_write_fails = (\<lambda>t. False),
      md5 = (\<lambda>b. b),
      json_loads = (\<lambda>s. None),
      re_running = (\<lambda>s. False),
      re_exit = (\<lambda>s. False),
      port_open = (\<lambda>t p. False),
      clock = (\<lambda>t. int t),
      now_stamp = (\<lambda>t. []),
      user_confirms = (\<lambda>t. True)\<rparr>"

definition default_settings :: settings where
  "default_settings =
     \<lparr>interactive_mode = False, skip_unchanged_docker = True, backup_before_update = True,
      create_restore_points = True, push_checkpoints = False, auto_merge_conflicts = True,
      force_push = False, safe_merge_only = False, cfg_verify_docker_health = True,
      rebuild_on_config_change = True, remove_orphans = True, auto_prune = False,
      max_restart_attempts = 3, use_simple_health_check = True, prune_scope = ''project'',
      network_retry_count = 3, ssl_verify = True, enable_parallel_git = True,
      enable_parallel_docker = False, docker_compose_cmd = [''docker'', ''compose'']\<rparr>"

definition initial_state :: ustate where
  "initial_state =
     \<lparr>tick = 0, should_cancel = False, rollback_info = Map.empty,
      git_checkpoints = Map.empty, cache_files = Map.empty, invoked = [], created = [],
      attempted = [], stage_log = []\<rparr>"

definition toolbox_config :: ProjectConfig where
  "toolbox_config =
     \<lparr>path = ''/vcp/VCPToolBox'', upstream_url = ''https://example.org/up/VCPToolBox.git'',
      origin_url = ''https://example.org/me/VCPToolBox.git'', has_docker = True,
      docker_compose_file = ''docker-compose.yml'', is_git_repo = True,
      docker_health_check_timeout = 60, docker_health_check_interval = 5,
      docker_port = None, branch = ''main'', auto_stash = True, custom_commands = []\<rparr>"

definition chat_config :: ProjectConfig where
  "chat_config =
     \<lparr>path = ''/vcp/VCPChat'', upstream_url = ''https://example.org/up/VCPChat.git'',
      origin_url = ''https://example.org/me/VCPChat.git'', has_docker = False,
      docker_compose_file = ''docker-compose.yml'', is_git_repo = True,
      docker_health_check_timeout = 60, docker_health_check_interval = 5,
      docker_port = None, branch = ''main'', auto_stash = True, custom_commands = []\<rparr>"

definition fleet_projects :: "(string \<times> ProjectConfig) list" where
  "fleet_projects = [(''VCPChat'', chat_config), (''VCPToolBox'', toolbox_config)]"

text \<open>
  A world for the fingerprint: the compose file of VCPToolBox holds the single byte
  \<open>x\<close> up to interaction 0 and is empty from interaction 1 on (the byte was deleted),
  or holds \<open>y\<close> from then on in the second world (the byte was replaced).
\<close>

definition compose_world :: "string \<Rightarrow> world" where
  "compose_world later =
     quiet_world\<lparr>file_at :=
       (\<lambda>t p. if p = ''/vcp/VCPToolBox/docker-compose.yml''
               then Content (if t = 0 then ''x'' else later) else Absent)\<rparr>"

text \<open>
  A world in which the compose file of VCPToolBox always holds the byte \<open>x\<close> and the first
  write of the cache file fails; and a state whose cache holds a digest of older
  contents.
\<close>

definition flaky_cache_world :: world where
  "flaky_cache_world = (compose_world ''x'')\<lparr>cache_write_fails := (\<lambda>t. t = 0)\<rparr>"

definition stale_cache :: ustate where
  "stale_cache =
     initial_state\<lparr>cache_files := [''VCPToolBox_docker_config.hash'' \<mapsto> ''00'']\<rparr>"

text \<open>
  Worlds for the git stage.  In \<open>repo_world\<close> both project directories are git
  repositories.  In \<open>git_world n merge_out\<close> the branch has no commit until interaction
  \<open>n\<close>: \<open>git rev-parse HEAD\<close> fails before it and prints a commit hash from then on; the
  plain merge of \<open>upstream/main\<close> succeeds and prints \<open>merge_out\<close>; every other command
  succeeds and prints nothing.
\<close>

definition repo_world :: world where
  "repo_world =
     quiet_world\<lparr>file_at :=
       (\<lambda>t p. if p = ''/vcp/VCPChat/.git'' \<or> p = ''/vcp/VCPToolBox/.git''
               then Content [] else Absent)\<rparr>"

definition git_world :: "nat \<Rightarrow> string \<Rightarrow> world" where
  "git_world n merge_out =
     repo_world\<lparr>subprocess :=
       (\<lambda>t cwd cmd.
          if cmd = [''git'', ''rev-parse'', ''HEAD''] then
            (if t < n then Returned 128 [] ''fatal: ambiguous argument HEAD''
             else Returned 0 ''3f2a9c1'' [])
          else if cmd = [''git'', ''merge'', ''upstream/main'', ''--no-edit'']
          then Returned 0 merge_out []
          else Returned 0 [] [])\<rparr>"

text \<open>
  \<open>unborn_world n\<close>: a fresh clone target whose branch gets its first commit from the
  merge (the merge into an unborn branch); up to interaction \<open>n\<close> there is no \<open>HEAD\<close>.
  \<open>uptodate_world\<close>: the fork already holds every upstream commit, and the merge prints
  \<open>Already up to date.\<close>
\<close>

definition unborn_world :: "nat \<Rightarrow> world" where
  "unborn_world n = git_world n []"

definition uptodate_world :: world where
  "uptodate_world = git_world 0 ''Already up to date.''"

text \<open>
  \<open>started\<close> is the state in which \<open>update_project\<close> calls the git stage of VCPChat: it
  has just written the project's entry of \<open>rollback_info\<close>.
\<close>

definition started :: ustate where
  "started =
     initial_state\<lparr>rollback_info :=
       [''VCPChat'' \<mapsto> [''status'' \<mapsto> PStr ''in_progress'']]\<rparr>"

text \<open>
  Two runs of the git stage of VCPChat from \<open>started\<close>, under the default settings: one
  in which the branch is unborn until the merge (interaction 13 is the merge command),
  one in which the fork is up to date; and the first part of the latter, up to the merge.
\<close>

definition unborn_update :: "(py_exception + UpdateStatus) \<times> UpdateResult \<times> ustate" where
  "unborn_update =
     perform_git_update (unborn_world 13) default_settings fleet_projects ''VCPChat''
       chat_config ''/vcp/VCPChat'' (new_result ''VCPChat'' IN_PROGRESS) started"

definition uptodate_reach ::
  "(py_exception + UpdateStatus) option \<times> string option \<times> UpdateResult \<times> ustate" where
  "uptodate_reach =
     git_update_until_merge uptodate_world default_settings fleet_projects ''VCPChat''
       chat_config ''/vcp/VCPChat'' (new_result ''VCPChat'' IN_PROGRESS) started"

definition uptodate_update :: "(py_exception + UpdateStatus) \<times> UpdateResult \<times> ustate" where
  "uptodate_update =
     perform_git_update uptodate_world default_settings fleet_projects ''VCPChat''
       chat_config ''/vcp/VCPChat'' (new_result ''VCPChat'' IN_PROGRESS) started"

text \<open>
  Services as \<open>docker compose ps --format json\<close> lists them, and a world for the health
  check: the command prints \<open>out\<close>, and \<open>json.loads\<close> reads three such texts, each as a
  list of two services, the second of which has exited, is restarting, or is running.
  The clock reads the interaction counter.
\<close>

definition web_running :: json where
  "web_running = JDict [(''Service'', JStr ''web''), (''State'', JStr ''running''),
                        (''Health'', JStr ''healthy'')]"

definition db_exited :: json where
  "db_exited = JDict [(''Service'', JStr ''db''), (''State'', JStr ''exited'')]"

definition db_restarting :: json where
  "db_restarting = JDict [(''Service'', JStr ''db''), (''State'', JStr ''Restarting'')]"

definition db_running :: json where
  "db_running = JDict [(''Service'', JStr ''db''), (''State'', JStr ''running'')]"

definition ps_world :: "string \<Rightarrow> world" where
  "ps_world out =
     quiet_world\<lparr>subprocess := (\<lambda>t cwd cmd. Returned 0 out []),
       json_loads :=
         (\<lambda>s. if s = ''[web: running, db: exited]'' then Some (JList [web_running, db_exited])
              else if s = ''[web: running, db: restarting]''
              then Some (JList [web_running, db_restarting])
              else if s = ''[web: running, db: running]''
              then Some (JList [web_running, db_running])
              else None)\<rparr>"

text \<open>
  The state in which the first \<open>ps\<close> of a detailed health check from \<open>initial_state\<close>
  returns: the clock has been read twice and the command has run once.
\<close>

definition first_ps :: ustate where
  "first_ps = initial_state\<lparr>tick := 3, invoked := [(ps_json_cmd default_settings, True)]\<rparr>"

text \<open>
  Worlds in which the fork and upstream have diverged: the plain merge of
  \<open>upstream/main\<close> stops on a conflict, the merge with \<open>-X theirs\<close> ends with the return
  code \<open>theirs_rc\<close>, and every other command succeeds.  \<open>conflict_merge\<close> is the merge
  stage of VCPChat in such a world.
\<close>

definition conflict_world :: "int \<Rightarrow> world" where
  "conflict_world theirs_rc =
     repo_world\<lparr>subprocess :=
       (\<lambda>t cwd cmd.
          if cmd = [''git'', ''merge'', ''upstream/main'', ''--no-edit'']
          then Returned 1 ''Auto-merging config.env''
                 ''CONFLICT (content): Merge conflict in config.env''
          else if cmd = [''git'', ''merge'', ''upstream/main'', ''--strategy=recursive'',
                         ''-X'', ''theirs'', ''--no-edit'']
          then Returned theirs_rc [] []
          else Returned 0 [] [])\<rparr>"

definition conflict_merge :: "int \<Rightarrow> string \<times> ustate" where
  "conflict_merge theirs_rc =
     merge_upstream_changes (conflict_world theirs_rc) default_settings ''/vcp/VCPChat''
       ''main'' initial_state"

definition plain_merge :: "int \<Rightarrow> (bool \<times> string \<times> string) \<times> ustate" where
  "plain_merge theirs_rc =
     run_cmd (conflict_world theirs_rc) default_settings (merge_cmd ''main'') ''/vcp/VCPChat''
       initial_state"

section \<open>Theorems: the configuration fingerprint\<close>

lemma not_space_strip: "\<forall>c \<in> set xs. \<not> is_space c \<Longrightarrow> py_strip xs = xs"
proof -
  assume a: "\<forall>c \<in> set xs. \<not> is_space c"
  have d: "\<And>ys. \<forall>c \<in> set ys. \<not> is_space c \<Longrightarrow> dropWhile is_space ys = ys"
    by (case_tac ys) auto
  show ?thesis using a by (simp add: py_strip_def d)
qed

lemma hex_digit_not_space: "\<not> is_space (hex_digit n)"
proof -
  have "n mod 16 < length ''0123456789abcdef''" by simp
  then have "hex_digit n \<in> set ''0123456789abcdef''"
    unfolding hex_digit_def by (rule nth_mem)
  then show ?thesis by (auto simp: is_space_def)
qed

lemma strip_hexdigest: "py_strip (hexdigest d) = hexdigest d"
  by (rule not_space_strip) (auto simp: hexdigest_def hex_digit_not_space)




lemma combined_content_cong:
  "(\<forall>f. file_at w t2 f = file_at w t1 f) \<Longrightarrow>
     combined_content w t2 p c = combined_content w t1 p c"
  by (simp add: combined_content_def config_files_def file_exists_def)



lemma check_changed_saves:
  "check_docker_config_changed w projects p s = (True, s1) \<Longrightarrow>
     \<exists>pc. find_project_config projects p = Some pc \<and>
       s1 = s\<lparr>cache_files := (cache_files s)(cache_file_name p \<mapsto>
              hexdigest (md5 w (combined_content w (tick s) p (docker_compose_file pc))))\<rparr>"
  by (auto simp: check_docker_config_changed_def Let_def split: option.splits if_splits)



lemma combined_content_same:
  assumes "config_files w t2 p c = config_files w t1 p c"
      and "\<forall>f\<in>set (config_files w t1 p c). file_at w t2 (path_join p f) = file_at w t1 (path_join p f)"
  shows "combined_content w t2 p c = combined_content w t1 p c"
  using assms by (simp add: combined_content_def cong: map_cong)

lemma compose_file_same:
  assumes "\<forall>f\<in>set (config_files w t1 p c). file_at w t2 (path_join p f) = file_at w t1 (path_join p f)"
  shows "file_exists w t2 (path_join p c) = file_exists w t1 (path_join p c)"
  using assms by (simp add: config_files_def file_exists_def)


lemma check_settles:
  assumes "\<not> cache_read_fails w (tick s)" and "\<not> cache_write_fails w (tick s)"
      and "find_project_config projects p = Some pc"
      and "file_exists w (tick s) (path_join p (docker_compose_file pc))"
      and "combined_content w (tick s) p (docker_compose_file pc) \<noteq> []"
  shows "\<exists>c. cache_files (snd (check_docker_config_changed w projects p s)) (cache_file_name p)
              = Some c
           \<and> py_strip c
              = hexdigest (md5 w (combined_content w (tick s) p (docker_compose_file pc)))"
  using assms
  by (auto simp: check_docker_config_changed_def Let_def strip_hexdigest split: option.splits)

lemma check_same_stripped:
  "\<lbrakk>find_project_config projects p = Some pc;
    cache_files s (cache_file_name p) = Some c;
    py_strip c = hexdigest (md5 w (combined_content w (tick s) p (docker_compose_file pc)))\<rbrakk>
   \<Longrightarrow> \<not> fst (check_docker_config_changed w projects p s)"
  by (simp add: check_docker_config_changed_def Let_def)

lemma check_needs_content:
  assumes "find_project_config projects p = Some pc"
      and "\<not> file_exists w (tick s) (path_join p (docker_compose_file pc))
           \<or> combined_content w (tick s) p (docker_compose_file pc) = []"
  shows "\<not> fst (check_docker_config_changed w projects p s)"
  using assms by (auto simp: check_docker_config_changed_def Let_def)

lemma check_needs_project:
  "find_project_config projects p = None \<Longrightarrow> \<not> fst (check_docker_config_changed w projects p s)"
  by (simp add: check_docker_config_changed_def)




text \<open>
  Claim C10 as stated fails on its last clause.  The files never change (the compose file
  holds \<open>x\<close>); the cache holds the digest of older contents; the first invocation cannot
  write the cache file, so it reports no change and leaves the cache as it was; the second
  invocation, on the same files, reports a change.
\<close>

theorem stale_cache_second_run_counterexample:
  "file_at flaky_cache_world 0 ''/vcp/VCPToolBox/docker-compose.yml'' = Content ''x''
   \<and> file_at flaky_cache_world 1 ''/vcp/VCPToolBox/docker-compose.yml'' = Content ''x''
   \<and> \<not> fst (check_docker_config_changed flaky_cache_world fleet_projects ''/vcp/VCPToolBox''
            stale_cache)
   \<and> fst (check_docker_config_changed flaky_cache_world fleet_projects ''/vcp/VCPToolBox''
          ((snd (check_docker_config_changed flaky_cache_world fleet_projects
                   ''/vcp/VCPToolBox'' stale_cache))\<lparr>tick := 1\<rparr>))"
  by code_simp

text \<open>
  Claim C10, amended.  Let a second invocation start from the cache the first one left,
  with the same fingerprinted files, each reading as before.  (1) If the first invocation
  reports a change, it has stored the new digest in the cache.  (2) The two invocations
  never both report a change.  (3) The second invocation reports no change whenever the
  first one reported a change, or could read and write the cache file.
\<close>

theorem changed_report_overwrites_cache:
  assumes run: "check_docker_config_changed w projects p s = (r1, s1)"
      and later: "cache_files s2 = cache_files s1"
      and same: "\<forall>pc. find_project_config projects p = Some pc \<longrightarrow>
            config_files w (tick s2) p (docker_compose_file pc)
              = config_files w (tick s) p (docker_compose_file pc)
            \<and> (\<forall>f\<in>set (config_files w (tick s) p (docker_compose_file pc)).
                  file_at w (tick s2) (path_join p f) = file_at w (tick s) (path_join p f))"
  shows "(r1 \<longrightarrow> (\<exists>pc. find_project_config projects p = Some pc \<and>
            cache_files s1 (cache_file_name p)
              = Some (hexdigest (md5 w (combined_content w (tick s) p (docker_compose_file pc))))))
       \<and> \<not> (r1 \<and> fst (check_docker_config_changed w projects p s2))
       \<and> (r1 \<or> (\<not> cache_read_fails w (tick s) \<and> \<not> cache_write_fails w (tick s))
            \<longrightarrow> \<not> fst (check_docker_config_changed w projects p s2))"
proof -
  have content: "combined_content w (tick s2) p (docker_compose_file pc)
        = combined_content w (tick s) p (docker_compose_file pc)"
    and exists: "file_exists w (tick s2) (path_join p (docker_compose_file pc))
        = file_exists w (tick s) (path_join p (docker_compose_file pc))"
    if "find_project_config projects p = Some pc" for pc
  proof -
    from same that
    have l: "config_files w (tick s2) p (docker_compose_file pc)
               = config_files w (tick s) p (docker_compose_file pc)"
      and f: "\<forall>f\<in>set (config_files w (tick s) p (docker_compose_file pc)).
                  file_at w (tick s2) (path_join p f) = file_at w (tick s) (path_join p f)"
      by auto
    from l f show "combined_content w (tick s2) p (docker_compose_file pc)
        = combined_content w (tick s) p (docker_compose_file pc)"
      by (rule combined_content_same)
    from f show "file_exists w (tick s2) (path_join p (docker_compose_file pc))
        = file_exists w (tick s) (path_join p (docker_compose_file pc))"
      by (rule compose_file_same)
  qed
  have saved: "\<not> fst (check_docker_config_changed w projects p s2)"
    if pc: "find_project_config projects p = Some pc"
      and c1: "cache_files s1 (cache_file_name p) = Some c"
      and c2: "py_strip c
        = hexdigest (md5 w (combined_content w (tick s) p (docker_compose_file pc)))" for pc c
  proof -
    from c1 have "cache_files s2 (cache_file_name p) = Some c" by (simp add: later)
    moreover from c2 have "py_strip c
        = hexdigest (md5 w (combined_content w (tick s2) p (docker_compose_file pc)))"
      by (simp add: content[OF pc])
    ultimately show ?thesis using pc by (intro check_same_stripped)
  qed
  have changed: "\<exists>pc. find_project_config projects p = Some pc \<and>
            cache_files s1 (cache_file_name p)
              = Some (hexdigest (md5 w (combined_content w (tick s) p (docker_compose_file pc))))"
    if r1
  proof -
    from that run check_changed_saves[of w projects p s s1]
    obtain pc where "find_project_config projects p = Some pc"
      and "s1 = s\<lparr>cache_files := (cache_files s)(cache_file_name p \<mapsto>
              hexdigest (md5 w (combined_content w (tick s) p (docker_compose_file pc))))\<rparr>"
      by auto
    then show ?thesis by auto
  qed
  have again: "\<not> fst (check_docker_config_changed w projects p s2)" if r1
  proof -
    from changed[OF that] obtain pc where pc: "find_project_config projects p = Some pc"
      and c: "cache_files s1 (cache_file_name p)
              = Some (hexdigest (md5 w (combined_content w (tick s) p (docker_compose_file pc))))"
      by blast
    from pc c show ?thesis by (rule saved) (rule strip_hexdigest)
  qed
  have io: "\<not> fst (check_docker_config_changed w projects p s2)"
    if ok: "\<not> cache_read_fails w (tick s) \<and> \<not> cache_write_fails w (tick s)"
  proof (cases "find_project_config projects p")
    case None
    then show ?thesis by (rule check_needs_project)
  next
    case (Some pc)
    show ?thesis
    proof (cases "file_exists w (tick s) (path_join p (docker_compose_file pc))
                  \<and> combined_content w (tick s) p (docker_compose_file pc) \<noteq> []")
      case True
      with ok Some check_settles[of w s projects p pc] run
      obtain c where "cache_files s1 (cache_file_name p) = Some c"
        and "py_strip c
             = hexdigest (md5 w (combined_content w (tick s) p (docker_compose_file pc)))"
        by auto
      with Some show ?thesis by (rule saved)
    next
      case False
      with content[OF Some] exists[OF Some]
      have "\<not> file_exists w (tick s2) (path_join p (docker_compose_file pc))
           \<or> combined_content w (tick s2) p (docker_compose_file pc) = []"
        by auto
      with Some show ?thesis by (rule check_needs_content)
    qed
  qed
  from changed again io show ?thesis by blast
qed

theorem changed_report_overwrites_cache_witness:
  "fst (check_docker_config_changed (compose_world ''y'') fleet_projects ''/vcp/VCPToolBox''
          ((snd (check_docker_config_changed (compose_world ''y'') fleet_projects
                   ''/vcp/VCPToolBox'' initial_state))\<lparr>tick := 1\<rparr>))
   \<and> cache_files (snd (check_docker_config_changed (compose_world ''y'') fleet_projects
          ''/vcp/VCPToolBox''
          ((snd (check_docker_config_changed (compose_world ''y'') fleet_projects
                   ''/vcp/VCPToolBox'' initial_state))\<lparr>tick := 1\<rparr>)))
        (cache_file_name ''/vcp/VCPToolBox'') = Some ''79''
   \<and> \<not> fst (check_docker_config_changed (compose_world ''y'') fleet_projects ''/vcp/VCPToolBox''
          ((snd (check_docker_config_changed (compose_world ''y'') fleet_projects ''/vcp/VCPToolBox''
             ((snd (check_docker_config_changed (compose_world ''y'') fleet_projects
                   ''/vcp/VCPToolBox'' initial_state))\<lparr>tick := 1\<rparr>)))\<lparr>tick := 2\<rparr>))"
proof -
  let ?w = "compose_world ''y''"
  let ?p = "''/vcp/VCPToolBox''"
  let ?s = "(snd (check_docker_config_changed ?w fleet_projects ?p initial_state))\<lparr>tick := 1\<rparr>"
  let ?s1 = "snd (check_docker_config_changed ?w fleet_projects ?p ?s)"
  have r1: "fst (check_docker_config_changed ?w fleet_projects ?p ?s)" by code_simp
  then have run: "check_docker_config_changed ?w fleet_projects ?p ?s = (True, ?s1)"
    by (simp add: prod_eq_iff)
  have same: "\<forall>pc. find_project_config fleet_projects ?p = Some pc \<longrightarrow>
            config_files ?w (tick (?s1\<lparr>tick := 2\<rparr>)) ?p (docker_compose_file pc)
              = config_files ?w (tick ?s) ?p (docker_compose_file pc)
            \<and> (\<forall>f\<in>set (config_files ?w (tick ?s) ?p (docker_compose_file pc)).
                  file_at ?w (tick (?s1\<lparr>tick := 2\<rparr>)) (path_join ?p f)
                  = file_at ?w (tick ?s) (path_join ?p f))"
    by (simp add: compose_world_def quiet_world_def config_files_def file_exists_def)
  have found: "find_project_config fleet_projects ?p = Some toolbox_config" by code_simp
  have digest: "hexdigest (md5 ?w (combined_content ?w (tick ?s) ?p
                  (docker_compose_file toolbox_config))) = ''79''"
    by code_simp
  from changed_report_overwrites_cache[OF run _ same] r1 found digest show ?thesis by auto
qed

section \<open>Lemmas: what the git helpers leave unchanged\<close>

named_theorems frame
named_theorems cores

lemma only_ran_refl: "only_ran s s"
  by (simp add: only_ran_def)

lemma only_ran_trans: "only_ran s s1 \<Longrightarrow> only_ran s1 s2 \<Longrightarrow> only_ran s s2"
  by (simp add: only_ran_def)

lemma only_ran_fields:
  assumes "only_ran s s'"
  shows "attempted s' = attempted s" "created s' = created s" "stage_log s' = stage_log s"
    "rollback_info s' = rollback_info s" "git_checkpoints s' = git_checkpoints s"
    "cache_files s' = cache_files s" "should_cancel s' = should_cancel s"
proof -
  have c: "core s' = core s" using assms by (simp add: only_ran_def)
  show "attempted s' = attempted s" using arg_cong[OF c, of attempted] by (simp add: core_def)
  show "created s' = created s" using arg_cong[OF c, of created] by (simp add: core_def)
  show "stage_log s' = stage_log s" using arg_cong[OF c, of stage_log] by (simp add: core_def)
  show "rollback_info s' = rollback_info s"
    using arg_cong[OF c, of rollback_info] by (simp add: core_def)
  show "git_checkpoints s' = git_checkpoints s"
    using arg_cong[OF c, of git_checkpoints] by (simp add: core_def)
  show "cache_files s' = cache_files s" using arg_cong[OF c, of cache_files] by (simp add: core_def)
  show "should_cancel s' = should_cancel s"
    using arg_cong[OF c, of should_cancel] by (simp add: core_def)
qed

lemma subprocess_run_only: "only_ran s (snd (subprocess_run w cwd cmd s))"
  by (simp add: only_ran_def core_def subprocess_run_def Let_def)

lemmas [cores] = subprocess_run_only[unfolded only_ran_def]
lemmas [frame] = only_ran_fields[OF subprocess_run_only]

lemma run_attempts_only: "only_ran s (snd (run_attempts w cwd cmd cap retry k s))"
proof (induction k arbitrary: s)
  case 0
  then show ?case by (simp add: only_ran_refl)
next
  case (Suc k)
  have "only_ran s (snd (run_attempts w cwd cmd cap retry k (snd (subprocess_run w cwd cmd s))))"
    by (rule only_ran_trans[OF subprocess_run_only Suc.IH])
  then show ?case
    by (auto simp: Let_def split_beta only_ran_refl subprocess_run_only
             split: proc_result.splits)
qed

lemma run_command_only: "only_ran s (snd (run_command w cfg cmd cwd cap r s))"
  by (simp add: run_command_def Let_def run_attempts_only)

lemmas [cores] = run_command_only[unfolded only_ran_def]
lemmas [frame] = only_ran_fields[OF run_command_only]

lemma run_cmd_only: "only_ran s (snd (run_cmd w cfg cmd cwd s))"
  by (simp add: run_cmd_def run_command_only)

lemmas [cores] = run_cmd_only[unfolded only_ran_def]
lemmas [frame] = only_ran_fields[OF run_cmd_only]

lemma run_cmd_core: "run_cmd w cfg cmd cwd s = (r, s') \<Longrightarrow> core s' = core s"
  using run_cmd_only[of s w cfg cmd cwd] by (simp add: only_ran_def)

text \<open>
  Rules that follow the shape of a definition once its \<open>let\<close> and \<open>case\<close> on pairs,
  booleans and options are unfolded: the step relation is carried through pairs,
  conditionals and each helper, without a case split.
\<close>

named_theorems ran

lemma ran_pair [ran]: "only_ran s x \<Longrightarrow> only_ran s (snd (a, x))"
  by simp

lemma ran_if_pair [ran]:
  "only_ran s (snd p) \<Longrightarrow> only_ran s (snd q) \<Longrightarrow> only_ran s (snd (if b then p else q))"
  by simp

lemma ran_if [ran]: "only_ran s x \<Longrightarrow> only_ran s y \<Longrightarrow> only_ran s (if b then x else y)"
  by simp

lemmas [ran] = only_ran_refl

lemma ran_subprocess_run [ran]:
  "only_ran s x \<Longrightarrow> only_ran s (snd (subprocess_run w cwd cmd x))"
  by (erule only_ran_trans) (rule subprocess_run_only)

lemma ran_run_command [ran]:
  "only_ran s x \<Longrightarrow> only_ran s (snd (run_command w cfg cmd cwd cap r x))"
  by (erule only_ran_trans) (rule run_command_only)

lemma ran_run_cmd [ran]: "only_ran s x \<Longrightarrow> only_ran s (snd (run_cmd w cfg cmd cwd x))"
  by (erule only_ran_trans) (rule run_cmd_only)

lemma run_all_only: "only_ran s (run_all w cfg cwd cs s)"
proof (induction cs arbitrary: s)
  case Nil
  then show ?case by (simp add: only_ran_refl)
next
  case (Cons c cs)
  show ?case
    using only_ran_trans[OF run_cmd_only Cons.IH] by simp
qed

lemmas [cores] = run_all_only[unfolded only_ran_def]
lemmas [frame] = only_ran_fields[OF run_all_only]

lemma ran_run_all [ran]: "only_ran s x \<Longrightarrow> only_ran s (run_all w cfg cwd cs x)"
  by (erule only_ran_trans) (rule run_all_only)

lemmas shape = Let_def split_beta bool.case_eq_if option.case_eq_if

lemma get_current_commit_only: "only_ran s (snd (get_current_commit w cfg p s))"
  unfolding get_current_commit_def shape
  by (intro ran)

lemmas [cores] = get_current_commit_only[unfolded only_ran_def]
lemmas [frame] = only_ran_fields[OF get_current_commit_only]

lemma ran_get_current_commit [ran]: "only_ran s x \<Longrightarrow> only_ran s (snd (get_current_commit w cfg p x))"
  by (erule only_ran_trans) (rule get_current_commit_only)

lemma tag_checkpoint_only: "only_ran s (tag_checkpoint w cfg p n d s)"
  unfolding tag_checkpoint_def shape
  by (intro ran)

lemmas [cores] = tag_checkpoint_only[unfolded only_ran_def]
lemmas [frame] = only_ran_fields[OF tag_checkpoint_only]

lemma ran_tag_checkpoint [ran]: "only_ran s x \<Longrightarrow> only_ran s (tag_checkpoint w cfg p n d x)"
  by (erule only_ran_trans) (rule tag_checkpoint_only)

lemma create_backup_branch_only: "only_ran s (snd (create_backup_branch w cfg p s))"
  unfolding create_backup_branch_def shape
  by (intro ran)

lemmas [cores] = create_backup_branch_only[unfolded only_ran_def]
lemmas [frame] = only_ran_fields[OF create_backup_branch_only]

lemma ran_create_backup_branch [ran]: "only_ran s x \<Longrightarrow> only_ran s (snd (create_backup_branch w cfg p x))"
  by (erule only_ran_trans) (rule create_backup_branch_only)

lemma create_backup_only: "only_ran s (create_backup w cfg n p s)"
  unfolding create_backup_def shape
  by (intro ran)

lemmas [cores] = create_backup_only[unfolded only_ran_def]
lemmas [frame] = only_ran_fields[OF create_backup_only]

lemma ran_create_backup [ran]: "only_ran s x \<Longrightarrow> only_ran s (create_backup w cfg n p x)"
  by (erule only_ran_trans) (rule create_backup_only)

lemma safe_stash_changes_only: "only_ran s (snd (safe_stash_changes w cfg p s))"
  unfolding safe_stash_changes_def shape
  by (intro ran)

lemmas [cores] = safe_stash_changes_only[unfolded only_ran_def]
lemmas [frame] = only_ran_fields[OF safe_stash_changes_only]

lemma ran_safe_stash_changes [ran]: "only_ran s x \<Longrightarrow> only_ran s (snd (safe_stash_changes w cfg p x))"
  by (erule only_ran_trans) (rule safe_stash_changes_only)

lemma cleanup_old_stashes_only: "only_ran s (cleanup_old_stashes w cfg p s)"
  unfolding cleanup_old_stashes_def shape
  by (intro ran)

lemmas [cores] = cleanup_old_stashes_only[unfolded only_ran_def]
lemmas [frame] = only_ran_fields[OF cleanup_old_stashes_only]

lemma ran_cleanup_old_stashes [ran]: "only_ran s x \<Longrightarrow> only_ran s (cleanup_old_stashes w cfg p x)"
  by (erule only_ran_trans) (rule cleanup_old_stashes_only)

lemma initialize_git_repo_only: "only_ran s (snd (initialize_git_repo w cfg p s))"
  unfolding initialize_git_repo_def shape
  by (intro ran)

lemmas [cores] = initialize_git_repo_only[unfolded only_ran_def]
lemmas [frame] = only_ran_fields[OF initialize_git_repo_only]

lemma ran_initialize_git_repo [ran]: "only_ran s x \<Longrightarrow> only_ran s (snd (initialize_git_repo w cfg p x))"
  by (erule only_ran_trans) (rule initialize_git_repo_only)

lemma setup_git_remote_only: "only_ran s (snd (setup_git_remote w cfg p n u s))"
  unfolding setup_git_remote_def shape
  by (intro ran)

lemmas [cores] = setup_git_remote_only[unfolded only_ran_def]
lemmas [frame] = only_ran_fields[OF setup_git_remote_only]

lemma ran_setup_git_remote [ran]: "only_ran s x \<Longrightarrow> only_ran s (snd (setup_git_remote w cfg p n u x))"
  by (erule only_ran_trans) (rule setup_git_remote_only)

lemma setup_git_remotes_only: "only_ran s (snd (setup_git_remotes w cfg ps n s))"
  unfolding setup_git_remotes_def shape
  by (intro ran)

lemmas [cores] = setup_git_remotes_only[unfolded only_ran_def]
lemmas [frame] = only_ran_fields[OF setup_git_remotes_only]

lemma ran_setup_git_remotes [ran]: "only_ran s x \<Longrightarrow> only_ran s (snd (setup_git_remotes w cfg ps n x))"
  by (erule only_ran_trans) (rule setup_git_remotes_only)

lemma fetch_upstream_changes_only: "only_ran s (snd (fetch_upstream_changes w cfg p s))"
  unfolding fetch_upstream_changes_def configure_git_ssl_def shape
  by (intro ran)

lemmas [cores] = fetch_upstream_changes_only[unfolded only_ran_def]
lemmas [frame] = only_ran_fields[OF fetch_upstream_changes_only]

lemma ran_fetch_upstream_changes [ran]: "only_ran s x \<Longrightarrow> only_ran s (snd (fetch_upstream_changes w cfg p x))"
  by (erule only_ran_trans) (rule fetch_upstream_changes_only)

lemma try_strategies_only: "only_ran s (snd (try_strategies w cfg p cs s))"
proof (induction cs arbitrary: s)
  case Nil
  then show ?case by (simp add: only_ran_refl)
next
  case (Cons c cs)
  show ?case
    using only_ran_trans[OF run_cmd_only Cons.IH]
    by (simp add: split_beta run_cmd_only)
qed

lemmas [cores] = try_strategies_only[unfolded only_ran_def]
lemmas [frame] = only_ran_fields[OF try_strategies_only]

lemma ran_try_strategies [ran]:
  "only_ran s x \<Longrightarrow> only_ran s (snd (try_strategies w cfg p cs x))"
  by (erule only_ran_trans) (rule try_strategies_only)

lemma merge_upstream_changes_only: "only_ran s (snd (merge_upstream_changes w cfg p b s))"
  unfolding merge_upstream_changes_def shape
  by (intro ran)

lemmas [cores] = merge_upstream_changes_only[unfolded only_ran_def]
lemmas [frame] = only_ran_fields[OF merge_upstream_changes_only]

lemma ran_merge_upstream_changes [ran]: "only_ran s x \<Longrightarrow> only_ran s (snd (merge_upstream_changes w cfg p b x))"
  by (erule only_ran_trans) (rule merge_upstream_changes_only)

lemma push_to_origin_only: "only_ran s (snd (push_to_origin w cfg p b f s))"
  unfolding push_to_origin_def shape
  by (intro ran)

lemmas [cores] = push_to_origin_only[unfolded only_ran_def]
lemmas [frame] = only_ran_fields[OF push_to_origin_only]

lemma ran_push_to_origin [ran]: "only_ran s x \<Longrightarrow> only_ran s (snd (push_to_origin w cfg p b f x))"
  by (erule only_ran_trans) (rule push_to_origin_only)

lemma log_stage_fields [frame]:
  "attempted (log_stage e s) = attempted s" "created (log_stage e s) = created s"
  "stage_log (log_stage e s) = stage_log s @ [e]"
  "rollback_info (log_stage e s) = rollback_info s"
  "git_checkpoints (log_stage e s) = git_checkpoints s"
  "tick (log_stage e s) = tick s"
  by (simp_all add: log_stage_def)

lemma create_git_checkpoint_attempted [frame]:
  "attempted (snd (create_git_checkpoint w cfg p ct d s)) = attempted s @ [(path_name p, ct)]"
  by (simp add: create_git_checkpoint_def Let_def split_beta frame split: option.splits)

lemma create_git_checkpoint_same [frame]:
  "stage_log (snd (create_git_checkpoint w cfg p ct d s)) = stage_log s"
  "rollback_info (snd (create_git_checkpoint w cfg p ct d s)) = rollback_info s"
  by (simp_all add: create_git_checkpoint_def Let_def split_beta frame split: option.splits)

lemma create_git_checkpoint_created:
  "created (snd (create_git_checkpoint w cfg p ct d s)) = created s
   \<or> created (snd (create_git_checkpoint w cfg p ct d s)) = created s @ [(path_name p, ct)]"
  by (simp add: create_git_checkpoint_def Let_def split_beta frame split: option.splits)

lemma backups_only_refl: "backups_only s s"
  by (simp add: backups_only_def)

lemma backups_only_trans:
  assumes "backups_only s s1" and "backups_only s1 s2"
  shows "backups_only s s2"
proof -
  from assms(1) obtain as cs where 1: "attempted s1 = attempted s @ as"
    "created s1 = created s @ cs" "set cs \<subseteq> set as" "snd ` set as \<subseteq> {AUTO_BACKUP}"
    "stage_log s1 = stage_log s" "rollback_info s1 = rollback_info s"
    unfolding backups_only_def by blast
  from assms(2) obtain as' cs' where 2: "attempted s2 = attempted s1 @ as'"
    "created s2 = created s1 @ cs'" "set cs' \<subseteq> set as'" "snd ` set as' \<subseteq> {AUTO_BACKUP}"
    "stage_log s2 = stage_log s1" "rollback_info s2 = rollback_info s1"
    unfolding backups_only_def by blast
  show ?thesis
    unfolding backups_only_def
    apply (rule exI[of _ "as @ as'"], rule exI[of _ "cs @ cs'"])
    using 1 2 by auto
qed

lemma only_ran_backups: "only_ran s s' \<Longrightarrow> backups_only s s'"
  by (simp add: backups_only_def only_ran_fields)

lemma create_auto_backup: "backups_only s (snd (create_git_checkpoint w cfg p AUTO_BACKUP d s))"
  using create_git_checkpoint_created[of w cfg p AUTO_BACKUP d s]
  unfolding backups_only_def
  apply (rule_tac x="[(path_name p, AUTO_BACKUP)]" in exI)
  apply (erule disjE)
   apply (rule_tac x="[]" in exI, simp add: frame)
  apply (rule_tac x="[(path_name p, AUTO_BACKUP)]" in exI, simp add: frame)
  done

named_theorems bak

lemma bak_pair [bak]: "backups_only s x \<Longrightarrow> backups_only s (snd (a, x))"
  by simp

lemma bak_if_pair [bak]:
  "backups_only s (snd p) \<Longrightarrow> backups_only s (snd q)
   \<Longrightarrow> backups_only s (snd (if b then p else q))"
  by simp

lemma bak_if [bak]:
  "backups_only s x \<Longrightarrow> backups_only s y \<Longrightarrow> backups_only s (if b then x else y)"
  by simp

lemmas [bak] = backups_only_refl

lemma bak_run_cmd [bak]: "backups_only s x \<Longrightarrow> backups_only s (snd (run_cmd w cfg cmd cwd x))"
  by (erule backups_only_trans) (rule only_ran_backups[OF run_cmd_only])

lemma bak_run_all [bak]: "backups_only s x \<Longrightarrow> backups_only s (run_all w cfg cwd cs x)"
  by (erule backups_only_trans) (rule only_ran_backups[OF run_all_only])

lemma bak_auto_backup [bak]:
  "backups_only s x \<Longrightarrow> backups_only s (snd (create_git_checkpoint w cfg p AUTO_BACKUP d x))"
  by (erule backups_only_trans) (rule create_auto_backup)

lemma restore_git_checkpoint_backups:
  "backups_only s (snd (restore_git_checkpoint w cfg p c s))"
  unfolding restore_git_checkpoint_def shape
  by (intro bak)

lemma restore_first_backups: "backups_only s (restore_first w cfg p cs s)"
proof (induction cs arbitrary: s)
  case Nil
  then show ?case by (simp add: backups_only_refl)
next
  case (Cons c cs)
  show ?case
    using restore_git_checkpoint_backups[of s w cfg p c]
          Cons.IH[of "snd (restore_git_checkpoint w cfg p c s)"]
    by (auto simp: split_beta bool.case_eq_if intro: backups_only_trans)
qed

lemma handle_git_failure_backups: "backups_only s (handle_git_failure w cfg p s)"
  unfolding handle_git_failure_def
  by (rule backups_only_trans[OF only_ran_backups[OF run_all_only] restore_first_backups])

lemma chain_append [simp]: "chain (xs @ ys) = chain xs @ chain ys"
  by (simp add: chain_def)

lemma chain_single [simp]: "chain [(p, k)] = (if k = AUTO_BACKUP then [] else [k])"
  by (simp add: chain_def)

lemma chain_Nil [simp]: "chain [] = []"
  by (simp add: chain_def)

lemma backups_only_chain:
  "backups_only s s' \<Longrightarrow>
     chain (attempted s') = chain (attempted s) \<and> stage_log s' = stage_log s
     \<and> rollback_info s' = rollback_info s"
  unfolding backups_only_def
  by (auto simp: chain_def filter_empty_conv image_subset_iff)

lemmas handle_git_failure_chain [frame] =
  backups_only_chain[OF handle_git_failure_backups]

lemma check_git_status_logs [frame]:
  "attempted (snd (snd (check_git_status w cfg p pc r s))) = attempted s"
  "created (snd (snd (check_git_status w cfg p pc r s))) = created s"
  "stage_log (snd (snd (check_git_status w cfg p pc r s))) = stage_log s"
  by (simp_all add: check_git_status_def Let_def split_beta frame split: option.splits)

section \<open>Lemmas: the logs of one git stage\<close>

lemma grew_refl: "grew s [] [] s"
  by (auto simp: grew_def)

lemma grew_ran: "grew s ks es x \<Longrightarrow> only_ran x y \<Longrightarrow> grew s ks es y"
  by (simp add: grew_def only_ran_fields)

lemma grew_bak: "grew s ks es x \<Longrightarrow> backups_only x y \<Longrightarrow> grew s ks es y"
  unfolding grew_def backups_only_def
  by (auto simp: chain_def filter_empty_conv image_subset_iff)

lemma grew_log: "grew s ks es x \<Longrightarrow> grew s ks (es @ [e]) (log_stage e x)"
  by (simp add: grew_def frame)

lemma grew_cgc:
  "grew s ks es x \<Longrightarrow> ct \<noteq> AUTO_BACKUP
   \<Longrightarrow> grew s (ks @ [ct]) es (snd (create_git_checkpoint w cfg p ct d x))"
  using create_git_checkpoint_created[of w cfg p ct d x]
  by (auto simp: grew_def frame)

lemma check_git_status_dom:
  "dom (rollback_info s) \<subseteq> dom (rollback_info (snd (snd (check_git_status w cfg p pc r s))))"
  unfolding check_git_status_def shape
  by (auto simp: frame split: if_splits)

lemma grew_check:
  "grew s ks es x \<Longrightarrow> grew s ks es (snd (snd (check_git_status w cfg p pc r x)))"
  using check_git_status_dom[of x w cfg p pc r]
  unfolding grew_def by (simp add: frame) blast

lemma grew_rollback_set:
  "grew s ks es x \<Longrightarrow> rollback_set pn kvs x = Inr y \<Longrightarrow> grew s ks es y"
  by (auto simp: grew_def rollback_set_def split: option.splits)

lemma grew_backup_step:
  "grew s ks es x \<Longrightarrow> grew s (ks @ pre_chain cfg) es (snd (backup_step w cfg pn p r x))"
proof (cases "backup_before_update cfg")
  case False
  assume "grew s ks es x"
  with False show ?thesis by (simp add: backup_step_def pre_chain_def)
next
  case True
  assume g: "grew s ks es x"
  have "grew s ks es (create_backup w cfg pn p (snd (create_backup_branch w cfg p x)))"
    by (rule grew_ran[OF grew_ran[OF g create_backup_branch_only] create_backup_only])
  from grew_cgc[OF this, of BEFORE_UPDATE] True show ?thesis
    by (simp add: backup_step_def pre_chain_def split_beta)
qed
lemma until_merge_cases:
  assumes run: "git_update_until_merge w cfg projects pname pc p r s = (e, ic, r', s')"
  shows "(e = Some (Inr FAILED) \<and> grew s [] [StageFailed ''check_status''] s')
       \<or> ((\<exists>x. e = Some (Inl x)) \<and> grew s (pre_chain cfg) [StageOk ''check_status''] s')
       \<or> (e = Some (Inr FAILED)
            \<and> grew s (pre_chain cfg) [StageOk ''check_status'', StageFailed ''setup_remotes''] s')
       \<or> (e = Some (Inr FAILED)
            \<and> grew s (pre_chain cfg @ [AFTER_REMOTE_SETUP])
                 [StageOk ''check_status'', StageOk ''setup_remotes'',
                  StageFailed ''fetch_upstream''] s')
       \<or> (e = None
            \<and> grew s (pre_chain cfg @ [AFTER_REMOTE_SETUP, AFTER_FETCH])
                 [StageOk ''check_status'', StageOk ''setup_remotes'',
                  StageOk ''fetch_upstream''] s')"
proof -
  obtain ic0 s0 where g: "get_current_commit w cfg p s = (ic0, s0)"
    by (cases "get_current_commit w cfg p s")
  obtain ok r1 s1 where c: "check_git_status w cfg p pc r s0 = (ok, r1, s1)"
    by (cases "check_git_status w cfg p pc r s0")
  have g0: "grew s [] [] s0"
    using grew_ran[OF grew_refl get_current_commit_only, of s w cfg p] g by simp
  have g1: "grew s [] [] s1"
    using grew_check[OF g0, of w cfg p pc r] c by simp
  show ?thesis
  proof (cases ok)
    case False
    with g c have "git_update_until_merge w cfg projects pname pc p r s
        = (Some (Inr FAILED), ic0, r1, log_stage (StageFailed ''check_status'') s1)"
      by (simp add: git_update_until_merge_def)
    with run have "e = Some (Inr FAILED)" "s' = log_stage (StageFailed ''check_status'') s1"
      by simp_all
    then show ?thesis using grew_log[OF g1, of "StageFailed ''check_status''"] by simp
  next
    case True
    let ?l1 = "log_stage (StageOk ''check_status'') s1"
    obtain r2 s2 where b: "backup_step w cfg pname p r1 ?l1 = (r2, s2)"
      by (cases "backup_step w cfg pname p r1 ?l1")
    have g2: "grew s (pre_chain cfg) [StageOk ''check_status''] s2"
      using grew_backup_step[OF grew_log[OF g1, of "StageOk ''check_status''"], of cfg w pname p r1]
            b by simp
    obtain o3 s3 where st: "setup_git_remotes w cfg projects pname s2 = (o3, s3)"
      by (cases "setup_git_remotes w cfg projects pname s2")
    have g3: "grew s (pre_chain cfg) [StageOk ''check_status''] s3"
      using grew_ran[OF g2 setup_git_remotes_only, of w cfg projects pname] st by simp
    show ?thesis
    proof (cases o3)
      case (Inl x)
      with g c True b st have "git_update_until_merge w cfg projects pname pc p r s
          = (Some (Inl x), ic0, r2, s3)"
        by (simp add: git_update_until_merge_def)
      with run have "e = Some (Inl x)" "s' = s3" by simp_all
      then show ?thesis using g3 by blast
    next
      case (Inr ok3)
      show ?thesis
      proof (cases ok3)
        case False
        let ?l3 = "log_stage (StageFailed ''setup_remotes'') s3"
        from g c True b st Inr False
        have "git_update_until_merge w cfg projects pname pc p r s
            = (Some (Inr FAILED), ic0, r2, handle_git_failure w cfg p ?l3)"
          by (simp add: git_update_until_merge_def)
        with run have "e = Some (Inr FAILED)" "s' = handle_git_failure w cfg p ?l3"
          by simp_all
        then show ?thesis
          using grew_bak[OF grew_log[OF g3, of "StageFailed ''setup_remotes''"]
                  handle_git_failure_backups, of w cfg p]
          by simp
      next
        case ok3: True
        let ?s4 = "snd (create_git_checkpoint w cfg p AFTER_REMOTE_SETUP []
                          (log_stage (StageOk ''setup_remotes'') s3))"
        have g4: "grew s (pre_chain cfg @ [AFTER_REMOTE_SETUP])
                    [StageOk ''check_status'', StageOk ''setup_remotes''] ?s4"
          using grew_cgc[OF grew_log[OF g3, of "StageOk ''setup_remotes''"],
                  of AFTER_REMOTE_SETUP w cfg p "[]"]
          by simp
        obtain ok5 s5 where f: "fetch_upstream_changes w cfg p ?s4 = (ok5, s5)"
          by (cases "fetch_upstream_changes w cfg p ?s4")
        have g5: "grew s (pre_chain cfg @ [AFTER_REMOTE_SETUP])
                    [StageOk ''check_status'', StageOk ''setup_remotes''] s5"
          using grew_ran[OF g4 fetch_upstream_changes_only, of w cfg p] f by simp
        show ?thesis
        proof (cases ok5)
          case False
          let ?l5 = "log_stage (StageFailed ''fetch_upstream'') s5"
          from g c True b st Inr ok3 f False
          have "git_update_until_merge w cfg projects pname pc p r s
              = (Some (Inr FAILED), ic0, r2, handle_git_failure w cfg p ?l5)"
            by (simp add: git_update_until_merge_def)
          with run have "e = Some (Inr FAILED)" "s' = handle_git_failure w cfg p ?l5"
            by simp_all
          then show ?thesis
            using grew_bak[OF grew_log[OF g5, of "StageFailed ''fetch_upstream''"]
                    handle_git_failure_backups, of w cfg p]
            by simp
        next
          case ok5: True
          let ?s6 = "snd (create_git_checkpoint w cfg p AFTER_FETCH []
                            (log_stage (StageOk ''fetch_upstream'') s5))"
          from g c True b st Inr ok3 f ok5
          have "git_update_until_merge w cfg projects pname pc p r s = (None, ic0, r2, ?s6)"
            by (simp add: git_update_until_merge_def)
          with run have "e = None" "s' = ?s6" by simp_all
          then show ?thesis
            using grew_cgc[OF grew_log[OF g5, of "StageOk ''fetch_upstream''"],
                    of AFTER_FETCH w cfg p "[]"]
            by simp
        qed
      qed
    qed
  qed
qed
lemma rollback_set_Inl:
  "rollback_set pn kvs s = Inl e \<Longrightarrow> e = KeyError pn \<and> pn \<notin> dom (rollback_info s)"
  by (auto simp: rollback_set_def split: option.splits)

lemma rollback_set_total:
  "pn \<in> dom (rollback_info s) \<Longrightarrow> \<exists>s'. rollback_set pn kvs s = Inr s'"
  by (auto simp: rollback_set_def split: option.splits)

lemma from_merge_cases:
  assumes run: "git_update_from_merge w cfg pname pc p ic s = (out, s')"
  shows "(out = Inr FAILED \<and> grew s [] [StageFailed ''merge_upstream''] s')
       \<or> (fst (merge_upstream_changes w cfg p (branch pc) s) = ''no_changes''
            \<and> (out = Inr NO_CHANGES \<or> out = Inl (KeyError pname))
            \<and> grew s [] [MergeNoChanges] s')
       \<or> (out = Inr FAILED
            \<and> grew s [AFTER_MERGE] [StageOk ''merge_upstream'', StageFailed ''push_origin''] s')
       \<or> ((out = Inr SUCCESS \<or> out = Inl (KeyError pname))
            \<and> grew s [AFTER_MERGE, AFTER_PUSH]
                 [StageOk ''merge_upstream'', StageOk ''push_origin''] s')"
proof -
  obtain mr s1 where m: "merge_upstream_changes w cfg p (branch pc) s = (mr, s1)"
    by (cases "merge_upstream_changes w cfg p (branch pc) s")
  have g1: "grew s [] [] s1"
    using grew_ran[OF grew_refl merge_upstream_changes_only, of s w cfg p "branch pc"] m by simp
  show ?thesis
  proof (cases "mr = ''failed''")
    case True
    let ?l = "log_stage (StageFailed ''merge_upstream'') s1"
    from m True have "git_update_from_merge w cfg pname pc p ic s
        = (Inr FAILED, handle_git_failure w cfg p ?l)"
      by (simp add: git_update_from_merge_def)
    with run have "out = Inr FAILED" "s' = handle_git_failure w cfg p ?l" by simp_all
    then show ?thesis
      using grew_bak[OF grew_log[OF g1, of "StageFailed ''merge_upstream''"]
              handle_git_failure_backups, of w cfg p]
      by simp
  next
    case nf: False
    show ?thesis
    proof (cases "mr = ''no_changes''")
      case True
      let ?l = "log_stage MergeNoChanges s1"
      let ?kvs = "[(''git_update_success'', PBool True), (''has_changes'', PBool False)]"
      have gl: "grew s [] [MergeNoChanges] ?l" using grew_log[OF g1, of MergeNoChanges] by simp
      from m True have eq: "git_update_from_merge w cfg pname pc p ic s
          = (case rollback_set pname ?kvs ?l of
               Inl e \<Rightarrow> (Inl e, ?l) | Inr s2 \<Rightarrow> (Inr NO_CHANGES, s2))"
        by (simp add: git_update_from_merge_def)
      show ?thesis
      proof (cases "rollback_set pname ?kvs ?l")
        case (Inl e)
        with eq run rollback_set_Inl[OF Inl] have "out = Inl (KeyError pname)" "s' = ?l"
          by simp_all
        with gl m True show ?thesis by simp
      next
        case (Inr s2)
        with eq run have "out = Inr NO_CHANGES" "s' = s2" by simp_all
        with grew_rollback_set[OF gl Inr] m True show ?thesis by simp
      qed
    next
      case nn: False
      let ?s2 = "snd (create_git_checkpoint w cfg p AFTER_MERGE []
                        (log_stage (StageOk ''merge_upstream'') s1))"
      have g2: "grew s [AFTER_MERGE] [StageOk ''merge_upstream''] ?s2"
        using grew_cgc[OF grew_log[OF g1, of "StageOk ''merge_upstream''"],
                of AFTER_MERGE w cfg p "[]"]
        by simp
      obtain okp s3 where pu: "push_to_origin w cfg p (branch pc) (force_push cfg) ?s2 = (okp, s3)"
        by (cases "push_to_origin w cfg p (branch pc) (force_push cfg) ?s2")
      have g3: "grew s [AFTER_MERGE] [StageOk ''merge_upstream''] s3"
        using grew_ran[OF g2 push_to_origin_only, of w cfg p "branch pc" "force_push cfg"] pu
        by simp
      show ?thesis
      proof (cases okp)
        case False
        let ?l = "log_stage (StageFailed ''push_origin'') s3"
        from m nf nn pu False have "git_update_from_merge w cfg pname pc p ic s
            = (Inr FAILED, handle_git_failure w cfg p ?l)"
          by (simp add: git_update_from_merge_def)
        with run have "out = Inr FAILED" "s' = handle_git_failure w cfg p ?l" by simp_all
        then show ?thesis
          using grew_bak[OF grew_log[OF g3, of "StageFailed ''push_origin''"]
                  handle_git_failure_backups, of w cfg p]
          by simp
      next
        case True
        let ?s4 = "snd (create_git_checkpoint w cfg p AFTER_PUSH []
                          (log_stage (StageOk ''push_origin'') s3))"
        have g4: "grew s [AFTER_MERGE, AFTER_PUSH]
                    [StageOk ''merge_upstream'', StageOk ''push_origin''] ?s4"
          using grew_cgc[OF grew_log[OF g3, of "StageOk ''push_origin''"],
                  of AFTER_PUSH w cfg p "[]"]
          by simp
        obtain fc s5 where gc: "get_current_commit w cfg p ?s4 = (fc, s5)"
          by (cases "get_current_commit w cfg p ?s4")
        have g5: "grew s [AFTER_MERGE, AFTER_PUSH]
                    [StageOk ''merge_upstream'', StageOk ''push_origin''] s5"
          using grew_ran[OF g4 get_current_commit_only, of w cfg p] gc by simp
        let ?kvs = "[(''before_update_commit'', commit_value ic),
                     (''after_update_commit'', commit_value fc),
                     (''git_update_success'', PBool True),
                     (''has_changes'', PBool (ic \<noteq> fc))]"
        from m nf nn pu True gc have eq: "git_update_from_merge w cfg pname pc p ic s
            = (if fc \<noteq> None \<and> fc \<noteq> Some [] then
                 (case rollback_set pname ?kvs s5 of
                    Inl e \<Rightarrow> (Inl e, s5) | Inr s6 \<Rightarrow> (Inr SUCCESS, s6))
               else (Inr SUCCESS, s5))"
          by (simp add: git_update_from_merge_def)
        show ?thesis
        proof (cases "fc \<noteq> None \<and> fc \<noteq> Some []")
          case False
          with eq run have "out = Inr SUCCESS" "s' = s5" by auto
          with g5 show ?thesis by simp
        next
          case tr: True
          show ?thesis
          proof (cases "rollback_set pname ?kvs s5")
            case (Inl e)
            with eq run tr rollback_set_Inl[OF Inl] have "out = Inl (KeyError pname)" "s' = s5"
              by simp_all
            with g5 show ?thesis by simp
          next
            case (Inr s6)
            with eq run tr have "out = Inr SUCCESS" "s' = s6" by simp_all
            with grew_rollback_set[OF g5 Inr] show ?thesis by simp
          qed
        qed
      qed
    qed
  qed
qed

lemma from_merge_no_changes:
  assumes m: "fst (merge_upstream_changes w cfg p (branch pc) s) = ''no_changes''"
      and key: "pname \<in> dom (rollback_info s)"
  shows "fst (git_update_from_merge w cfg pname pc p ic s) = Inr NO_CHANGES
       \<and> grew s [] [MergeNoChanges] (snd (git_update_from_merge w cfg pname pc p ic s))"
proof -
  obtain mr s1 where m1: "merge_upstream_changes w cfg p (branch pc) s = (mr, s1)"
    by (cases "merge_upstream_changes w cfg p (branch pc) s")
  with m have mr: "mr = ''no_changes''" by simp
  let ?l = "log_stage MergeNoChanges s1"
  let ?kvs = "[(''git_update_success'', PBool True), (''has_changes'', PBool False)]"
  have g1: "grew s [] [] s1"
    using grew_ran[OF grew_refl merge_upstream_changes_only, of s w cfg p "branch pc"] m1 by simp
  have "only_ran s s1" using merge_upstream_changes_only[of s w cfg p "branch pc"] m1 by simp
  then have "rollback_info ?l = rollback_info s" by (simp add: frame only_ran_fields)
  with key have "pname \<in> dom (rollback_info ?l)" by simp
  from rollback_set_total[OF this, of ?kvs] obtain s2 where s2: "rollback_set pname ?kvs ?l = Inr s2"
    by blast
  from grew_log[OF g1, of MergeNoChanges] have gl: "grew s [] [MergeNoChanges] ?l"
    by simp
  from m1 mr s2 have "git_update_from_merge w cfg pname pc p ic s = (Inr NO_CHANGES, s2)"
    by (simp add: git_update_from_merge_def)
  with grew_rollback_set[OF gl s2] show ?thesis by simp
qed

lemma merge_reports_up_to_date:
  assumes "run_cmd w cfg (merge_cmd br) p s = ((True, out, err), s1)"
      and "contains ''Already up to date'' out \<or> contains ''Already up-to-date'' out"
  shows "merge_upstream_changes w cfg p br s = (''no_changes'', s1)"
  using assms by (simp add: merge_upstream_changes_def)

lemma grew_trans:
  "grew s ks es x \<Longrightarrow> grew x ks' es' y \<Longrightarrow> grew s (ks @ ks') (es @ es') y"
  unfolding grew_def by (auto dest: subsetD) (blast dest: subsetD)+

lemma chain_mem: "k \<noteq> AUTO_BACKUP \<Longrightarrow> k \<in> set (chain xs) \<longleftrightarrow> k \<in> snd ` set xs"
  by (auto simp: chain_def)

lemma chain_prefix:
  "\<exists>n. pre_chain cfg @ take k [AFTER_REMOTE_SETUP, AFTER_FETCH, AFTER_MERGE, AFTER_PUSH]
        = take n (expected_chain cfg)"
  by (rule exI[of _ "length (pre_chain cfg) + k"]) (simp add: expected_chain_def pre_chain_def)

lemma perform_cases:
  assumes run: "perform_git_update w cfg projects pname pc p r s = (out, r', s')"
  shows "grew s [] [StageFailed ''check_status''] s'
       \<or> grew s (pre_chain cfg) [StageOk ''check_status''] s'
       \<or> grew s (pre_chain cfg) [StageOk ''check_status'', StageFailed ''setup_remotes''] s'
       \<or> grew s (pre_chain cfg @ [AFTER_REMOTE_SETUP])
            [StageOk ''check_status'', StageOk ''setup_remotes'', StageFailed ''fetch_upstream''] s'
       \<or> grew s (pre_chain cfg @ [AFTER_REMOTE_SETUP, AFTER_FETCH])
            [StageOk ''check_status'', StageOk ''setup_remotes'', StageOk ''fetch_upstream'',
             StageFailed ''merge_upstream''] s'
       \<or> grew s (pre_chain cfg @ [AFTER_REMOTE_SETUP, AFTER_FETCH])
            [StageOk ''check_status'', StageOk ''setup_remotes'', StageOk ''fetch_upstream'',
             MergeNoChanges] s'
       \<or> grew s (pre_chain cfg @ [AFTER_REMOTE_SETUP, AFTER_FETCH, AFTER_MERGE])
            [StageOk ''check_status'', StageOk ''setup_remotes'', StageOk ''fetch_upstream'',
             StageOk ''merge_upstream'', StageFailed ''push_origin''] s'
       \<or> grew s (pre_chain cfg @ [AFTER_REMOTE_SETUP, AFTER_FETCH, AFTER_MERGE, AFTER_PUSH])
            [StageOk ''check_status'', StageOk ''setup_remotes'', StageOk ''fetch_upstream'',
             StageOk ''merge_upstream'', StageOk ''push_origin''] s'"
proof -
  obtain e ic r1 s1 where u: "git_update_until_merge w cfg projects pname pc p r s = (e, ic, r1, s1)"
    by (cases "git_update_until_merge w cfg projects pname pc p r s")
  show ?thesis
  proof (cases e)
    case (Some early)
    with u run have "s' = s1" by (simp add: perform_git_update_def)
    with until_merge_cases[OF u] Some show ?thesis by auto
  next
    case None
    obtain o2 s2 where f: "git_update_from_merge w cfg pname pc p ic s1 = (o2, s2)"
      by (cases "git_update_from_merge w cfg pname pc p ic s1")
    with u None run have s': "s' = s2" by (simp add: perform_git_update_def)
    from until_merge_cases[OF u] None
    have g: "grew s (pre_chain cfg @ [AFTER_REMOTE_SETUP, AFTER_FETCH])
               [StageOk ''check_status'', StageOk ''setup_remotes'', StageOk ''fetch_upstream''] s1"
      by auto
    from from_merge_cases[OF f] show ?thesis
      using grew_trans[OF g, of "[]" "[StageFailed ''merge_upstream'']" s2]
            grew_trans[OF g, of "[]" "[MergeNoChanges]" s2]
            grew_trans[OF g, of "[AFTER_MERGE]"
              "[StageOk ''merge_upstream'', StageFailed ''push_origin'']" s2]
            grew_trans[OF g, of "[AFTER_MERGE, AFTER_PUSH]"
              "[StageOk ''merge_upstream'', StageOk ''push_origin'']" s2]
      unfolding s' by auto
  qed
qed


section \<open>Two concrete runs of the git stage\<close>

text \<open>
  The commands of \<open>git_world\<close> under the default settings, in closed form: every command
  but \<open>git rev-parse HEAD\<close> succeeds at its first attempt.
\<close>

lemma git_world_fields:
  "subprocess (git_world n m) t cwd cmd =
     (if cmd = [''git'', ''rev-parse'', ''HEAD''] then
        (if t < n then Returned 128 [] ''fatal: ambiguous argument HEAD''
         else Returned 0 ''3f2a9c1'' [])
      else if cmd = [''git'', ''merge'', ''upstream/main'', ''--no-edit'']
      then Returned 0 m []
      else Returned 0 [] [])"
  "shutdown_set (git_world n m) t = False"
  "file_at (git_world n m) t p =
     (if p = ''/vcp/VCPChat/.git'' \<or> p = ''/vcp/VCPToolBox/.git'' then Content [] else Absent)"
  "now_stamp (git_world n m) t = []"
  by (simp_all add: git_world_def repo_world_def quiet_world_def)

lemma default_fields:
  "backup_before_update default_settings = True"
  "create_restore_points default_settings = True"
  "push_checkpoints default_settings = False"
  "auto_merge_conflicts default_settings = True"
  "force_push default_settings = False"
  "safe_merge_only default_settings = False"
  "network_retry_count default_settings = Suc (Suc (Suc 0))"
  "ssl_verify default_settings = True"
  by (simp_all add: default_settings_def)

lemma chat_fields:
  "path chat_config = ''/vcp/VCPChat''"
  "upstream_url chat_config = ''https://example.org/up/VCPChat.git''"
  "origin_url chat_config = ''https://example.org/me/VCPChat.git''"
  "is_git_repo chat_config = True"
  "branch chat_config = ''main''"
  "auto_stash chat_config = True"
  "map_of fleet_projects ''VCPChat'' = Some chat_config"
  by (simp_all add: chat_config_def fleet_projects_def)

lemma strip_plain:
  "py_strip [] = []"
  "py_strip ''3f2a9c1'' = ''3f2a9c1''"
  "py_strip ''fatal: ambiguous argument HEAD'' = ''fatal: ambiguous argument HEAD''"
  "py_strip ''Already up to date.'' = ''Already up to date.''"
  by (simp_all add: py_strip_def is_space_def)

lemma git_world_run_command:
  assumes "cmd \<noteq> [''git'', ''rev-parse'', ''HEAD'']"
  shows "run_command (git_world n m) default_settings cmd cwd True rt s =
     ((True, if cmd = [''git'', ''merge'', ''upstream/main'', ''--no-edit''] then py_strip m else [],
       []),
      s\<lparr>tick := Suc (tick s), invoked := invoked s @ [(cmd, True)]\<rparr>)"
proof -
  have "\<exists>k. (if (case rt of None \<Rightarrow> list_ex (\<lambda>c. contains c (join_sp cmd))
                               [''fetch'', ''push'', ''pull'', ''clone''] | Some b \<Rightarrow> b)
        then network_retry_count default_settings else 1) = Suc k"
    by (simp add: default_fields)
  then obtain k where "(if (case rt of None \<Rightarrow> list_ex (\<lambda>c. contains c (join_sp cmd))
                               [''fetch'', ''push'', ''pull'', ''clone''] | Some b \<Rightarrow> b)
        then network_retry_count default_settings else 1) = Suc k" ..
  with assms show ?thesis
    by (simp add: run_command_def subprocess_run_def git_world_fields strip_plain
          del: One_nat_def)
qed

lemma git_world_rev_parse:
  "run_cmd (git_world n m) default_settings [''git'', ''rev-parse'', ''HEAD''] cwd s =
     (if tick s < n
      then ((False, [], ''fatal: ambiguous argument HEAD''),
            s\<lparr>tick := Suc (tick s),
              invoked := invoked s @ [([''git'', ''rev-parse'', ''HEAD''], False)]\<rparr>)
      else ((True, ''3f2a9c1'', []),
            s\<lparr>tick := Suc (tick s),
              invoked := invoked s @ [([''git'', ''rev-parse'', ''HEAD''], True)]\<rparr>))"
  by (simp add: run_cmd_def run_command_def subprocess_run_def git_world_fields strip_plain)

lemma git_world_run_cmd:
  "cmd \<noteq> [''git'', ''rev-parse'', ''HEAD''] \<Longrightarrow>
   run_cmd (git_world n m) default_settings cmd cwd s =
     ((True, if cmd = [''git'', ''merge'', ''upstream/main'', ''--no-edit''] then py_strip m else [],
       []),
      s\<lparr>tick := Suc (tick s), invoked := invoked s @ [(cmd, True)]\<rparr>)"
  by (simp add: run_cmd_def git_world_run_command)

lemma git_world_get_current_commit:
  "get_current_commit (git_world n m) default_settings p s =
     (if tick s < n then None else Some ''3f2a9c1'',
      s\<lparr>tick := Suc (tick s),
        invoked := invoked s @ [([''git'', ''rev-parse'', ''HEAD''], \<not> tick s < n)]\<rparr>)"
  by (simp add: get_current_commit_def git_world_rev_parse strip_plain)

text \<open>A request for a checkpoint before the first commit stores nothing.\<close>

lemma git_world_checkpoint_none:
  "tick s < n \<Longrightarrow>
   create_git_checkpoint (git_world n m) default_settings p k d s =
     (None, s\<lparr>tick := Suc (tick s),
               invoked := invoked s @ [([''git'', ''rev-parse'', ''HEAD''], False)],
               attempted := attempted s @ [(path_name p, k)]\<rparr>)"
  by (simp add: create_git_checkpoint_def git_world_get_current_commit)

lemma git_world_checkpoint_some:
  "\<not> tick s < n \<Longrightarrow>
   create_git_checkpoint (git_world n m) default_settings p k [] s =
     (Some ''3f2a9c1'',
      s\<lparr>tick := Suc (Suc (Suc (Suc (tick s)))),
        invoked := invoked s @ [([''git'', ''rev-parse'', ''HEAD''], True),
           ([''git'', ''branch'', ''--show-current''], True),
           ([''git'', ''status'', ''--porcelain''], True),
           ([''git'', ''tag'', ''-a'', ''vcp-checkpoint-'' @ checkpoint_value k @ ''-'', ''-m'',
             ''VCP checkpoint: '' @ checkpoint_value k], True)],
        attempted := attempted s @ [(path_name p, k)],
        git_checkpoints := (git_checkpoints s)(path_name p \<mapsto>
           (case git_checkpoints s (path_name p) of None \<Rightarrow> Map.empty | Some m \<Rightarrow> m)
             (checkpoint_value k \<mapsto>
                \<lparr>commit_hash = ''3f2a9c1'', ck_branch = [], has_uncommitted_changes = False,
                 uncommitted_changes = [], ck_timestamp = [],
                 checkpoint_type = checkpoint_value k, description = []\<rparr>)),
        created := created s @ [(path_name p, k)]\<rparr>)"
  by (simp add: create_git_checkpoint_def git_world_get_current_commit git_world_run_cmd
        tag_checkpoint_def default_fields git_world_fields strip_plain Let_def)

lemmas git_world_eval = check_git_status_def backup_step_def create_backup_branch_def
  create_backup_def setup_git_remotes_def setup_git_remote_def fetch_upstream_changes_def
  merge_upstream_changes_def push_to_origin_def rollback_set_def log_stage_def subprocess_run_def
  merge_cmd_def file_exists_def path_join_def path_name_def
  git_world_fields default_fields chat_fields strip_plain git_world_run_cmd git_world_run_command
  git_world_get_current_commit git_world_checkpoint_none git_world_checkpoint_some Let_def

text \<open>The run on the unborn branch, in two parts: up to the merge, and from it.\<close>

lemma unborn_until_merge_eval:
  "(let X = git_update_until_merge (git_world 13 []) default_settings fleet_projects ''VCPChat''
             chat_config ''/vcp/VCPChat'' (new_result ''VCPChat'' IN_PROGRESS) started
    in fst X = None \<and> fst (snd X) = None
       \<and> tick (snd (snd (snd X))) = 13
       \<and> created (snd (snd (snd X))) = []
       \<and> attempted (snd (snd (snd X))) =
            [(''VCPChat'', BEFORE_UPDATE), (''VCPChat'', AFTER_REMOTE_SETUP),
             (''VCPChat'', AFTER_FETCH)]
       \<and> stage_log (snd (snd (snd X))) =
            [StageOk ''check_status'', StageOk ''setup_remotes'', StageOk ''fetch_upstream'']
       \<and> git_checkpoints (snd (snd (snd X))) = Map.empty
       \<and> rollback_info (snd (snd (snd X))) ''VCPChat''
           = Some [''status'' \<mapsto> PStr ''in_progress''])"
  by (simp add: git_update_until_merge_def git_world_eval started_def initial_state_def
        new_result_def
        split del: if_split cong: let_weak_cong prod.case_cong_weak)

lemma unborn_from_merge_eval:
  assumes "n \<le> tick s" and "rollback_info s ''VCPChat'' = Some d"
    and "git_checkpoints s = Map.empty"
  shows
  "(let X = git_update_from_merge (git_world n []) default_settings ''VCPChat''
             chat_config ''/vcp/VCPChat'' ic s
    in fst X = Inr SUCCESS
       \<and> created (snd X) = created s @ [(''VCPChat'', AFTER_MERGE), (''VCPChat'', AFTER_PUSH)]
       \<and> attempted (snd X)
           = attempted s @ [(''VCPChat'', AFTER_MERGE), (''VCPChat'', AFTER_PUSH)]
       \<and> stage_log (snd X)
           = stage_log s @ [StageOk ''merge_upstream'', StageOk ''push_origin'']
       \<and> map_option (\<lambda>m. (m ''after_fetch'', map_option commit_hash (m ''after_merge'')))
            (git_checkpoints (snd X) ''VCPChat'') = Some (None, Some ''3f2a9c1''))"
  using assms
  by (simp add: git_update_from_merge_def git_world_eval
        split del: if_split cong: let_weak_cong prod.case_cong_weak)

lemma unborn_run:
  "fst unborn_update = Inr SUCCESS"
  "created (snd (snd unborn_update)) = [(''VCPChat'', AFTER_MERGE), (''VCPChat'', AFTER_PUSH)]"
  "attempted (snd (snd unborn_update))
     = [(''VCPChat'', BEFORE_UPDATE), (''VCPChat'', AFTER_REMOTE_SETUP), (''VCPChat'', AFTER_FETCH),
        (''VCPChat'', AFTER_MERGE), (''VCPChat'', AFTER_PUSH)]"
  "stage_log (snd (snd unborn_update))
     = [StageOk ''check_status'', StageOk ''setup_remotes'', StageOk ''fetch_upstream'',
        StageOk ''merge_upstream'', StageOk ''push_origin'']"
  "map_option (\<lambda>m. (m ''after_fetch'', map_option commit_hash (m ''after_merge'')))
     (git_checkpoints (snd (snd unborn_update)) ''VCPChat'') = Some (None, Some ''3f2a9c1'')"
proof -
  obtain a ic r1 s1 where U:
    "git_update_until_merge (git_world 13 []) default_settings fleet_projects ''VCPChat''
       chat_config ''/vcp/VCPChat'' (new_result ''VCPChat'' IN_PROGRESS) started = (a, ic, r1, s1)"
    by (metis prod.collapse)
  note u = unborn_until_merge_eval[unfolded Let_def U, simplified]
  obtain out s2 where F:
    "git_update_from_merge (git_world 13 []) default_settings ''VCPChat'' chat_config
       ''/vcp/VCPChat'' None s1 = (out, s2)"
    by (metis prod.collapse)
  have "13 \<le> tick s1" using u by simp
  note f = unborn_from_merge_eval[OF this, of _ None, unfolded Let_def F, simplified]
  have P: "unborn_update = (out, r1, s2)"
    using u by (simp add: unborn_update_def unborn_world_def perform_git_update_def U F)
  show "fst unborn_update = Inr SUCCESS"
    using u f by (simp add: P)
  show "created (snd (snd unborn_update))
          = [(''VCPChat'', AFTER_MERGE), (''VCPChat'', AFTER_PUSH)]"
    using u f by (simp add: P)
  show "attempted (snd (snd unborn_update))
     = [(''VCPChat'', BEFORE_UPDATE), (''VCPChat'', AFTER_REMOTE_SETUP), (''VCPChat'', AFTER_FETCH),
        (''VCPChat'', AFTER_MERGE), (''VCPChat'', AFTER_PUSH)]"
    using u f by (simp add: P)
  show "stage_log (snd (snd unborn_update))
     = [StageOk ''check_status'', StageOk ''setup_remotes'', StageOk ''fetch_upstream'',
        StageOk ''merge_upstream'', StageOk ''push_origin'']"
    using u f by (simp add: P)
  show "map_option (\<lambda>m. (m ''after_fetch'', map_option commit_hash (m ''after_merge'')))
     (git_checkpoints (snd (snd unborn_update)) ''VCPChat'') = Some (None, Some ''3f2a9c1'')"
    using u f by (simp add: P)
qed

text \<open>The run on the fork that is up to date reaches the merge.\<close>

lemma uptodate_reach_eval:
  "fst uptodate_reach = None"
  unfolding uptodate_reach_def uptodate_world_def
  by (simp add: git_update_until_merge_def git_world_eval started_def initial_state_def
        new_result_def
        split del: if_split cong: let_weak_cong prod.case_cong_weak)

section \<open>Theorems: the checkpoint chain\<close>

text \<open>
  Claim C1, amended.  In one run of the git stage, started with empty logs: the kinds of
  checkpoint asked for (leaving out the \<open>auto_backup\<close> of the failure handler) are an
  initial segment of the fixed sequence, which starts at \<open>before_update\<close> only under
  \<open>backup_before_update\<close>; every checkpoint stored was asked for; and a checkpoint of a
  kind is stored only if the stage before it succeeded in this run and the checkpoint of
  the kind before it was asked for first.  Asking is not storing: a request stores
  nothing when the current commit cannot be read.
\<close>

theorem checkpoint_chain_follows_stages:
  assumes fresh: "attempted s = [] \<and> created s = [] \<and> stage_log s = []"
      and run: "perform_git_update w cfg projects pname pc p r s = (out, r', s')"
  shows "(\<exists>n. chain (attempted s') = take n (expected_chain cfg))
    \<and> set (created s') \<subseteq> set (attempted s')
    \<and> (BEFORE_UPDATE \<in> set (chain (created s'))
         \<longrightarrow> backup_before_update cfg \<and> StageOk ''check_status'' \<in> set (stage_log s'))
    \<and> (AFTER_REMOTE_SETUP \<in> set (chain (created s'))
         \<longrightarrow> StageOk ''check_status'' \<in> set (stage_log s')
             \<and> StageOk ''setup_remotes'' \<in> set (stage_log s'))
    \<and> (AFTER_FETCH \<in> set (chain (created s'))
         \<longrightarrow> StageOk ''setup_remotes'' \<in> set (stage_log s')
             \<and> StageOk ''fetch_upstream'' \<in> set (stage_log s')
             \<and> AFTER_REMOTE_SETUP \<in> set (chain (attempted s')))
    \<and> (AFTER_MERGE \<in> set (chain (created s'))
         \<longrightarrow> StageOk ''fetch_upstream'' \<in> set (stage_log s')
             \<and> StageOk ''merge_upstream'' \<in> set (stage_log s')
             \<and> AFTER_FETCH \<in> set (chain (attempted s')))
    \<and> (AFTER_PUSH \<in> set (chain (created s'))
         \<longrightarrow> StageOk ''merge_upstream'' \<in> set (stage_log s')
             \<and> StageOk ''push_origin'' \<in> set (stage_log s')
             \<and> AFTER_MERGE \<in> set (chain (attempted s')))"
proof -
  have sub: "\<And>ks es. grew s ks es s' \<Longrightarrow>
      chain (attempted s') = ks \<and> stage_log s' = es \<and> set (created s') \<subseteq> set (attempted s')
      \<and> set (chain (created s')) \<subseteq> set ks"
    using fresh unfolding grew_def chain_def by auto
  have p0: "\<exists>n. [] = take n (expected_chain cfg)" by (rule exI[of _ 0]) simp
  note p = chain_prefix[of cfg 0, simplified] chain_prefix[of cfg 1, simplified]
    chain_prefix[of cfg 2, simplified] chain_prefix[of cfg 3, simplified]
    chain_prefix[of cfg 4, simplified]
  from perform_cases[OF run] show ?thesis
  proof (elim disjE)
    assume "grew s [] [StageFailed ''check_status''] s'"
    from sub[OF this] p0 show ?thesis by auto
  next
    assume "grew s (pre_chain cfg) [StageOk ''check_status''] s'"
    from sub[OF this] p(1) show ?thesis by (auto simp: pre_chain_def split: if_splits)
  next
    assume "grew s (pre_chain cfg) [StageOk ''check_status'', StageFailed ''setup_remotes''] s'"
    from sub[OF this] p(1) show ?thesis by (auto simp: pre_chain_def split: if_splits)
  next
    assume "grew s (pre_chain cfg @ [AFTER_REMOTE_SETUP])
            [StageOk ''check_status'', StageOk ''setup_remotes'', StageFailed ''fetch_upstream''] s'"
    from sub[OF this] p(2) show ?thesis by (auto simp: pre_chain_def split: if_splits)
  next
    assume "grew s (pre_chain cfg @ [AFTER_REMOTE_SETUP, AFTER_FETCH])
            [StageOk ''check_status'', StageOk ''setup_remotes'', StageOk ''fetch_upstream'',
             StageFailed ''merge_upstream''] s'"
    from sub[OF this] p(3) show ?thesis by (auto simp: pre_chain_def split: if_splits)
  next
    assume "grew s (pre_chain cfg @ [AFTER_REMOTE_SETUP, AFTER_FETCH])
            [StageOk ''check_status'', StageOk ''setup_remotes'', StageOk ''fetch_upstream'',
             MergeNoChanges] s'"
    from sub[OF this] p(3) show ?thesis by (auto simp: pre_chain_def split: if_splits)
  next
    assume "grew s (pre_chain cfg @ [AFTER_REMOTE_SETUP, AFTER_FETCH, AFTER_MERGE])
            [StageOk ''check_status'', StageOk ''setup_remotes'', StageOk ''fetch_upstream'',
             StageOk ''merge_upstream'', StageFailed ''push_origin''] s'"
    from sub[OF this] p(4) show ?thesis by (auto simp: pre_chain_def split: if_splits)
  next
    assume "grew s (pre_chain cfg @ [AFTER_REMOTE_SETUP, AFTER_FETCH, AFTER_MERGE, AFTER_PUSH])
            [StageOk ''check_status'', StageOk ''setup_remotes'', StageOk ''fetch_upstream'',
             StageOk ''merge_upstream'', StageOk ''push_origin''] s'"
    from sub[OF this] p(5) show ?thesis by (auto simp: pre_chain_def split: if_splits)
  qed
qed

theorem checkpoint_chain_follows_stages_witness:
  "attempted started = [] \<and> created started = [] \<and> stage_log started = []
   \<and> AFTER_MERGE \<in> set (chain (created (snd (snd unborn_update))))
   \<and> StageOk ''fetch_upstream'' \<in> set (stage_log (snd (snd unborn_update)))
   \<and> StageOk ''merge_upstream'' \<in> set (stage_log (snd (snd unborn_update)))
   \<and> AFTER_FETCH \<in> set (chain (attempted (snd (snd unborn_update))))
   \<and> set (created (snd (snd unborn_update))) \<subseteq> set (attempted (snd (snd unborn_update)))"
proof -
  have fresh: "attempted started = [] \<and> created started = [] \<and> stage_log started = []"
    by (simp add: started_def initial_state_def)
  have run: "perform_git_update (unborn_world 13) default_settings fleet_projects ''VCPChat''
       chat_config ''/vcp/VCPChat'' (new_result ''VCPChat'' IN_PROGRESS) started
     = (fst unborn_update, fst (snd unborn_update), snd (snd unborn_update))"
    by (simp add: unborn_update_def)
  have m: "AFTER_MERGE \<in> set (chain (created (snd (snd unborn_update))))"
    by (simp add: unborn_run chain_def)
  from checkpoint_chain_follows_stages[OF fresh run] m fresh show ?thesis
    by blast
qed

text \<open>
  Claim C1 as stated fails on its second half.  In \<open>unborn_update\<close> the branch has no
  commit until the merge gives it one: the three requests before the merge store nothing
  (\<open>git rev-parse HEAD\<close> fails, \<open>create_git_checkpoint\<close> returns \<open>None\<close>, and
  \<open>_perform_git_update\<close> does not look at what it returns), the run goes on and succeeds,
  and an \<open>after_merge\<close> checkpoint is stored although no \<open>after_fetch\<close> checkpoint ever
  was, in the log of stored checkpoints as in \<open>git_checkpoints\<close> itself.
\<close>

theorem after_merge_without_after_fetch_counterexample:
  "created started = [] \<and> git_checkpoints started = Map.empty
   \<and> fst unborn_update = Inr SUCCESS
   \<and> (''VCPChat'', AFTER_MERGE) \<in> set (created (snd (snd unborn_update)))
   \<and> (''VCPChat'', AFTER_FETCH) \<notin> set (created (snd (snd unborn_update)))
   \<and> map_option (\<lambda>m. (m ''after_fetch'', map_option commit_hash (m ''after_merge'')))
        (git_checkpoints (snd (snd unborn_update)) ''VCPChat'') = Some (None, Some ''3f2a9c1'')"
  by (simp add: unborn_run started_def initial_state_def)

section \<open>Theorems: a fork that is up to date\<close>

text \<open>
  Claim C9.  Let a run of the git stage reach the merge, and let the merge command
  succeed and print one of the two phrases \<open>Already up to date\<close>, \<open>Already up-to-date\<close>.
  Then \<open>merge_upstream_changes\<close> returns \<open>no_changes\<close>, \<open>_perform_git_update\<close> returns
  \<open>NO_CHANGES\<close>, and no \<open>after_merge\<close> and no \<open>after_push\<close> checkpoint is asked for, let
  alone stored, in that run.  The run starts as its two callers start it: with the
  project's entry of \<open>rollback_info\<close> written, and (for the last part) with empty
  checkpoint logs.
\<close>

theorem up_to_date_gives_no_changes:
  assumes reach: "git_update_until_merge w cfg projects pname pc p r s = (None, ic, r1, s1)"
      and merge: "run_cmd w cfg (merge_cmd (branch pc)) p s1 = ((True, out, err), s2)"
      and report: "contains ''Already up to date'' out \<or> contains ''Already up-to-date'' out"
      and entry: "pname \<in> dom (rollback_info s)"
      and fresh: "attempted s = [] \<and> created s = []"
  shows "merge_upstream_changes w cfg p (branch pc) s1 = (''no_changes'', s2)
    \<and> fst (perform_git_update w cfg projects pname pc p r s) = Inr NO_CHANGES
    \<and> AFTER_MERGE \<notin> snd ` set (attempted (snd (snd (perform_git_update w cfg projects pname pc p r s))))
    \<and> AFTER_PUSH \<notin> snd ` set (attempted (snd (snd (perform_git_update w cfg projects pname pc p r s))))
    \<and> AFTER_MERGE \<notin> snd ` set (created (snd (snd (perform_git_update w cfg projects pname pc p r s))))
    \<and> AFTER_PUSH \<notin> snd ` set (created (snd (snd (perform_git_update w cfg projects pname pc p r s))))"
proof -
  let ?fm = "git_update_from_merge w cfg pname pc p ic s1"
  let ?s' = "snd (snd (perform_git_update w cfg projects pname pc p r s))"
  have m: "merge_upstream_changes w cfg p (branch pc) s1 = (''no_changes'', s2)"
    using merge report by (rule merge_reports_up_to_date)
  from until_merge_cases[OF reach]
  have g1: "grew s (pre_chain cfg @ [AFTER_REMOTE_SETUP, AFTER_FETCH])
              [StageOk ''check_status'', StageOk ''setup_remotes'', StageOk ''fetch_upstream''] s1"
    by simp
  then have "pname \<in> dom (rollback_info s1)"
    using entry unfolding grew_def by blast
  from from_merge_no_changes[of w cfg p pc s1 pname ic] m this
  have out: "fst ?fm = Inr NO_CHANGES" and g2: "grew s1 [] [MergeNoChanges] (snd ?fm)"
    by simp_all
  have P: "perform_git_update w cfg projects pname pc p r s = (fst ?fm, r1, snd ?fm)"
    by (simp add: perform_git_update_def reach split_beta)
  from grew_trans[OF g1 g2]
  have att: "chain (attempted ?s') = pre_chain cfg @ [AFTER_REMOTE_SETUP, AFTER_FETCH]"
    and sub: "set (created ?s') \<subseteq> set (attempted ?s')"
    using fresh unfolding grew_def by (simp_all add: P chain_def)
  have "AFTER_MERGE \<notin> set (chain (attempted ?s'))" "AFTER_PUSH \<notin> set (chain (attempted ?s'))"
    unfolding att by (simp_all add: pre_chain_def)
  then have a: "AFTER_MERGE \<notin> snd ` set (attempted ?s')" "AFTER_PUSH \<notin> snd ` set (attempted ?s')"
    by (simp_all add: chain_mem)
  with sub have c: "AFTER_MERGE \<notin> snd ` set (created ?s')" "AFTER_PUSH \<notin> snd ` set (created ?s')"
    by blast+
  from m out a c show ?thesis by (simp add: P)
qed

theorem up_to_date_gives_no_changes_witness:
  "fst uptodate_reach = None
   \<and> fst (run_cmd uptodate_world default_settings (merge_cmd (branch chat_config))
             ''/vcp/VCPChat'' (snd (snd (snd uptodate_reach))))
       = (True, ''Already up to date.'', [])
   \<and> contains ''Already up to date'' ''Already up to date.''
   \<and> ''VCPChat'' \<in> dom (rollback_info started)
   \<and> attempted started = [] \<and> created started = []
   \<and> fst (merge_upstream_changes uptodate_world default_settings ''/vcp/VCPChat''
             (branch chat_config) (snd (snd (snd uptodate_reach)))) = ''no_changes''
   \<and> fst uptodate_update = Inr NO_CHANGES
   \<and> AFTER_MERGE \<notin> snd ` set (created (snd (snd uptodate_update)))
   \<and> AFTER_PUSH \<notin> snd ` set (created (snd (snd uptodate_update)))"
proof -
  let ?s1 = "snd (snd (snd uptodate_reach))"
  let ?m = "run_cmd uptodate_world default_settings (merge_cmd (branch chat_config))
              ''/vcp/VCPChat'' ?s1"
  have reach: "git_update_until_merge uptodate_world default_settings fleet_projects ''VCPChat''
       chat_config ''/vcp/VCPChat'' (new_result ''VCPChat'' IN_PROGRESS) started
     = (None, fst (snd uptodate_reach), fst (snd (snd uptodate_reach)), ?s1)"
    using uptodate_reach_eval by (simp add: uptodate_reach_def prod_eq_iff)
  have mf: "fst ?m = (True, ''Already up to date.'', [])"
    by (simp add: uptodate_world_def git_world_run_cmd merge_cmd_def chat_fields strip_plain)
  then have merge: "?m = ((True, ''Already up to date.'', []), snd ?m)"
    by (simp add: prod_eq_iff)
  have report: "contains ''Already up to date'' ''Already up to date.''
      \<or> contains ''Already up-to-date'' ''Already up to date.''"
    by simp
  have entry: "''VCPChat'' \<in> dom (rollback_info started)"
    by (simp add: started_def initial_state_def)
  have fresh: "attempted started = [] \<and> created started = []"
    by (simp add: started_def initial_state_def)
  from up_to_date_gives_no_changes[OF reach merge report entry fresh] uptodate_reach_eval mf
    entry fresh
  show ?thesis by (simp add: uptodate_update_def)
qed

section \<open>Theorems: the head after a resolved conflict\<close>

lemma run_attempts_trace:
  "run_attempts w cwd cmd capture retry k s = ((ok, out, err), s') \<Longrightarrow>
   \<exists>n. invoked s' = invoked s @ replicate n (cmd, False) @ (if ok then [(cmd, True)] else [])"
proof (induction k arbitrary: s)
  case 0
  then show ?case by (auto intro: exI[of _ 0])
next
  case (Suc k)
  show ?case
  proof (cases "shutdown_set w (tick s)")
    case True
    with Suc.prems show ?thesis by (auto intro: exI[of _ 0])
  next
    case False
    let ?s1 = "\<lambda>b. s\<lparr>tick := Suc (tick s), invoked := invoked s @ [(cmd, b)]\<rparr>"
    have later: "\<And>b. run_attempts w cwd cmd capture retry k (?s1 b) = ((ok, out, err), s') \<Longrightarrow>
       \<not> b \<Longrightarrow>
       \<exists>n. invoked s' = invoked s @ replicate n (cmd, False) @ (if ok then [(cmd, True)] else [])"
    proof -
      fix b assume "run_attempts w cwd cmd capture retry k (?s1 b) = ((ok, out, err), s')" "\<not> b"
      from Suc.IH[OF this(1)] this(2) obtain n where
        "invoked s' = invoked s @ replicate (Suc n) (cmd, False) @ (if ok then [(cmd, True)] else [])"
        by auto
      then show "\<exists>n. invoked s' = invoked s @ replicate n (cmd, False)
                      @ (if ok then [(cmd, True)] else [])" ..
    qed
    show ?thesis
    proof (cases "subprocess w (tick s) cwd cmd")
      case (Returned rc o1 e1)
      show ?thesis
      proof (cases "rc = 0")
        case True
        with Suc.prems False Returned show ?thesis
          by (auto simp: subprocess_run_def Let_def intro: exI[of _ 0])
      next
        case nz: False
        show ?thesis
        proof (cases "\<not> retry \<or> k = 0")
          case True
          with Suc.prems False Returned nz
          have "invoked s' = invoked s @ replicate (Suc 0) (cmd, False)
                  @ (if ok then [(cmd, True)] else [])"
            by (auto simp: subprocess_run_def Let_def)
          then show ?thesis ..
        next
          case again: False
          with Suc.prems False Returned nz
          have "run_attempts w cwd cmd capture retry k (?s1 False) = ((ok, out, err), s')"
            by (simp add: subprocess_run_def Let_def)
          from later[OF this] show ?thesis by simp
        qed
      qed
    next
      case TimeoutExpired
      show ?thesis
      proof (cases "k = 0")
        case True
        with Suc.prems False TimeoutExpired
        have "invoked s' = invoked s @ replicate (Suc 0) (cmd, False)
                @ (if ok then [(cmd, True)] else [])"
          by (auto simp: subprocess_run_def Let_def)
        then show ?thesis ..
      next
        case again: False
        with Suc.prems False TimeoutExpired
        have "run_attempts w cwd cmd capture retry k (?s1 False) = ((ok, out, err), s')"
          by (simp add: subprocess_run_def Let_def)
        from later[OF this] show ?thesis by simp
      qed
    next
      case (Raised m)
      show ?thesis
      proof (cases "k = 0")
        case True
        with Suc.prems False Raised
        have "invoked s' = invoked s @ replicate (Suc 0) (cmd, False)
                @ (if ok then [(cmd, True)] else [])"
          by (auto simp: subprocess_run_def Let_def)
        then show ?thesis ..
      next
        case again: False
        with Suc.prems False Raised
        have "run_attempts w cwd cmd capture retry k (?s1 False) = ((ok, out, err), s')"
          by (simp add: subprocess_run_def Let_def)
        from later[OF this] show ?thesis by simp
      qed
    qed
  qed
qed

lemma run_cmd_trace:
  "run_cmd w cfg cmd cwd s = ((ok, out, err), s') \<Longrightarrow>
   \<exists>n. invoked s' = invoked s @ replicate n (cmd, False) @ (if ok then [(cmd, True)] else [])"
  unfolding run_cmd_def run_command_def Let_def by (rule run_attempts_trace)

lemma head_after_append [simp]:
  "head_after br up h (xs @ ys) = head_after br up (head_after br up h xs) ys"
  by (simp add: head_after_def)

lemma head_after_failed [simp]: "head_after br up h (replicate n (cmd, False)) = h"
  by (induction n) (simp_all add: head_after_def head_step_def)

lemma head_after_single [simp]: "head_after br up h [e] = head_step br up h e"
  by (simp add: head_after_def)

lemma head_after_Nil [simp]: "head_after br up h [] = h"
  by (simp add: head_after_def)

lemma merge_commit_is_new: "b \<noteq> MergeCommit a b"
  by (induction b arbitrary: a) auto

lemma reaches_refl [simp]: "reaches a a"
  by (cases a) simp_all

lemma reaches_size: "reaches a b \<Longrightarrow> a = b \<or> size b < size a"
  by (induction a) auto

lemma reaches_antisym: "reaches a b \<Longrightarrow> reaches b a \<Longrightarrow> a = b"
  using reaches_size[of a b] reaches_size[of b a] by auto

lemma merged_is_upstream: "merged h up = up \<longleftrightarrow> reaches up h"
  using merge_commit_is_new[of up h] by (auto simp: merged_def dest: reaches_antisym)

lemma strategy_commands_differ:
  "theirs_cmd br \<noteq> reset_cmd br" "theirs_cmd br \<noteq> merge_cmd br" "reset_cmd br \<noteq> merge_cmd br"
  "[''git'', ''merge'', ''--abort''] \<noteq> reset_cmd br"
  "[''git'', ''merge'', ''--abort''] \<noteq> merge_cmd br"
  "[''git'', ''merge'', ''--abort''] \<noteq> theirs_cmd br"
  "theirs_cmd br \<noteq> [''git'', ''merge'', ''--abort'']"
  by (simp_all add: theirs_cmd_def reset_cmd_def merge_cmd_def)

text \<open>The merge stage in the worlds \<open>conflict_world\<close>.\<close>

lemma conflict_world_fields:
  "subprocess (conflict_world rc) t cwd cmd =
     (if cmd = [''git'', ''merge'', ''upstream/main'', ''--no-edit'']
      then Returned 1 ''Auto-merging config.env''
             ''CONFLICT (content): Merge conflict in config.env''
      else if cmd = [''git'', ''merge'', ''upstream/main'', ''--strategy=recursive'',
                     ''-X'', ''theirs'', ''--no-edit'']
      then Returned rc [] []
      else Returned 0 [] [])"
  "shutdown_set (conflict_world rc) t = False"
  by (simp_all add: conflict_world_def repo_world_def quiet_world_def)

lemma conflict_eval:
  "(let X = plain_merge rc
    in fst (fst X) = False
       \<and> contains ''conflict'' (py_lower (snd (snd (fst X))))
       \<and> invoked (snd X) = [(merge_cmd ''main'', False)])"
  "rc = 0 \<or> rc = 1 \<Longrightarrow>
   (let Y = conflict_merge rc
    in fst Y = ''success''
       \<and> invoked (snd Y) =
            [(merge_cmd ''main'', False), ([''git'', ''merge'', ''--abort''], True),
             (theirs_cmd ''main'', rc = 0)]
            @ (if rc = 0 then [] else [(reset_cmd ''main'', True)]))"
  by (auto simp add: plain_merge_def conflict_merge_def merge_upstream_changes_def run_cmd_def
        run_command_def subprocess_run_def conflict_world_fields default_settings_def
        initial_state_def merge_cmd_def theirs_cmd_def reset_cmd_def py_strip_def is_space_def
        py_lower_def lower_char_def Let_def
        split del: if_split cong: let_weak_cong prod.case_cong_weak)

text \<open>
  Claim C2, amended.  Let the plain merge fail with a conflict or unrelated-histories
  error, with auto-resolution enabled, and let \<open>merge_upstream_changes\<close> return
  \<open>success\<close>.  Replay the commands this call invoked on a local head \<open>h\<close>, with \<open>up\<close> the
  upstream tip.  (1) The final head is what merging \<open>up\<close> into \<open>h\<close> gives when the merge
  with \<open>-X theirs\<close> succeeded (the function then returns at once, without a reset), and
  is \<open>up\<close> otherwise, by \<open>git reset --hard\<close>.  (2) Hence the final head is the upstream
  tip exactly when the merge with \<open>-X theirs\<close> did not succeed or the local head was in
  the history of the upstream tip already (no local-only commit: the merge
  fast-forwards).  (3) When the two have diverged and the merge with \<open>-X theirs\<close>
  succeeded, the final head is the merge commit of \<open>h\<close> and \<open>up\<close>, which is not the
  upstream tip and has the local head in its history.
\<close>

theorem resolved_conflict_head:
  assumes plain: "run_cmd w cfg (merge_cmd br) p s = ((False, out, err), s1)"
      and conflict: "contains ''conflict'' (py_lower err)
                     \<or> contains ''unrelated histories'' (py_lower err)"
      and auto: "auto_merge_conflicts cfg"
      and success: "merge_upstream_changes w cfg p br s = (''success'', s')"
  shows "head_after br up h (drop (length (invoked s)) (invoked s'))
           = (if (theirs_cmd br, True) \<in> set (drop (length (invoked s)) (invoked s'))
              then merged h up else up)
       \<and> (head_after br up h (drop (length (invoked s)) (invoked s')) = up
            \<longleftrightarrow> (theirs_cmd br, True) \<notin> set (drop (length (invoked s)) (invoked s'))
                \<or> reaches up h)
       \<and> (\<not> reaches h up \<and> \<not> reaches up h
            \<and> (theirs_cmd br, True) \<in> set (drop (length (invoked s)) (invoked s'))
            \<longrightarrow> head_after br up h (drop (length (invoked s)) (invoked s')) = MergeCommit h up
                \<and> MergeCommit h up \<noteq> up \<and> reaches (MergeCommit h up) h)"
proof -
  let ?abort = "[''git'', ''merge'', ''--abort'']"
  let ?tr = "drop (length (invoked s)) (invoked s')"
  from run_cmd_trace[OF plain] obtain n0 where
    t0: "invoked s1 = invoked s @ replicate n0 (merge_cmd br, False)" by auto
  obtain oka oa ea sa where a: "run_cmd w cfg ?abort p s1 = ((oka, oa, ea), sa)"
    by (metis prod.collapse)
  from run_cmd_trace[OF a] obtain na where
    ta: "invoked sa = invoked s1 @ replicate na (?abort, False)
           @ (if oka then [(?abort, True)] else [])" by auto
  have m: "merge_upstream_changes w cfg p br s
             = try_strategies w cfg p [theirs_cmd br, reset_cmd br] sa"
    using plain conflict auto a by (simp add: merge_upstream_changes_def)
  obtain okt ot et st where t: "run_cmd w cfg (theirs_cmd br) p sa = ((okt, ot, et), st)"
    by (metis prod.collapse)
  from run_cmd_trace[OF t] obtain nt where
    tt: "invoked st = invoked sa @ replicate nt (theirs_cmd br, False)
           @ (if okt then [(theirs_cmd br, True)] else [])" by auto
  have new: "MergeCommit h up \<noteq> up" using merge_commit_is_new[of up h] by auto
  have hist: "reaches (MergeCommit h up) h" by simp
  have ha: "head_after br up h (if oka then [(?abort, True)] else []) = h"
    by (simp add: head_step_def strategy_commands_differ)
  have main: "head_after br up h ?tr
                = (if (theirs_cmd br, True) \<in> set ?tr then merged h up else up)"
  proof (cases okt)
    case True
    with m t success have "s' = st" by simp
    with t0 ta tt True
    have tr: "?tr
        = replicate n0 (merge_cmd br, False) @ replicate na (?abort, False)
          @ (if oka then [(?abort, True)] else []) @ replicate nt (theirs_cmd br, False)
          @ [(theirs_cmd br, True)]"
      by simp
    have "head_after br up h ?tr = merged h up"
      unfolding tr
      by (simp add: ha) (simp add: head_step_def strategy_commands_differ)
    moreover have "(theirs_cmd br, True) \<in> set ?tr"
      unfolding tr by simp
    ultimately show ?thesis by simp
  next
    case False
    obtain okr orr er sr where r: "run_cmd w cfg (reset_cmd br) p st = ((okr, orr, er), sr)"
      by (metis prod.collapse)
    from run_cmd_trace[OF r] obtain nr where
      trr: "invoked sr = invoked st @ replicate nr (reset_cmd br, False)
             @ (if okr then [(reset_cmd br, True)] else [])" by auto
    from m t r False success have okr: "okr" and "s' = sr"
      by (auto split: if_splits)
    with t0 ta tt trr False
    have tr: "?tr
        = replicate n0 (merge_cmd br, False) @ replicate na (?abort, False)
          @ (if oka then [(?abort, True)] else []) @ replicate nt (theirs_cmd br, False)
          @ replicate nr (reset_cmd br, False) @ [(reset_cmd br, True)]"
      by simp
    have "head_after br up h ?tr = up"
      unfolding tr by (simp add: ha) (simp add: head_step_def)
    moreover have "(theirs_cmd br, True) \<notin> set ?tr"
      unfolding tr by (auto simp: strategy_commands_differ)
    ultimately show ?thesis by simp
  qed
  have iff: "head_after br up h ?tr = up
            \<longleftrightarrow> (theirs_cmd br, True) \<notin> set ?tr \<or> reaches up h"
    unfolding main by (simp add: merged_is_upstream)
  have div: "\<not> reaches h up \<and> \<not> reaches up h \<and> (theirs_cmd br, True) \<in> set ?tr
            \<longrightarrow> head_after br up h ?tr = MergeCommit h up
                \<and> MergeCommit h up \<noteq> up \<and> reaches (MergeCommit h up) h"
    unfolding main using new hist by (simp add: merged_def)
  from main iff div show ?thesis by blast
qed

theorem resolved_conflict_head_witness:
  "fst (fst (plain_merge 1)) = False
   \<and> contains ''conflict'' (py_lower (snd (snd (fst (plain_merge 1)))))
   \<and> auto_merge_conflicts default_settings
   \<and> fst (conflict_merge 1) = ''success''
   \<and> \<not> reaches (Commit ''local'') (Commit ''upstream'')
   \<and> \<not> reaches (Commit ''upstream'') (Commit ''local'')
   \<and> (theirs_cmd ''main'', True) \<notin> set (invoked (snd (conflict_merge 1)))
   \<and> (reset_cmd ''main'', True) \<in> set (invoked (snd (conflict_merge 1)))
   \<and> head_after ''main'' (Commit ''upstream'') (Commit ''local'')
         (drop (length (invoked initial_state)) (invoked (snd (conflict_merge 1))))
       = Commit ''upstream''"
proof -
  note p = conflict_eval(1)[of 1, unfolded Let_def]
  note m = conflict_eval(2)[of 1, unfolded Let_def, simplified]
  have plain: "run_cmd (conflict_world 1) default_settings (merge_cmd ''main'') ''/vcp/VCPChat''
                 initial_state
               = ((False, fst (snd (fst (plain_merge 1))), snd (snd (fst (plain_merge 1)))),
                  snd (plain_merge 1))"
    using p by (simp add: plain_merge_def prod_eq_iff)
  have conflict: "contains ''conflict'' (py_lower (snd (snd (fst (plain_merge 1)))))
                  \<or> contains ''unrelated histories'' (py_lower (snd (snd (fst (plain_merge 1)))))"
    using p by simp
  have auto: "auto_merge_conflicts default_settings" by (simp add: default_settings_def)
  have success: "merge_upstream_changes (conflict_world 1) default_settings ''/vcp/VCPChat''
                   ''main'' initial_state = (''success'', snd (conflict_merge 1))"
    using m by (simp add: conflict_merge_def prod_eq_iff)
  have diverged: "\<not> reaches (Commit ''local'') (Commit ''upstream'')
                  \<and> \<not> reaches (Commit ''upstream'') (Commit ''local'')"
    by simp
  have no_theirs: "(theirs_cmd ''main'', True) \<notin> set (invoked (snd (conflict_merge 1)))"
    using m by (simp add: strategy_commands_differ)
  have reset: "(reset_cmd ''main'', True) \<in> set (invoked (snd (conflict_merge 1)))"
    using m by simp
  have start: "length (invoked initial_state) = 0" by (simp add: initial_state_def)
  from resolved_conflict_head[OF plain conflict auto success] no_theirs
  have "head_after ''main'' (Commit ''upstream'') (Commit ''local'')
          (drop (length (invoked initial_state)) (invoked (snd (conflict_merge 1))))
        = Commit ''upstream''"
    by (simp add: start)
  with p m auto diverged no_theirs reset show ?thesis by simp
qed

text \<open>
  Claim C2 as stated fails when the merge with \<open>-X theirs\<close> succeeds: the plain merge
  stops on a conflict, auto-resolution is enabled, \<open>merge_upstream_changes\<close> returns
  \<open>success\<close> right after the second merge, without any reset, and the head is then a merge
  commit on top of the local head, not the upstream tip.
\<close>

theorem theirs_merge_keeps_local_head_counterexample:
  "fst (fst (plain_merge 0)) = False
   \<and> contains ''conflict'' (py_lower (snd (snd (fst (plain_merge 0)))))
   \<and> auto_merge_conflicts default_settings
   \<and> fst (conflict_merge 0) = ''success''
   \<and> invoked (snd (conflict_merge 0))
       = [(merge_cmd ''main'', False), ([''git'', ''merge'', ''--abort''], True),
          (theirs_cmd ''main'', True)]
   \<and> head_after ''main'' (Commit ''upstream'') (Commit ''local'') (invoked (snd (conflict_merge 0)))
       = MergeCommit (Commit ''local'') (Commit ''upstream'')
   \<and> head_after ''main'' (Commit ''upstream'') (Commit ''local'') (invoked (snd (conflict_merge 0)))
       \<noteq> Commit ''upstream''"
proof -
  note p = conflict_eval(1)[of 0, unfolded Let_def]
  note m = conflict_eval(2)[of 0, unfolded Let_def, simplified]
  have "head_after ''main'' (Commit ''upstream'') (Commit ''local'')
          (invoked (snd (conflict_merge 0)))
        = MergeCommit (Commit ''local'') (Commit ''upstream'')"
    using m by (simp add: head_after_def head_step_def merged_def strategy_commands_differ)
  with p m show ?thesis by (simp add: default_settings_def)
qed

section \<open>Theorems: the detailed health check\<close>

lemma scan_exited:
  assumes "\<forall>x\<in>set pre. \<exists>st h. lowered_field x ''State'' = Inr st
              \<and> lowered_field x ''Health'' = Inr h \<and> st \<noteq> ''exited''"
      and "lowered_field c ''State'' = Inr ''exited''"
      and "lowered_field c ''Health'' = Inr h"
  shows "scan_containers (pre @ c # post) all_healthy = Inr ReturnFalse"
  using assms by (induction pre arbitrary: all_healthy) auto

lemma scan_not_healthy: "scan_containers cs False \<noteq> Inr (AllHealthy True)"
  by (induction cs) (auto split: sum.splits)

lemma scan_restarting:
  assumes "c \<in> set cs" and "lowered_field c ''State'' = Inr ''restarting''"
  shows "scan_containers cs all_healthy \<noteq> Inr (AllHealthy True)"
  using assms
  by (induction cs arbitrary: all_healthy) (auto split: sum.splits simp: scan_not_healthy)

lemma scan_keeps_polling:
  assumes "\<forall>x\<in>set cs. \<exists>st h. lowered_field x ''State'' = Inr st
              \<and> lowered_field x ''Health'' = Inr h \<and> st \<noteq> ''exited''"
  shows "\<exists>b. scan_containers cs all_healthy = Inr (AllHealthy b)"
  using assms by (induction cs arbitrary: all_healthy) auto

lemma run_cmd_first_try:
  assumes "\<not> shutdown_set w (tick s)"
      and "subprocess w (tick s) cwd cmd = Returned 0 out err"
      and "0 < network_retry_count cfg"
  shows "run_cmd w cfg cmd cwd s =
           ((True, py_strip out, py_strip err),
            s\<lparr>tick := Suc (tick s), invoked := invoked s @ [(cmd, True)]\<rparr>)"
proof -
  have "\<exists>k. (if list_ex (\<lambda>c. contains c (join_sp cmd)) [''fetch'', ''push'', ''pull'', ''clone'']
             then network_retry_count cfg else 1) = Suc k"
    using assms(3) by (simp add: gr0_conv_Suc)
  then obtain k where
    "(if list_ex (\<lambda>c. contains c (join_sp cmd)) [''fetch'', ''push'', ''pull'', ''clone'']
      then network_retry_count cfg else 1) = Suc k" ..
  with assms(1,2) show ?thesis
    by (simp add: run_cmd_def run_command_def subprocess_run_def del: One_nat_def)
qed

lemma poll_exited:
  assumes "\<not> shutdown_set w (tick s)"
      and "run_cmd w cfg (ps_json_cmd cfg) p s = ((True, out, err), s1)"
      and "out \<noteq> []"
      and "json_loads w out = Some (JList (pre @ c # post))"
      and "\<forall>x\<in>set pre. \<exists>st h. lowered_field x ''State'' = Inr st
              \<and> lowered_field x ''Health'' = Inr h \<and> st \<noteq> ''exited''"
      and "lowered_field c ''State'' = Inr ''exited''"
      and "lowered_field c ''Health'' = Inr h"
  shows "health_poll w cfg p pc s = (Some (Inr False), s1)"
  using assms(1-4) scan_exited[OF assms(5-7), of post True]
  by (simp add: health_poll_def)

lemma poll_restarting:
  assumes "\<not> shutdown_set w (tick s)"
      and "run_cmd w cfg (ps_json_cmd cfg) p s = ((True, out, err), s1)"
      and "out \<noteq> []"
      and "json_loads w out = Some (JList cs)"
      and "c \<in> set cs"
      and "lowered_field c ''State'' = Inr ''restarting''"
  shows "health_poll w cfg p pc s = (Some (Inr False), s1)
       \<or> (\<exists>e. health_poll w cfg p pc s = (Some (Inl e), s1))
       \<or> health_poll w cfg p pc s = (None, sleep s1)"
proof (cases "scan_containers cs True")
  case (Inl e)
  with assms(1-4) show ?thesis by (simp add: health_poll_def)
next
  case (Inr r)
  show ?thesis
  proof (cases r)
    case ReturnFalse
    with Inr assms(1-4) show ?thesis by (simp add: health_poll_def)
  next
    case (AllHealthy b)
    with Inr scan_restarting[OF assms(5,6), of True] have "\<not> b" by auto
    with AllHealthy Inr assms(1-4) show ?thesis
      by (auto simp: health_poll_def pause_def)
  qed
qed

lemma clock_advances:
  assumes "\<forall>t. clock w t < clock w (Suc t)"
  shows "t < t' \<Longrightarrow> clock w t < clock w t'"
  using assms by (simp add: lift_Suc_mono_less)

lemma restarting_polls_until_timeout:
  assumes calm: "\<forall>t. \<not> shutdown_set w t"
      and ps: "\<forall>t. subprocess w t p (ps_json_cmd cfg) = Returned 0 out err"
      and retry: "0 < network_retry_count cfg"
      and out: "py_strip out \<noteq> []"
      and parsed: "json_loads w (py_strip out) = Some (JList cs)"
      and wf: "\<forall>x\<in>set cs. \<exists>st h. lowered_field x ''State'' = Inr st
              \<and> lowered_field x ''Health'' = Inr h \<and> st \<noteq> ''exited''"
      and restarting: "\<exists>c\<in>set cs. lowered_field c ''State'' = Inr ''restarting''"
      and interval: "0 \<le> docker_health_check_interval pc"
      and clock: "\<forall>t. clock w t < clock w (Suc t)"
  shows "\<exists>s'. health_poll_loop w cfg p pc start s = Some (Inr False, s')
              \<and> docker_health_check_timeout pc \<le> clock w (tick s' - 1) - start"
proof (induction "nat (start + docker_health_check_timeout pc - clock w (tick s))"
         arbitrary: s rule: less_induct)
  case less
  let ?T = "docker_health_check_timeout pc"
  let ?s0 = "s\<lparr>tick := Suc (tick s)\<rparr>"
  show ?case
  proof (cases "clock w (tick s) - start < ?T")
    case False
    then have "health_poll_loop w cfg p pc start s = Some (Inr False, ?s0)"
      by (subst health_poll_loop.simps) (simp add: time_now_def)
    with False show ?thesis by simp
  next
    case True
    let ?s1 = "?s0\<lparr>tick := Suc (tick ?s0), invoked := invoked ?s0 @ [(ps_json_cmd cfg, True)]\<rparr>"
    have r: "run_cmd w cfg (ps_json_cmd cfg) p ?s0 = ((True, py_strip out, py_strip err), ?s1)"
      using calm ps retry by (intro run_cmd_first_try) simp_all
    from scan_keeps_polling[OF wf, of True] obtain b
      where b: "scan_containers cs True = Inr (AllHealthy b)" ..
    from restarting obtain c where "c \<in> set cs" "lowered_field c ''State'' = Inr ''restarting''"
      by blast
    from scan_restarting[OF this, of True] b have "\<not> b" by auto
    with b r calm out parsed interval
    have poll: "health_poll w cfg p pc ?s0 = (None, sleep ?s1)"
      by (simp add: health_poll_def pause_def)
    have step: "health_poll_loop w cfg p pc start s = health_poll_loop w cfg p pc start (sleep ?s1)"
      using True poll by (subst health_poll_loop.simps) (simp add: time_now_def)
    have "clock w (tick s) < clock w (tick (sleep ?s1))"
      by (intro clock_advances[OF clock]) (simp add: sleep_def)
    with True
    have "nat (start + ?T - clock w (tick (sleep ?s1))) < nat (start + ?T - clock w (tick s))"
      by simp
    from less[OF this] step show ?thesis by simp
  qed
qed

lemma check_is_loop:
  "polled w cfg p pc s sk \<Longrightarrow>
   detailed_health_check w cfg p pc s = health_poll_loop w cfg p pc (clock w (tick s)) sk"
proof (induction rule: polled.induct)
  case entered
  show ?case by (simp add: detailed_health_check_def time_now_def)
next
  case (again sk s2)
  have "health_poll_loop w cfg p pc (clock w (tick s)) sk
          = health_poll_loop w cfg p pc (clock w (tick s)) s2"
    using again.hyps(2,3) by (subst health_poll_loop.simps) (simp add: time_now_def)
  with again.IH show ?case by simp
qed

lemma loop_returns:
  assumes major: "health_poll_loop w cfg p pc start sk0 = Some res"
      and pol0: "polled w cfg p pc s sk0"
      and st0: "start = clock w (tick s)"
  shows "\<exists>sk. polled w cfg p pc s sk
      \<and> ((\<not> clock w (tick sk) - clock w (tick s) < docker_health_check_timeout pc
           \<and> res = (Inr False, snd (time_now w sk)))
          \<or> (clock w (tick sk) - clock w (tick s) < docker_health_check_timeout pc
              \<and> health_poll w cfg p pc (snd (time_now w sk)) = (Some (fst res), snd res)))"
  using major pol0 st0
proof (induction w cfg p pc start sk0 res rule: health_poll_loop.raw_induct)
  case (1 loop w cfg p pc start sk0 res)
  note IH = "1.IH" and body = "1.hyps"(1) and maj = "1.prems"(1) and pol = "1.prems"(2)
    and st = "1.prems"(3)
  let ?T = "docker_health_check_timeout pc"
  show ?case
  proof (cases "clock w (tick sk0) - clock w (tick s) < ?T")
    case False
    with body st have "res = (Inr False, snd (time_now w sk0))"
      by (simp add: time_now_def)
    with False pol show ?thesis by blast
  next
    case True
    obtain r s1 where hp: "health_poll w cfg p pc (snd (time_now w sk0)) = (r, s1)"
      by (metis prod.collapse)
    show ?thesis
    proof (cases r)
      case None
      with hp True body st have l: "loop w cfg p pc start s1 = Some res"
        by (simp add: time_now_def)
      from hp None have "health_poll w cfg p pc (snd (time_now w sk0)) = (None, s1)" by simp
      with pol True have p1: "polled w cfg p pc s s1" by (rule polled.again)
      from maj hp None True st have "health_poll_loop w cfg p pc start s1 = Some res"
        by (subst (asm) health_poll_loop.simps) (simp add: time_now_def)
      from IH[OF l this p1 st] show ?thesis .
    next
      case (Some v)
      with hp True body st have "res = (v, s1)"
        by (simp add: time_now_def)
      with hp Some have "health_poll w cfg p pc (snd (time_now w sk0)) = (Some (fst res), snd res)"
        by simp
      with True pol show ?thesis by blast
    qed
  qed
qed (rule major)

lemma scan_all_running:
  "scan_containers cs True = Inr (AllHealthy True) \<Longrightarrow>
   \<forall>c\<in>set cs. lowered_field c ''State'' = Inr ''running''"
proof (induction cs)
  case Nil
  show ?case by simp
next
  case (Cons x xs)
  then show ?case
    by (auto split: sum.splits if_splits simp: scan_not_healthy)
qed

lemma poll_success:
  assumes "health_poll w cfg p pc s = (Some (Inr True), s')"
      and "\<not> shutdown_set w (tick s)"
      and "run_cmd w cfg (ps_json_cmd cfg) p s = ((True, out, err), s1)"
      and "out \<noteq> []"
      and "json_loads w out = Some (JList cs)"
  shows "\<forall>c\<in>set cs. lowered_field c ''State'' = Inr ''running''"
proof -
  from assms have "scan_containers cs True = Inr (AllHealthy True)"
    by (auto simp: health_poll_def pause_def split: sum.splits scan_outcome.splits bool.splits
          if_splits)
  then show ?thesis by (rule scan_all_running)
qed

text \<open>Facts about the concrete world \<open>ps_world\<close>.\<close>

lemma ps_world_fields:
  "subprocess (ps_world out) t cwd cmd = Returned 0 out []"
  "shutdown_set (ps_world out) t = False"
  "clock (ps_world out) t = int t"
  "json_loads (ps_world out) ''[web: running, db: exited]'' = Some (JList [web_running, db_exited])"
  "json_loads (ps_world out) ''[web: running, db: restarting]''
     = Some (JList [web_running, db_restarting])"
  "json_loads (ps_world out) ''[web: running, db: running]''
     = Some (JList [web_running, db_running])"
  by (simp_all add: ps_world_def quiet_world_def)

lemma service_fields:
  "lowered_field web_running ''State'' = Inr ''running''"
  "lowered_field web_running ''Health'' = Inr ''healthy''"
  "lowered_field db_exited ''State'' = Inr ''exited''"
  "lowered_field db_exited ''Health'' = Inr []"
  "lowered_field db_restarting ''State'' = Inr ''restarting''"
  "lowered_field db_restarting ''Health'' = Inr []"
  "lowered_field db_running ''State'' = Inr ''running''"
  "lowered_field db_running ''Health'' = Inr []"
  by code_simp+

lemma strip_listing:
  "py_strip ''[web: running, db: exited]'' = ''[web: running, db: exited]''"
  "py_strip ''[web: running, db: restarting]'' = ''[web: running, db: restarting]''"
  "py_strip ''[web: running, db: running]'' = ''[web: running, db: running]''"
  "py_strip [] = []"
  by (simp_all add: py_strip_def is_space_def)

lemma ps_world_run:
  "run_cmd (ps_world out) default_settings (ps_json_cmd default_settings) p
     (s\<lparr>tick := Suc (tick s)\<rparr>)
   = ((True, py_strip out, []),
      s\<lparr>tick := Suc (Suc (tick s)),
        invoked := invoked s @ [(ps_json_cmd default_settings, True)]\<rparr>)"
  "run_cmd (ps_world out) default_settings (ps_json_cmd default_settings) p s
   = ((True, py_strip out, []),
      s\<lparr>tick := Suc (tick s),
        invoked := invoked s @ [(ps_json_cmd default_settings, True)]\<rparr>)"
  by (subst run_cmd_first_try[where out = out and err = "[]"];
      simp add: ps_world_fields default_settings_def strip_listing)+

text \<open>
  Claim C5.  Four statements about a call of \<open>_detailed_health_check\<close> in a state \<open>s\<close>;
  \<open>sk\<close> is any state in which that call evaluates the loop condition, and the pass that
  starts there is in time, finds the shutdown flag down, and gets from
  \<open>ps --format json\<close> a non-empty output that parses to a list of services.

  (1) If a service of the list reports \<open>exited\<close> (each service before it reporting a
  state that is not \<open>exited\<close>), the call returns \<open>False\<close> in the very state in which that
  \<open>ps\<close> command returned: nothing is run and nothing is waited for after it.

  (2) If a service of the list reports \<open>restarting\<close>, the call does not return \<open>True\<close>
  from this pass: it returns \<open>False\<close> or raises in the state in which the \<open>ps\<close> command
  returned, or it sleeps and evaluates the loop condition again.

  (3) Whenever the call returns \<open>True\<close>, it does so from a pass, begun in time, in which
  every service listed reported \<open>running\<close>: none was restarting, none had exited.

  (4) If at every moment the output lists a restarting service and no exited one, and the
  clock advances, the call ends, by returning \<open>False\<close> once the clock read shows that the
  time is up.
\<close>

theorem detailed_health_check_exited_restarting:
  "(\<forall>sk s1 out err pre c post h.
      polled w cfg p pc s sk
      \<and> clock w (tick sk) - clock w (tick s) < docker_health_check_timeout pc
      \<and> \<not> shutdown_set w (Suc (tick sk))
      \<and> run_cmd w cfg (ps_json_cmd cfg) p (snd (time_now w sk)) = ((True, out, err), s1)
      \<and> out \<noteq> [] \<and> json_loads w out = Some (JList (pre @ c # post))
      \<and> (\<forall>x\<in>set pre. \<exists>st h. lowered_field x ''State'' = Inr st
              \<and> lowered_field x ''Health'' = Inr h \<and> st \<noteq> ''exited'')
      \<and> lowered_field c ''State'' = Inr ''exited'' \<and> lowered_field c ''Health'' = Inr h
      \<longrightarrow> detailed_health_check w cfg p pc s = Some (Inr False, s1))
   \<and> (\<forall>sk s1 out err cs c.
      polled w cfg p pc s sk
      \<and> clock w (tick sk) - clock w (tick s) < docker_health_check_timeout pc
      \<and> \<not> shutdown_set w (Suc (tick sk))
      \<and> run_cmd w cfg (ps_json_cmd cfg) p (snd (time_now w sk)) = ((True, out, err), s1)
      \<and> out \<noteq> [] \<and> json_loads w out = Some (JList cs)
      \<and> c \<in> set cs \<and> lowered_field c ''State'' = Inr ''restarting''
      \<longrightarrow> detailed_health_check w cfg p pc s = Some (Inr False, s1)
          \<or> (\<exists>e. detailed_health_check w cfg p pc s = Some (Inl e, s1))
          \<or> (polled w cfg p pc s (sleep s1)
              \<and> detailed_health_check w cfg p pc s
                  = health_poll_loop w cfg p pc (clock w (tick s)) (sleep s1)))
   \<and> (\<forall>s'. detailed_health_check w cfg p pc s = Some (Inr True, s') \<longrightarrow>
        (\<exists>sk. polled w cfg p pc s sk
           \<and> clock w (tick sk) - clock w (tick s) < docker_health_check_timeout pc
           \<and> health_poll w cfg p pc (snd (time_now w sk)) = (Some (Inr True), s')
           \<and> (\<forall>out err s1 cs c.
                 \<not> shutdown_set w (Suc (tick sk))
                 \<and> run_cmd w cfg (ps_json_cmd cfg) p (snd (time_now w sk)) = ((True, out, err), s1)
                 \<and> out \<noteq> [] \<and> json_loads w out = Some (JList cs) \<and> c \<in> set cs
                 \<longrightarrow> lowered_field c ''State'' = Inr ''running'')))
   \<and> (\<forall>out err cs.
      (\<forall>t. \<not> shutdown_set w t)
      \<and> (\<forall>t. subprocess w t p (ps_json_cmd cfg) = Returned 0 out err)
      \<and> 0 < network_retry_count cfg
      \<and> py_strip out \<noteq> [] \<and> json_loads w (py_strip out) = Some (JList cs)
      \<and> (\<forall>x\<in>set cs. \<exists>st h. lowered_field x ''State'' = Inr st
              \<and> lowered_field x ''Health'' = Inr h \<and> st \<noteq> ''exited'')
      \<and> (\<exists>c\<in>set cs. lowered_field c ''State'' = Inr ''restarting'')
      \<and> 0 \<le> docker_health_check_interval pc
      \<and> (\<forall>t. clock w t < clock w (Suc t))
      \<longrightarrow> (\<exists>s'. detailed_health_check w cfg p pc s = Some (Inr False, s')
                \<and> docker_health_check_timeout pc \<le> clock w (tick s' - 1) - clock w (tick s)))"
proof (intro conjI allI impI)
  fix sk s1 out err pre c post h
  assume a: "polled w cfg p pc s sk
      \<and> clock w (tick sk) - clock w (tick s) < docker_health_check_timeout pc
      \<and> \<not> shutdown_set w (Suc (tick sk))
      \<and> run_cmd w cfg (ps_json_cmd cfg) p (snd (time_now w sk)) = ((True, out, err), s1)
      \<and> out \<noteq> [] \<and> json_loads w out = Some (JList (pre @ c # post))
      \<and> (\<forall>x\<in>set pre. \<exists>st h. lowered_field x ''State'' = Inr st
              \<and> lowered_field x ''Health'' = Inr h \<and> st \<noteq> ''exited'')
      \<and> lowered_field c ''State'' = Inr ''exited'' \<and> lowered_field c ''Health'' = Inr h"
  then have "health_poll w cfg p pc (snd (time_now w sk)) = (Some (Inr False), s1)"
    by (intro poll_exited[where out = out and pre = pre and c = c and post = post and h = h])
       (simp_all add: time_now_def)
  with a have "health_poll_loop w cfg p pc (clock w (tick s)) sk = Some (Inr False, s1)"
    by (subst health_poll_loop.simps) (simp add: time_now_def)
  moreover from a have "polled w cfg p pc s sk" by simp
  ultimately show "detailed_health_check w cfg p pc s = Some (Inr False, s1)"
    by (simp add: check_is_loop[of w cfg p pc s sk])
next
  fix sk s1 out err cs c
  assume a: "polled w cfg p pc s sk
      \<and> clock w (tick sk) - clock w (tick s) < docker_health_check_timeout pc
      \<and> \<not> shutdown_set w (Suc (tick sk))
      \<and> run_cmd w cfg (ps_json_cmd cfg) p (snd (time_now w sk)) = ((True, out, err), s1)
      \<and> out \<noteq> [] \<and> json_loads w out = Some (JList cs)
      \<and> c \<in> set cs \<and> lowered_field c ''State'' = Inr ''restarting''"
  let ?sp = "snd (time_now w sk)"
  from a have "polled w cfg p pc s sk" by simp
  then have loop: "detailed_health_check w cfg p pc s
      = health_poll_loop w cfg p pc (clock w (tick s)) sk"
    by (rule check_is_loop)
  from a have t: "health_poll w cfg p pc ?sp = (Some (Inr False), s1)
       \<or> (\<exists>e. health_poll w cfg p pc ?sp = (Some (Inl e), s1))
       \<or> health_poll w cfg p pc ?sp = (None, sleep s1)"
    by (intro poll_restarting[where out = out and cs = cs and c = c])
       (simp_all add: time_now_def)
  have unroll: "health_poll_loop w cfg p pc (clock w (tick s)) sk
      = (case health_poll w cfg p pc ?sp of
           (Some r, s1) \<Rightarrow> Some (r, s1)
         | (None, s1) \<Rightarrow> health_poll_loop w cfg p pc (clock w (tick s)) s1)"
    using a by (subst health_poll_loop.simps) (simp add: time_now_def)
  from t show "detailed_health_check w cfg p pc s = Some (Inr False, s1)
          \<or> (\<exists>e. detailed_health_check w cfg p pc s = Some (Inl e, s1))
          \<or> (polled w cfg p pc s (sleep s1)
              \<and> detailed_health_check w cfg p pc s
                  = health_poll_loop w cfg p pc (clock w (tick s)) (sleep s1))"
  proof (elim disjE exE)
    assume "health_poll w cfg p pc ?sp = (Some (Inr False), s1)"
    then show ?thesis by (simp add: loop unroll)
  next
    fix e assume "health_poll w cfg p pc ?sp = (Some (Inl e), s1)"
    then show ?thesis by (simp add: loop unroll)
  next
    assume n: "health_poll w cfg p pc ?sp = (None, sleep s1)"
    from a have "polled w cfg p pc s sk"
      and "clock w (tick sk) - clock w (tick s) < docker_health_check_timeout pc"
      by simp_all
    from this n have "polled w cfg p pc s (sleep s1)" by (rule polled.again)
    with n show ?thesis by (simp add: loop unroll)
  qed
next
  fix s'
  assume r: "detailed_health_check w cfg p pc s = Some (Inr True, s')"
  have e: "polled w cfg p pc s (snd (time_now w s))" by (rule polled.entered)
  from r have "health_poll_loop w cfg p pc (clock w (tick s)) (snd (time_now w s))
                 = Some (Inr True, s')"
    by (simp add: check_is_loop[OF e])
  from loop_returns[OF this e refl] obtain sk where sk: "polled w cfg p pc s sk"
    and intime: "clock w (tick sk) - clock w (tick s) < docker_health_check_timeout pc"
    and hp: "health_poll w cfg p pc (snd (time_now w sk)) = (Some (Inr True), s')"
    by auto
  have "\<forall>out err s1 cs c.
          \<not> shutdown_set w (Suc (tick sk))
          \<and> run_cmd w cfg (ps_json_cmd cfg) p (snd (time_now w sk)) = ((True, out, err), s1)
          \<and> out \<noteq> [] \<and> json_loads w out = Some (JList cs) \<and> c \<in> set cs
          \<longrightarrow> lowered_field c ''State'' = Inr ''running''"
  proof (intro allI impI)
    fix out err s1 cs c
    assume b: "\<not> shutdown_set w (Suc (tick sk))
          \<and> run_cmd w cfg (ps_json_cmd cfg) p (snd (time_now w sk)) = ((True, out, err), s1)
          \<and> out \<noteq> [] \<and> json_loads w out = Some (JList cs) \<and> c \<in> set cs"
    then have "\<forall>c\<in>set cs. lowered_field c ''State'' = Inr ''running''"
      by (intro poll_success[OF hp, where out = out and err = err and ?s1.0 = s1])
         (simp_all add: time_now_def)
    with b show "lowered_field c ''State'' = Inr ''running''" by blast
  qed
  with sk intime hp
  show "\<exists>sk. polled w cfg p pc s sk
           \<and> clock w (tick sk) - clock w (tick s) < docker_health_check_timeout pc
           \<and> health_poll w cfg p pc (snd (time_now w sk)) = (Some (Inr True), s')
           \<and> (\<forall>out err s1 cs c.
                 \<not> shutdown_set w (Suc (tick sk))
                 \<and> run_cmd w cfg (ps_json_cmd cfg) p (snd (time_now w sk)) = ((True, out, err), s1)
                 \<and> out \<noteq> [] \<and> json_loads w out = Some (JList cs) \<and> c \<in> set cs
                 \<longrightarrow> lowered_field c ''State'' = Inr ''running'')"
    by blast
next
  fix out err cs
  assume "(\<forall>t. \<not> shutdown_set w t)
      \<and> (\<forall>t. subprocess w t p (ps_json_cmd cfg) = Returned 0 out err)
      \<and> 0 < network_retry_count cfg
      \<and> py_strip out \<noteq> [] \<and> json_loads w (py_strip out) = Some (JList cs)
      \<and> (\<forall>x\<in>set cs. \<exists>st h. lowered_field x ''State'' = Inr st
              \<and> lowered_field x ''Health'' = Inr h \<and> st \<noteq> ''exited'')
      \<and> (\<exists>c\<in>set cs. lowered_field c ''State'' = Inr ''restarting'')
      \<and> 0 \<le> docker_health_check_interval pc
      \<and> (\<forall>t. clock w t < clock w (Suc t))"
  then have "\<exists>s'. health_poll_loop w cfg p pc (clock w (tick s)) (snd (time_now w s))
                     = Some (Inr False, s')
                \<and> docker_health_check_timeout pc \<le> clock w (tick s' - 1) - clock w (tick s)"
    by (intro restarting_polls_until_timeout[where out = out and err = err and cs = cs]) blast+
  then show "\<exists>s'. detailed_health_check w cfg p pc s = Some (Inr False, s')
                \<and> docker_health_check_timeout pc \<le> clock w (tick s' - 1) - clock w (tick s)"
    by (simp add: check_is_loop[OF polled.entered])
qed

theorem detailed_health_check_exited_restarting_witness:
  "polled (ps_world ''[web: running, db: exited]'') default_settings ''/vcp/VCPToolBox''
     toolbox_config initial_state
     (snd (time_now (ps_world ''[web: running, db: exited]'') initial_state))
   \<and> run_cmd (ps_world ''[web: running, db: exited]'') default_settings
         (ps_json_cmd default_settings) ''/vcp/VCPToolBox''
         (snd (time_now (ps_world ''[web: running, db: exited]'')
                 (snd (time_now (ps_world ''[web: running, db: exited]'') initial_state))))
       = ((True, ''[web: running, db: exited]'', []), first_ps)
   \<and> json_loads (ps_world ''[web: running, db: exited]'') ''[web: running, db: exited]''
       = Some (JList ([web_running] @ db_exited # []))
   \<and> lowered_field db_exited ''State'' = Inr ''exited''
   \<and> detailed_health_check (ps_world ''[web: running, db: exited]'') default_settings
         ''/vcp/VCPToolBox'' toolbox_config initial_state = Some (Inr False, first_ps)
   \<and> json_loads (ps_world ''[web: running, db: restarting]'') ''[web: running, db: restarting]''
       = Some (JList [web_running, db_restarting])
   \<and> lowered_field db_restarting ''State'' = Inr ''restarting''
   \<and> detailed_health_check (ps_world ''[web: running, db: restarting]'') default_settings
         ''/vcp/VCPToolBox'' toolbox_config initial_state
       = health_poll_loop (ps_world ''[web: running, db: restarting]'') default_settings
           ''/vcp/VCPToolBox'' toolbox_config 0 (sleep first_ps)
   \<and> (\<exists>s'. detailed_health_check (ps_world ''[web: running, db: restarting]'') default_settings
               ''/vcp/VCPToolBox'' toolbox_config initial_state = Some (Inr False, s')
            \<and> docker_health_check_timeout toolbox_config
               \<le> clock (ps_world ''[web: running, db: restarting]'') (tick s' - 1)
                  - clock (ps_world ''[web: running, db: restarting]'') (tick initial_state))
   \<and> detailed_health_check (ps_world ''[web: running, db: running]'') default_settings
         ''/vcp/VCPToolBox'' toolbox_config initial_state = Some (Inr True, first_ps)
   \<and> (\<exists>sk. polled (ps_world ''[web: running, db: running]'') default_settings
               ''/vcp/VCPToolBox'' toolbox_config initial_state sk
            \<and> health_poll (ps_world ''[web: running, db: running]'') default_settings
                 ''/vcp/VCPToolBox'' toolbox_config
                 (snd (time_now (ps_world ''[web: running, db: running]'') sk))
               = (Some (Inr True), first_ps))
   \<and> lowered_field db_running ''State'' = Inr ''running''"
proof -
  let ?E = "''[web: running, db: exited]''" and ?R = "''[web: running, db: restarting]''"
  let ?G = "''[web: running, db: running]''"
  let ?p = "''/vcp/VCPToolBox''"
  let ?s0 = "\<lambda>out. snd (time_now (ps_world out) initial_state)"
  have pol: "\<And>out. polled (ps_world out) default_settings ?p toolbox_config initial_state (?s0 out)"
    by (rule polled.entered)
  have t: "\<And>out. clock (ps_world out) (tick (?s0 out)) - clock (ps_world out) (tick initial_state)
              < docker_health_check_timeout toolbox_config"
    by (simp add: ps_world_fields toolbox_config_def initial_state_def time_now_def)
  have r: "\<And>out. run_cmd (ps_world out) default_settings (ps_json_cmd default_settings) ?p
             (snd (time_now (ps_world out) (?s0 out))) = ((True, py_strip out, []), first_ps)"
    by (simp add: time_now_def ps_world_run first_ps_def initial_state_def)
  have j: "json_loads (ps_world ?E) ?E = Some (JList ([web_running] @ db_exited # []))"
    by (simp add: ps_world_fields)
  have e: "detailed_health_check (ps_world ?E) default_settings ?p toolbox_config initial_state
             = Some (Inr False, first_ps)"
    by (rule detailed_health_check_exited_restarting[THEN conjunct1, rule_format,
               where sk = "?s0 ?E" and out = ?E and err = "[]" and pre = "[web_running]"
                 and c = db_exited and post = "[]" and h = "[]"])
       (simp add: pol t r[of ?E, simplified strip_listing] j ps_world_fields(1,2,4,5,6)
          service_fields)
  have n: "detailed_health_check (ps_world ?R) default_settings ?p toolbox_config initial_state
             = Some (Inr False, first_ps)
           \<or> (\<exists>e. detailed_health_check (ps_world ?R) default_settings ?p toolbox_config
                     initial_state = Some (Inl e, first_ps))
           \<or> (polled (ps_world ?R) default_settings ?p toolbox_config initial_state
                 (sleep first_ps)
               \<and> detailed_health_check (ps_world ?R) default_settings ?p toolbox_config
                   initial_state
                 = health_poll_loop (ps_world ?R) default_settings ?p toolbox_config
                     (clock (ps_world ?R) (tick initial_state)) (sleep first_ps))"
    by (rule detailed_health_check_exited_restarting[THEN conjunct2, THEN conjunct1, rule_format,
               where sk = "?s0 ?R" and out = ?R and err = "[]"
                 and cs = "[web_running, db_restarting]" and c = db_restarting])
       (simp add: pol t r[of ?R, simplified strip_listing] ps_world_fields(1,2,4,5,6)
          service_fields)
  have l: "\<exists>s'. detailed_health_check (ps_world ?R) default_settings ?p toolbox_config
                   initial_state = Some (Inr False, s')
            \<and> docker_health_check_timeout toolbox_config
               \<le> clock (ps_world ?R) (tick s' - 1) - clock (ps_world ?R) (tick initial_state)"
    by (rule detailed_health_check_exited_restarting[THEN conjunct2, THEN conjunct2,
               THEN conjunct2, rule_format,
               where out = ?R and err = "[]" and cs = "[web_running, db_restarting]"])
       (simp add: ps_world_fields service_fields strip_listing default_settings_def
          toolbox_config_def)
  from l obtain s' where s': "detailed_health_check (ps_world ?R) default_settings ?p
        toolbox_config initial_state = Some (Inr False, s')"
    and late: "docker_health_check_timeout toolbox_config
               \<le> clock (ps_world ?R) (tick s' - 1) - clock (ps_world ?R) (tick initial_state)"
    by blast
  from late have "tick s' \<noteq> tick first_ps"
    by (simp add: ps_world_fields toolbox_config_def initial_state_def first_ps_def)
  with s' n have goes_on: "detailed_health_check (ps_world ?R) default_settings ?p toolbox_config
        initial_state
      = health_poll_loop (ps_world ?R) default_settings ?p toolbox_config 0 (sleep first_ps)"
    by (auto simp: ps_world_fields initial_state_def)
  have poll_g: "health_poll (ps_world ?G) default_settings ?p toolbox_config
                  (snd (time_now (ps_world ?G) (?s0 ?G))) = (Some (Inr True), first_ps)"
    by (simp add: health_poll_def r[of ?G, simplified strip_listing] ps_world_fields
          service_fields)
  have g: "detailed_health_check (ps_world ?G) default_settings ?p toolbox_config initial_state
             = Some (Inr True, first_ps)"
    unfolding check_is_loop[OF pol]
    using t[of ?G] poll_g
    by (subst health_poll_loop.simps) (simp add: time_now_def ps_world_fields initial_state_def)
  from detailed_health_check_exited_restarting[THEN conjunct2, THEN conjunct2, THEN conjunct1,
         rule_format, OF g]
  have g3: "\<exists>sk. polled (ps_world ?G) default_settings ?p toolbox_config initial_state sk
            \<and> health_poll (ps_world ?G) default_settings ?p toolbox_config
                 (snd (time_now (ps_world ?G) sk)) = (Some (Inr True), first_ps)"
    by blast
  from pol[of ?E] r[of ?E, simplified strip_listing] j e goes_on l g g3 show ?thesis
    by (simp add: ps_world_fields(4,5,6) service_fields)
qed

section \<open>Theorems: exit code\<close>







end
